(* ===== verification/Prelude.thy ===== *)
theory Prelude
  imports Main "HOL-Library.Word"
begin

text \<open>
  What every component shares: bytes and strings, big-endian integers, and the generic list
  lemmas.

  A Rust \<open>Vec<u8>\<close> or \<open>&[u8]\<close> is a list of \<open>8 word\<close>. A Rust \<open>String\<close> or \<open>&str\<close> is the list of
  its UTF-8 bytes; a string literal of the source is written \<open>lit ''...''\<close>. A \<open>u32\<close> is a
  \<open>32 word\<close> and a \<open>u64\<close> a \<open>64 word\<close>. Buffer lengths and positions (\<open>usize\<close>) are natural
  numbers.
\<close>

named_theorems be_simps \<open>byte encodings of machine integers\<close>
named_theorems io_simps \<open>how the result and state operators compute\<close>

type_synonym byte = "8 word"
type_synonym bytes = "8 word list"
type_synonym u32 = "32 word"
type_synonym u64 = "64 word"
type_synonym str = "8 word list"

definition lit :: "string \<Rightarrow> str" where
  "lit s = map of_char s"

lemma length_lit [simp]: "length (lit s) = length s"
  by (simp add: lit_def)

lemma lit_Nil [simp]: "lit [] = []"
  by (simp add: lit_def)

lemma unat_of_char: "unat (of_char e :: 8 word) = of_char e"
proof -
  have "(of_char e :: 8 word) = word_of_nat (of_char e)"
    by (simp only: of_nat_of_char)
  moreover have "(of_char e :: nat) < 2 ^ LENGTH(8)"
    by simp
  ultimately show ?thesis by (simp add: unat_of_nat del: of_nat_of_char)
qed

lemma lit_eq_iff [simp]: "lit s = lit t \<longleftrightarrow> s = t"
proof -
  have "inj (of_char :: char \<Rightarrow> 8 word)"
    by (rule injI) (metis unat_of_char of_char_eq_iff)
  then show ?thesis by (simp add: lit_def inj_map_eq_map)
qed

section \<open>Big-endian integers\<close>

text \<open>
  \<open>be_val bs\<close> is the number a byte string stands for, most significant byte first, and
  \<open>be_bytes k n\<close> the last \<open>k\<close> base-256 digits of \<open>n\<close>. The conversions \<open>to_be_bytes\<close> and
  \<open>from_be_bytes\<close> of \<open>u32\<close> and \<open>u64\<close> are their instances; \<open>from_be_bytes\<close> is only ever applied
  to four (eight) bytes.
\<close>

definition be_val :: "bytes \<Rightarrow> nat" where
  "be_val bs = foldl (\<lambda>acc b. acc * 256 + unat b) 0 bs"

fun be_bytes :: "nat \<Rightarrow> nat \<Rightarrow> bytes" where
  "be_bytes 0 n = []"
| "be_bytes (Suc k) n = be_bytes k (n div 256) @ [word_of_nat n]"

definition u32_to_be :: "u32 \<Rightarrow> bytes" where
  "u32_to_be w = be_bytes 4 (unat w)"

definition be_to_u32 :: "bytes \<Rightarrow> u32" where
  "be_to_u32 bs = word_of_nat (be_val bs)"

definition u64_to_be :: "u64 \<Rightarrow> bytes" where
  "u64_to_be w = be_bytes 8 (unat w)"

definition be_to_u64 :: "bytes \<Rightarrow> u64" where
  "be_to_u64 bs = word_of_nat (be_val bs)"

text \<open>\<open>u64::to_le_bytes\<close> is the same digits, least significant first.\<close>

definition u64_to_le :: "u64 \<Rightarrow> bytes" where
  "u64_to_le w = rev (u64_to_be w)"

lemma length_be_bytes [simp]: "length (be_bytes k n) = k"
  by (induction k n rule: be_bytes.induct) auto

lemma length_u32_to_be [simp]: "length (u32_to_be w) = 4"
  by (simp add: u32_to_be_def)

lemma length_u64_to_be [simp]: "length (u64_to_be w) = 8"
  by (simp add: u64_to_be_def)

lemma length_u64_to_le [simp]: "length (u64_to_le w) = 8"
  by (simp add: u64_to_le_def)

lemma u32_to_be_neq_Nil [simp]: "u32_to_be w \<noteq> []"
  by (metis length_u32_to_be list.size(3) zero_neq_numeral)

lemma be_val_Nil [simp]: "be_val [] = 0"
  by (simp add: be_val_def)

lemma be_val_snoc [simp]: "be_val (bs @ [b]) = be_val bs * 256 + unat b"
  by (simp add: be_val_def)

lemma unat_byte_less [simp]: "unat (b :: 8 word) < 256"
  using unsigned_less [of b, where ?'a = nat] by simp

lemma unat_word_of_nat_byte: "unat (word_of_nat n :: 8 word) = n mod 256"
  by (simp add: unat_of_nat)

lemma be_val_less: "be_val bs < 256 ^ length bs"
proof (induction bs rule: rev_induct)
  case (snoc b bs)
  have "x * 256 + y < p * 256" if "x < p" and "y < 256" for x y p :: nat
    using that by linarith
  from this [OF snoc unat_byte_less [of b]] show ?case by (simp add: mult.commute)
qed simp

lemma be_val_be_bytes [simp]: "be_val (be_bytes k n) = n mod 256 ^ k"
proof (induction k n rule: be_bytes.induct)
  case (2 k n)
  have "n mod 256 ^ Suc k = n mod (256 * 256 ^ k)" by simp
  also have "\<dots> = 256 * (n div 256 mod 256 ^ k) + n mod 256" by (rule mod_mult2_eq)
  finally show ?case using 2 by (simp add: unat_word_of_nat_byte)
qed simp

lemma be_bytes_be_val: "be_bytes (length bs) (be_val bs) = bs"
proof (induction bs rule: rev_induct)
  case (snoc b bs)
  have "(be_val bs * 256 + unat b) div 256 = be_val bs" by simp
  moreover have "(word_of_nat (be_val bs * 256 + unat b) :: 8 word) = b"
    by (rule word_unat_eq_iff [THEN iffD2]) (simp add: unat_word_of_nat_byte del: of_nat_add of_nat_mult)
  ultimately show ?case using snoc by simp
qed simp

lemma unat_u32_less [simp]: "unat (w :: u32) < 4294967296"
  using unsigned_less [of w, where ?'a = nat] by simp

lemma unat_u64_less [simp]: "unat (w :: u64) < 18446744073709551616"
  using unsigned_less [of w, where ?'a = nat] by simp

lemma word_of_nat_unat [simp]: "word_of_nat (unat w) = w"
  by (simp add: ucast_id)

lemma be_to_u32_to_be [simp]: "be_to_u32 (u32_to_be w) = w"
  by (simp add: be_to_u32_def u32_to_be_def)

lemma u32_to_be_be_to: "length bs = 4 \<Longrightarrow> u32_to_be (be_to_u32 bs) = bs"
  using be_bytes_be_val [of bs] be_val_less [of bs]
  by (simp add: be_to_u32_def u32_to_be_def unat_of_nat)

lemma be_to_u64_to_be [simp]: "be_to_u64 (u64_to_be w) = w"
proof -
  have "unat w mod 256 ^ 8 = unat w" using unat_u64_less [of w] by (intro mod_less) simp
  then show ?thesis by (simp only: be_to_u64_def u64_to_be_def be_val_be_bytes word_of_nat_unat)
qed

text \<open>Evaluating the encodings at concrete values.\<close>

lemma be_bytes_unfold [be_simps]:
  "be_bytes (numeral k) n = be_bytes (pred_numeral k) (n div 256) @ [word_of_nat n]"
  by (metis be_bytes.simps(2) numeral_eq_Suc)

lemmas be_unfold [be_simps] = u32_to_be_def be_to_u32_def u64_to_be_def be_to_u64_def be_val_def

section \<open>Lists\<close>

lemma take_append_length [simp]: "take (length xs) (xs @ ys) = xs"
  by simp

lemma take_le_append: "n \<le> length xs \<Longrightarrow> take n (xs @ ys) = take n xs"
  by simp

lemma drop_le_append: "n \<le> length xs \<Longrightarrow> drop n (xs @ ys) = drop n xs @ ys"
  by simp

end
