(* ===== verification/Rust_Str.thy ===== *)
theory Rust_Str
  imports Prelude
begin

text \<open>
  What the source uses of Rust's string library: the check of \<open>core::str::from_utf8\<close>, the
  \<open>split(',')\<close> and \<open>join(",")\<close> of name-lists, \<open>starts_with\<close>, \<open>strip_prefix\<close>, and the decimal
  form of an unsigned integer in \<open>format!\<close>.
\<close>

section \<open>UTF-8\<close>

definition utf8_cont :: "byte \<Rightarrow> bool" where
  "utf8_cont b \<longleftrightarrow> 0x80 \<le> b \<and> b \<le> 0xBF"

text \<open>
  The well-formed byte sequences of the Unicode standard (its table 3-7), which are exactly what
  \<open>core::str::from_utf8\<close> accepts.
\<close>

fun utf8_valid :: "bytes \<Rightarrow> bool" where
  "utf8_valid [] = True"
| "utf8_valid (a # as) =
     (if a \<le> 0x7F then utf8_valid as
      else case as of
        [] \<Rightarrow> False
      | b # bs \<Rightarrow>
          if 0xC2 \<le> a \<and> a \<le> 0xDF then utf8_cont b \<and> utf8_valid bs
          else case bs of
            [] \<Rightarrow> False
          | c # cs \<Rightarrow>
              if 0xE0 \<le> a \<and> a \<le> 0xEF then
                utf8_cont b \<and> (a = 0xE0 \<longrightarrow> 0xA0 \<le> b) \<and> (a = 0xED \<longrightarrow> b \<le> 0x9F) \<and>
                utf8_cont c \<and> utf8_valid cs
              else case cs of
                [] \<Rightarrow> False
              | d # ds \<Rightarrow>
                  0xF0 \<le> a \<and> a \<le> 0xF4 \<and>
                  utf8_cont b \<and> (a = 0xF0 \<longrightarrow> 0x90 \<le> b) \<and> (a = 0xF4 \<longrightarrow> b \<le> 0x8F) \<and>
                  utf8_cont c \<and> utf8_cont d \<and> utf8_valid ds)"

lemma utf8_valid_ascii: "\<forall>b \<in> set bs. b \<le> 0x7F \<Longrightarrow> utf8_valid bs"
  by (induction bs) (auto simp: utf8_valid.simps)

declare utf8_valid.simps(2) [simp del]

lemma utf8_valid_ascii_Cons [simp]: "a \<le> 0x7F \<Longrightarrow> utf8_valid (a # as) = utf8_valid as"
  by (simp add: utf8_valid.simps(2))

lemma utf8_valid_append: "utf8_valid xs \<Longrightarrow> utf8_valid (xs @ ys) = utf8_valid ys"
proof (induction xs rule: utf8_valid.induct)
  case 1
  then show ?case by simp
next
  case (2 a as)
  then show ?case
    by (auto simp: utf8_valid.simps(2) [of a] split: list.splits if_splits)
qed

lemma utf8_valid_lit_ascii: "\<forall>c \<in> set s. of_char c < (128 :: nat) \<Longrightarrow> utf8_valid (lit s)"
  by (rule utf8_valid_ascii)
    (auto simp: lit_def word_le_nat_alt unat_of_char)

section \<open>Splitting and joining\<close>

text \<open>
  \<open>str::split(sep)\<close> for a one-byte separator: never empty, and an empty input gives one empty
  piece. \<open>join\<close> puts the separator between the pieces.
\<close>

fun split_on :: "byte \<Rightarrow> bytes \<Rightarrow> bytes list" where
  "split_on c [] = [[]]"
| "split_on c (b # bs) =
     (if b = c then [] # split_on c bs
      else case split_on c bs of [] \<Rightarrow> [[b]] | x # xs \<Rightarrow> (b # x) # xs)"

fun join_with :: "byte \<Rightarrow> bytes list \<Rightarrow> bytes" where
  "join_with c [] = []"
| "join_with c [x] = x"
| "join_with c (x # y # ys) = x @ [c] @ join_with c (y # ys)"

lemma split_on_neq_Nil [simp]: "split_on c bs \<noteq> []"
  by (induction bs) (auto split: list.splits)

lemma split_on_single: "c \<notin> set x \<Longrightarrow> split_on c x = [x]"
  by (induction x) auto

lemma split_on_append:
  "c \<notin> set x \<Longrightarrow> split_on c (x @ c # ys) = x # split_on c ys"
  by (induction x) auto

lemma split_on_join:
  "xs \<noteq> [] \<Longrightarrow> \<forall>x \<in> set xs. c \<notin> set x \<Longrightarrow> split_on c (join_with c xs) = xs"
  by (induction c xs rule: join_with.induct) (auto simp: split_on_single split_on_append)

lemma join_with_Cons: "xs \<noteq> [] \<Longrightarrow> join_with c (x # xs) = x @ [c] @ join_with c xs"
  by (cases xs) auto

lemma join_split_on: "join_with c (split_on c bs) = bs"
proof (induction bs)
  case (Cons b bs)
  obtain x xs where s: "split_on c bs = x # xs" by (cases "split_on c bs") auto
  with Cons show ?case by (cases xs) auto
qed simp

lemma split_on_no_sep: "x \<in> set (split_on c bs) \<Longrightarrow> c \<notin> set x"
proof (induction bs arbitrary: x)
  case (Cons b bs)
  obtain y ys where s: "split_on c bs = y # ys" by (cases "split_on c bs") auto
  with Cons show ?case by (auto split: if_splits)
qed simp

lemma utf8_valid_join:
  "\<forall>x \<in> set xs. utf8_valid x \<Longrightarrow> c \<le> 0x7F \<Longrightarrow> utf8_valid (join_with c xs)"
  by (induction c xs rule: join_with.induct) (auto simp: utf8_valid_append)

section \<open>Prefixes\<close>

definition starts_with :: "bytes \<Rightarrow> bytes \<Rightarrow> bool" where
  "starts_with xs p \<longleftrightarrow> take (length p) xs = p"

definition strip_prefix :: "bytes \<Rightarrow> bytes \<Rightarrow> bytes option" where
  "strip_prefix p xs = (if starts_with xs p then Some (drop (length p) xs) else None)"

lemma starts_with_append [simp]: "starts_with (p @ xs) p"
  by (simp add: starts_with_def)

lemma starts_with_iff: "starts_with xs p \<longleftrightarrow> (\<exists>ys. xs = p @ ys)"
  by (metis append_eq_conv_conj append_take_drop_id starts_with_def)

section \<open>Decimal numbers\<close>

fun decimal :: "nat \<Rightarrow> str" where
  "decimal n = (if n < 10 then [word_of_nat (48 + n)]
                else decimal (n div 10) @ [word_of_nat (48 + n mod 10)])"

declare decimal.simps [simp del]

lemma decimal_neq_Nil [simp]: "decimal n \<noteq> []"
  by (subst decimal.simps) simp

lemma decimal_digits: "b \<in> set (decimal n) \<Longrightarrow> 48 \<le> b \<and> b \<le> 57"
proof (induction n arbitrary: b rule: decimal.induct)
  case (1 n)
  have "48 \<le> (word_of_nat (48 + d) :: byte) \<and> (word_of_nat (48 + d) :: byte) \<le> 57" if "d < 10" for d
    using that by (simp add: word_le_nat_alt unat_word_of_nat_byte del: of_nat_add)
  moreover have "n < 10 \<or> \<not> n < 10" by blast
  ultimately show ?case using 1 by (auto simp: decimal.simps [of n] split: if_splits)
qed

text \<open>Two numbers with the same decimal form are equal, also in front of something else.\<close>

definition is_digit :: "byte \<Rightarrow> bool" where
  "is_digit b \<longleftrightarrow> 48 \<le> b \<and> b \<le> 57"

definition decimal_value :: "str \<Rightarrow> nat" where
  "decimal_value bs = foldl (\<lambda>acc b. 10 * acc + (unat b - 48)) 0 bs"

lemma decimal_value_decimal [simp]: "decimal_value (decimal n) = n"
proof (induction n rule: decimal.induct)
  case (1 n)
  have d: "unat (word_of_nat (48 + d) :: byte) - 48 = d" if "d < 10" for d
    using that by (simp add: unat_word_of_nat_byte del: of_nat_add)
  show ?case
  proof (cases "n < 10")
    case True
    with d [of n] show ?thesis by (simp add: decimal.simps [of n] decimal_value_def del: of_nat_add)
  next
    case False
    with 1 d [of "n mod 10"] show ?thesis
      by (simp add: decimal.simps [of n] decimal_value_def del: of_nat_add)
  qed
qed

lemma decimal_unique:
  assumes "decimal m @ xs = decimal n @ ys"
    and "xs \<noteq> []" "\<not> is_digit (hd xs)" "ys \<noteq> []" "\<not> is_digit (hd ys)"
  shows "m = n \<and> xs = ys"
proof -
  have t: "takeWhile is_digit (decimal k @ zs) = decimal k" if "zs \<noteq> []" "\<not> is_digit (hd zs)" for k zs
  proof -
    have "\<forall>b \<in> set (decimal k). is_digit b" using decimal_digits by (auto simp: is_digit_def)
    then have "takeWhile is_digit (decimal k @ zs) = decimal k @ takeWhile is_digit zs"
      by (simp add: takeWhile_append2)
    with that show ?thesis by (cases zs) simp_all
  qed
  from assms t [of xs m] t [of ys n] have "decimal m = decimal n" by simp
  moreover from this have "m = n" by (metis decimal_value_decimal)
  ultimately show ?thesis using assms(1) by simp
qed

end
