(* ===== verification/Errors.thy ===== *)
theory Errors
  imports Rust_Str
begin

text \<open>
  \<open>ssh-core/src/error.rs\<close>: the disconnect codes, the fatal errors and their display form, the
  result type of the crate, and the operators the handlers are written with.

  A fallible Rust function returns \<open>Ok\<close> or \<open>Err\<close>; a panic (\<open>expect\<close>, \<open>unreachable!\<close>, a slice out
  of range) is a third outcome, so that no panic of the source is hidden by a total function of
  the model. A method on \<open>&mut self\<close> is an operation \<open>('s, 'a) op\<close>: it returns the outcome and
  the state it leaves, also when it fails (the state after a panic is the one at the panic).
\<close>

section \<open>Errors\<close>

datatype disconnect_reason =
    HostNotAllowedToConnect | ProtocolError | KeyExchangeFailed | Reserved | MacError
  | CompressionError | ServiceNotAvailable | ProtocolVersionNotSupported | HostKeyNotVerifiable
  | ConnectionLost | ByApplication | TooManyConnections | AuthCancelledByUser
  | NoMoreAuthMethodsAvailable | IllegalUserName

fun disconnect_code :: "disconnect_reason \<Rightarrow> nat" where
  "disconnect_code HostNotAllowedToConnect = 1"
| "disconnect_code ProtocolError = 2"
| "disconnect_code KeyExchangeFailed = 3"
| "disconnect_code Reserved = 4"
| "disconnect_code MacError = 5"
| "disconnect_code CompressionError = 6"
| "disconnect_code ServiceNotAvailable = 7"
| "disconnect_code ProtocolVersionNotSupported = 8"
| "disconnect_code HostKeyNotVerifiable = 14"
| "disconnect_code ConnectionLost = 10"
| "disconnect_code ByApplication = 11"
| "disconnect_code TooManyConnections = 12"
| "disconnect_code AuthCancelledByUser = 13"
| "disconnect_code NoMoreAuthMethodsAvailable = 15"
| "disconnect_code IllegalUserName = 16"

lemma disconnect_code_inj: "disconnect_code a = disconnect_code b \<Longrightarrow> a = b"
  by (cases a; cases b) auto

text \<open>
  The variants of \<open>SshError\<close>. The errors of the crates \<open>ssh-encoding\<close> and \<open>ssh-key\<close> are carried
  by their display text. \<open>Channel\<close> is \<open>ChannelError\<close> here, the name of a record otherwise.
\<close>

datatype ssh_error =
    Framing str
  | Mac
  | Negotiation str
  | HostKeySignatureInvalid
  | HostKeyRejected
  | AuthExhausted
  | UnexpectedMessage str byte
  | ChannelError str
  | PeerDisconnected u32 str
  | TransportClosed
  | Encoding str
  | Key str
  | SigningFailed
  | UnsupportedAuthMethod str

fun display_error :: "ssh_error \<Rightarrow> str" where
  "display_error (Framing msg) = lit ''framing error: '' @ msg"
| "display_error Mac = lit ''MAC/AEAD verification failed''"
| "display_error (Negotiation what) = lit ''algorithm negotiation failed: no common '' @ what"
| "display_error HostKeySignatureInvalid = lit ''host key signature verification failed''"
| "display_error HostKeyRejected = lit ''host key rejected by caller''"
| "display_error AuthExhausted = lit ''all authentication methods exhausted''"
| "display_error (UnexpectedMessage st t) =
     lit ''unexpected message type '' @ decimal (unat t) @ lit '' in state '' @ st"
| "display_error (ChannelError msg) = lit ''channel error: '' @ msg"
| "display_error (PeerDisconnected reason description) =
     lit ''peer disconnected (reason '' @ decimal (unat reason) @ lit ''): '' @ description"
| "display_error TransportClosed = lit ''transport closed unexpectedly''"
| "display_error (Encoding e) = lit ''encoding error: '' @ e"
| "display_error (Key e) = lit ''key error: '' @ e"
| "display_error SigningFailed = lit ''failed to produce client auth signature''"
| "display_error (UnsupportedAuthMethod what) =
     lit ''unsupported auth method or key type: '' @ what"

section \<open>Results\<close>

datatype 'a result = Ok 'a | Err ssh_error | Panic

text \<open>The \<open>?\<close> operator, \<open>Option::ok_or\<close>, \<open>Option::expect\<close> and \<open>Result::unwrap_or_default\<close>.\<close>

primrec try_r :: "'a result \<Rightarrow> ('a \<Rightarrow> 'b result) \<Rightarrow> 'b result" where
  "try_r (Ok a) f = f a"
| "try_r (Err e) f = Err e"
| "try_r Panic f = Panic"

primrec ok_or :: "'a option \<Rightarrow> ssh_error \<Rightarrow> 'a result" where
  "ok_or None e = Err e"
| "ok_or (Some a) e = Ok a"

primrec expect :: "'a option \<Rightarrow> 'a result" where
  "expect None = Panic"
| "expect (Some a) = Ok a"

text \<open>\<open>Result::unwrap\<close>: an error is a panic.\<close>

definition unwrap :: "'a result \<Rightarrow> 'a result" where
  "unwrap r = (case r of Ok a \<Rightarrow> Ok a | _ \<Rightarrow> Panic)"

lemma unwrap_simps [simp]: "unwrap (Ok a) = Ok a" "unwrap (Err e) = Panic" "unwrap Panic = Panic"
  by (simp_all add: unwrap_def)

lemma try_r_Ok [simp]: "try_r r f = Ok b \<longleftrightarrow> (\<exists>a. r = Ok a \<and> f a = Ok b)"
  by (cases r) auto

lemma try_r_Err: "try_r r f = Err e \<longleftrightarrow> r = Err e \<or> (\<exists>a. r = Ok a \<and> f a = Err e)"
  by (cases r) auto

lemma try_r_Panic: "try_r r f = Panic \<longleftrightarrow> r = Panic \<or> (\<exists>a. r = Ok a \<and> f a = Panic)"
  by (cases r) auto

lemma ok_or_Ok [simp]: "ok_or x e = Ok a \<longleftrightarrow> x = Some a"
  by (cases x) auto

lemma ok_or_Err [simp]: "ok_or x e = Err e' \<longleftrightarrow> x = None \<and> e = e'"
  by (cases x) auto

lemma ok_or_Panic [simp]: "ok_or x e \<noteq> Panic"
  by (cases x) auto

lemma expect_Ok [simp]: "expect x = Ok a \<longleftrightarrow> x = Some a"
  by (cases x) auto

lemma expect_Err [simp]: "expect x \<noteq> Err e"
  by (cases x) auto

lemma expect_Panic [simp]: "expect x = Panic \<longleftrightarrow> x = None"
  by (cases x) auto

section \<open>Operations on a mutable state\<close>

type_synonym ('s, 'a) op = "'s \<Rightarrow> 'a result \<times> 's"

definition ret :: "'a \<Rightarrow> ('s, 'a) op" where
  "ret a s = (Ok a, s)"

definition fail_with :: "ssh_error \<Rightarrow> ('s, 'a) op" where
  "fail_with e s = (Err e, s)"

definition lift_r :: "'a result \<Rightarrow> ('s, 'a) op" where
  "lift_r r s = (r, s)"

definition update :: "('s \<Rightarrow> 's) \<Rightarrow> ('s, unit) op" where
  "update f s = (Ok (), f s)"

definition look :: "('s \<Rightarrow> 'a) \<Rightarrow> ('s, 'a) op" where
  "look f s = (Ok (f s), s)"

definition and_then :: "('s, 'a) op \<Rightarrow> ('a \<Rightarrow> ('s, 'b) op) \<Rightarrow> ('s, 'b) op" where
  "and_then m f s = (case m s of
      (Ok a, s') \<Rightarrow> f a s'
    | (Err e, s') \<Rightarrow> (Err e, s')
    | (Panic, s') \<Rightarrow> (Panic, s'))"

lemmas op_defs = ret_def fail_with_def lift_r_def update_def look_def and_then_def

lemma op_simps [io_simps, simp]:
  "ret a s = (Ok a, s)"
  "fail_with e s = (Err e, s)"
  "lift_r r s = (r, s)"
  "update f s = (Ok (), f s)"
  "look h s = (Ok (h s), s)"
  by (simp_all add: op_defs)

lemma and_then_simps [io_simps, simp]:
  "and_then (ret a) f s = f a s"
  "and_then (fail_with e) f' s = (Err e, s)"
  "and_then (lift_r (Ok a)) f s = f a s"
  "and_then (lift_r (Err e)) f s = (Err e, s)"
  "and_then (lift_r Panic) f s = (Panic, s)"
  "and_then (update h) g s = g () (h s)"
  "and_then (look k) f s = f (k s) s"
  by (simp_all add: op_defs)

lemma and_then_Ok: "m s = (Ok a, s') \<Longrightarrow> and_then m f s = f a s'"
  by (simp add: and_then_def)

lemma and_then_Err: "m s = (Err e, s') \<Longrightarrow> and_then m f s = (Err e, s')"
  by (simp add: and_then_def)

lemma and_then_Panic: "m s = (Panic, s') \<Longrightarrow> and_then m f s = (Panic, s')"
  by (simp add: and_then_def)

lemma and_then_eq_Ok:
  "and_then m f s = (Ok b, t) \<longleftrightarrow> (\<exists>a s'. m s = (Ok a, s') \<and> f a s' = (Ok b, t))"
  by (auto simp: and_then_def split: prod.splits result.splits)

lemma and_then_eq_Err:
  "and_then m f s = (Err e, t) \<longleftrightarrow>
     m s = (Err e, t) \<or> (\<exists>a s'. m s = (Ok a, s') \<and> f a s' = (Err e, t))"
  by (auto simp: and_then_def split: prod.splits result.splits)

lemma and_then_eq_Panic:
  "and_then m f s = (Panic, t) \<longleftrightarrow>
     m s = (Panic, t) \<or> (\<exists>a s'. m s = (Ok a, s') \<and> f a s' = (Panic, t))"
  by (auto simp: and_then_def split: prod.splits result.splits)

lemma and_then_assoc:
  "and_then (and_then m f) g = and_then m (\<lambda>a. and_then (f a) g)"
  by (rule ext) (simp add: and_then_def split: prod.split result.split)

text \<open>
  A property of the state that an operation keeps: the form every invariant of the development
  has, with one rule per operator.
\<close>

definition keeps :: "('s \<Rightarrow> bool) \<Rightarrow> ('s, 'a) op \<Rightarrow> bool" where
  "keeps I m \<longleftrightarrow> (\<forall>s. I s \<longrightarrow> I (snd (m s)))"

lemma keepsD: "keeps I m \<Longrightarrow> I s \<Longrightarrow> I (snd (m s))"
  by (simp add: keeps_def)

lemma keeps_and_then [intro]:
  assumes "keeps I m" and "\<And>a. keeps I (f a)"
  shows "keeps I (and_then m f)"
  unfolding keeps_def
proof (intro allI impI)
  fix s
  assume "I s"
  obtain r s' where m: "m s = (r, s')" by fastforce
  from assms(1) \<open>I s\<close> have "I s'" using keepsD [of I m s] by (simp add: m)
  then show "I (snd (and_then m f s))"
    using assms(2) keepsD by (cases r) (force simp: and_then_def m)+
qed

lemma keeps_simple [intro]:
  "keeps I (ret a)" "keeps I (fail_with e)" "keeps I (lift_r r)" "keeps I (look h)"
  by (auto simp: keeps_def)

lemma keeps_if [intro]: "(c \<Longrightarrow> keeps I m) \<Longrightarrow> (\<not> c \<Longrightarrow> keeps I n) \<Longrightarrow> keeps I (if c then m else n)"
  by simp

lemma keeps_update: "(\<And>s. I s \<Longrightarrow> I (f s)) \<Longrightarrow> keeps I (update f)"
  by (simp add: keeps_def)

text \<open>A \<open>for\<close> loop whose body may return early with \<open>?\<close>.\<close>

primrec for_each :: "('a \<Rightarrow> ('s, unit) op) \<Rightarrow> 'a list \<Rightarrow> ('s, unit) op" where
  "for_each f [] = ret ()"
| "for_each f (x # xs) = and_then (f x) (\<lambda>_. for_each f xs)"

lemma keeps_for_each [intro]: "(\<And>x. keeps I (f x)) \<Longrightarrow> keeps I (for_each f xs)"
  by (induction xs) auto

section \<open>Operations on a part of the state\<close>

text \<open>
  A handler that reads from a message while it updates a table works on the pair of both; these
  lift an operation on one half.
\<close>

definition on_fst :: "('s, 'a) op \<Rightarrow> ('s \<times> 't, 'a) op" where
  "on_fst m st = (case m (fst st) of (r, s') \<Rightarrow> (r, (s', snd st)))"

definition on_snd :: "('t, 'a) op \<Rightarrow> ('s \<times> 't, 'a) op" where
  "on_snd m st = (case m (snd st) of (r, t') \<Rightarrow> (r, (fst st, t')))"

lemma keeps_on_fst [intro]: "keeps (\<lambda>st. I (snd st)) (on_fst m)"
  by (simp add: keeps_def on_fst_def split: prod.split)

lemma keeps_on_snd [intro]: "keeps I m \<Longrightarrow> keeps (\<lambda>st. I (snd st)) (on_snd m)"
  by (simp add: keeps_def on_snd_def split: prod.split) (metis snd_conv)

section \<open>Pre- and postconditions\<close>

text \<open>
  \<open>triple N P m Q R\<close>: from a state with \<open>P\<close>, the operation ends with \<open>Q\<close> of its value and state,
  or fails in a state with \<open>R\<close>, or, only if \<open>N\<close>, panics. \<open>hoare\<close> excludes panics, \<open>partial\<close>
  says nothing where there is one.
\<close>

definition triple ::
    "bool \<Rightarrow> ('s \<Rightarrow> bool) \<Rightarrow> ('s, 'a) op \<Rightarrow> ('a \<Rightarrow> 's \<Rightarrow> bool) \<Rightarrow> ('s \<Rightarrow> bool) \<Rightarrow> bool" where
  "triple N P m Q R \<longleftrightarrow>
     (\<forall>s. P s \<longrightarrow> (case m s of (Ok a, s') \<Rightarrow> Q a s' | (Err e, s') \<Rightarrow> R s' | (Panic, s') \<Rightarrow> N))"

abbreviation "hoare \<equiv> triple False"
abbreviation "partial \<equiv> triple True"

lemma triple_and_then:
  "triple N P m M R \<Longrightarrow> (\<And>a. triple N (M a) (f a) Q R) \<Longrightarrow> triple N P (and_then m f) Q R"
  by (fastforce simp: triple_def and_then_def split: prod.splits result.splits)

lemma triple_ret: "(\<And>s. P s \<Longrightarrow> Q a s) \<Longrightarrow> triple N P (ret a) Q R"
  by (simp add: triple_def)

lemma triple_fail: "(\<And>s. P s \<Longrightarrow> R s) \<Longrightarrow> triple N P (fail_with e) Q R"
  by (simp add: triple_def)

lemma triple_update: "(\<And>s. P s \<Longrightarrow> Q () (f s)) \<Longrightarrow> triple N P (update f) Q R"
  by (simp add: triple_def)

lemma triple_look: "(\<And>s. P s \<Longrightarrow> Q (h s) s) \<Longrightarrow> triple N P (look h) Q R"
  by (simp add: triple_def)

lemma triple_lift:
  "r \<noteq> Panic \<or> N \<Longrightarrow> (\<And>s a. P s \<Longrightarrow> r = Ok a \<Longrightarrow> Q a s) \<Longrightarrow> (\<And>s e. P s \<Longrightarrow> r = Err e \<Longrightarrow> R s) \<Longrightarrow>
     triple N P (lift_r r) Q R"
  by (cases r) (simp_all add: triple_def)

lemma triple_if:
  "(c \<Longrightarrow> triple N P m Q R) \<Longrightarrow> (\<not> c \<Longrightarrow> triple N P n Q R) \<Longrightarrow> triple N P (if c then m else n) Q R"
  by simp

lemma triple_option:
  "(x = None \<Longrightarrow> triple N P m Q R) \<Longrightarrow> (\<And>a. x = Some a \<Longrightarrow> triple N P (f a) Q R) \<Longrightarrow>
     triple N P (case x of None \<Rightarrow> m | Some a \<Rightarrow> f a) Q R"
  by (cases x) auto

lemma triple_weaken:
  "triple N P' m Q' R' \<Longrightarrow> (\<And>s. P s \<Longrightarrow> P' s) \<Longrightarrow> (\<And>a s. Q' a s \<Longrightarrow> Q a s) \<Longrightarrow> (\<And>s. R' s \<Longrightarrow> R s) \<Longrightarrow>
     triple N P m Q R"
  by (fastforce simp: triple_def split: prod.splits result.splits)

text \<open>Sequencing after the simple operations, with what they tell about the value.\<close>

lemma triple_lift_then:
  "r \<noteq> Panic \<or> N \<Longrightarrow> (\<And>s. P s \<Longrightarrow> R s) \<Longrightarrow> (\<And>a. r = Ok a \<Longrightarrow> triple N P (f a) Q R) \<Longrightarrow>
     triple N P (and_then (lift_r r) f) Q R"
  by (cases r) (simp_all add: triple_def)

lemma triple_look_then:
  "(\<And>v. triple N (\<lambda>s. P s \<and> h s = v) (f v) Q R) \<Longrightarrow> triple N P (and_then (look h) f) Q R"
  by (simp add: triple_def)

lemma triple_update_then:
  "(\<And>s. P s \<Longrightarrow> P' (g s)) \<Longrightarrow> triple N P' (f ()) Q R \<Longrightarrow> triple N P (and_then (update g) f) Q R"
  by (simp add: triple_def)

lemma triple_assume: "(\<And>s0. P s0 \<Longrightarrow> triple N (\<lambda>s. s = s0) m Q R) \<Longrightarrow> triple N P m Q R"
  by (simp add: triple_def)

lemma hoare_no_panic: "hoare P m Q R \<Longrightarrow> P s \<Longrightarrow> fst (m s) \<noteq> Panic"
  unfolding triple_def by (drule spec [of _ s]) (cases "m s"; auto)

lemma triple_Ok: "triple N P m Q R \<Longrightarrow> P s \<Longrightarrow> m s = (Ok a, s') \<Longrightarrow> Q a s'"
  unfolding triple_def by (drule spec [of _ s]) simp

lemma triple_Err: "triple N P m Q R \<Longrightarrow> P s \<Longrightarrow> m s = (Err e, s') \<Longrightarrow> R s'"
  unfolding triple_def by (drule spec [of _ s]) simp

lemma triple_for_each:
  "(\<And>x. x \<in> set xs \<Longrightarrow> triple N P (f x) (\<lambda>_. P) R) \<Longrightarrow> triple N P (for_each f xs) (\<lambda>_. P) R"
  by (induction xs) (auto intro!: triple_ret triple_and_then [where M = "\<lambda>_. P"])

text \<open>Operations that leave a property of the state as it is, whatever their value.\<close>

abbreviation preserves :: "('s \<Rightarrow> bool) \<Rightarrow> ('s, 'a) op \<Rightarrow> bool" where
  "preserves I m \<equiv> partial I m (\<lambda>_. I) I"

lemma preserves_and_then:
  "preserves I m \<Longrightarrow> (\<And>a. preserves I (f a)) \<Longrightarrow> preserves I (and_then m f)"
  by (rule triple_and_then)

lemma preserves_simple:
  "preserves I (ret a)" "preserves I (fail_with e)" "preserves I (look h)" "preserves I (lift_r r)"
  by (cases r; simp add: triple_def)+

lemma preserves_update: "(\<And>s. I s \<Longrightarrow> I (f s)) \<Longrightarrow> preserves I (update f)"
  by (simp add: triple_def)

lemmas preserves_rules = preserves_and_then preserves_simple preserves_update triple_if
  triple_option triple_for_each

end
