(* ===== verification/Wire.thy ===== *)
theory Wire
  imports Errors
begin

text \<open>
  \<open>ssh-core/src/wire.rs\<close>: writers of the RFC 4251 primitives and the bounds-checked \<open>Reader\<close>.

  A writer returns the bytes the source appends to its \<open>out\<close> argument. The reader is the buffer
  and the position; every read advances the position exactly as the source does, also where a
  later check of the same read fails. The positions are natural numbers, so the source's
  \<open>checked_add\<close> never overflows here; where it does in the source (a 32-bit \<open>usize\<close>) the range is
  past the end of the buffer as well, and both give \<open>too_short\<close>.
\<close>

section \<open>Writers\<close>

definition write_u8 :: "byte \<Rightarrow> bytes" where
  "write_u8 b = [b]"

definition write_u32 :: "u32 \<Rightarrow> bytes" where
  "write_u32 value = u32_to_be value"

text \<open>\<open>data.len() as u32\<close> keeps the low 32 bits of the length.\<close>

definition write_string :: "bytes \<Rightarrow> bytes" where
  "write_string data = write_u32 (word_of_nat (length data)) @ data"

definition write_bool :: "bool \<Rightarrow> bytes" where
  "write_bool value = [if value then 1 else 0]"

lemma length_write_u32 [simp]: "length (write_u32 w) = 4"
  by (simp add: write_u32_def)

lemma length_write_string [simp]: "length (write_string d) = 4 + length d"
  by (simp add: write_string_def)

section \<open>The reader\<close>

record reader =
  rbuf :: bytes
  rpos :: nat

definition reader_new :: "bytes \<Rightarrow> reader" where
  "reader_new buf = \<lparr>rbuf = buf, rpos = 0\<rparr>"

definition too_short :: ssh_error where
  "too_short = Framing (lit ''message ended before expected field'')"

definition read_u8 :: "(reader, byte) op" where
  "read_u8 r =
     (if rpos r < length (rbuf r) then (Ok (rbuf r ! rpos r), r\<lparr>rpos := rpos r + 1\<rparr>)
      else (Err too_short, r))"

definition read_bool :: "(reader, bool) op" where
  "read_bool = and_then read_u8 (\<lambda>b. ret (b \<noteq> 0))"

definition read_exact :: "nat \<Rightarrow> (reader, bytes) op" where
  "read_exact n r =
     (let end = rpos r + n in
      if end \<le> length (rbuf r) then (Ok (take n (drop (rpos r) (rbuf r))), r\<lparr>rpos := end\<rparr>)
      else (Err too_short, r))"

definition read_u32 :: "(reader, u32) op" where
  "read_u32 r =
     (let end = rpos r + 4 in
      if end \<le> length (rbuf r)
      then (Ok (be_to_u32 (take 4 (drop (rpos r) (rbuf r)))), r\<lparr>rpos := end\<rparr>)
      else (Err too_short, r))"

definition read_string :: "(reader, bytes) op" where
  "read_string = and_then read_u32 (\<lambda>len r.
     (let end = rpos r + unat len in
      if end \<le> length (rbuf r)
      then (Ok (take (unat len) (drop (rpos r) (rbuf r))), r\<lparr>rpos := end\<rparr>)
      else (Err too_short, r)))"

definition read_utf8_string :: "(reader, str) op" where
  "read_utf8_string = and_then read_string (\<lambda>bytes.
     if utf8_valid bytes then ret bytes
     else fail_with (Framing (lit ''expected UTF-8 string'')))"

definition remaining :: "reader \<Rightarrow> bytes" where
  "remaining r = drop (rpos r) (rbuf r)"

definition is_finished :: "reader \<Rightarrow> bool" where
  "is_finished r \<longleftrightarrow> rpos r = length (rbuf r)"

text \<open>Running a parser over a payload, and \<open>unwrap_or_default()\<close> on a string read.\<close>

definition parse_with :: "(reader, 'a) op \<Rightarrow> bytes \<Rightarrow> 'a result" where
  "parse_with p payload = fst (p (reader_new payload))"

definition or_empty :: "(reader, str) op \<Rightarrow> (reader, str) op" where
  "or_empty p r = (case p r of
      (Ok s, r') \<Rightarrow> (Ok s, r')
    | (Err e, r') \<Rightarrow> (Ok [], r')
    | (Panic, r') \<Rightarrow> (Panic, r'))"

section \<open>Positions stay inside the buffer\<close>

definition reader_ok :: "bytes \<Rightarrow> reader \<Rightarrow> bool" where
  "reader_ok b r \<longleftrightarrow> rbuf r = b \<and> rpos r \<le> length b"

lemma reader_ok_new [simp]: "reader_ok b (reader_new b)"
  by (simp add: reader_ok_def reader_new_def)

lemma keeps_read_u8 [intro]: "keeps (reader_ok b) read_u8"
  by (auto simp: keeps_def read_u8_def reader_ok_def)

lemma keeps_read_u32 [intro]: "keeps (reader_ok b) read_u32"
  by (auto simp: keeps_def read_u32_def reader_ok_def Let_def)

lemma keeps_read_exact [intro]: "keeps (reader_ok b) (read_exact n)"
  by (auto simp: keeps_def read_exact_def reader_ok_def Let_def)

lemma keeps_read_bool [intro]: "keeps (reader_ok b) read_bool"
  by (auto simp: read_bool_def)

lemma keeps_read_string [intro]: "keeps (reader_ok b) read_string"
  unfolding read_string_def
  by (rule keeps_and_then [OF keeps_read_u32]) (auto simp: keeps_def reader_ok_def Let_def)

lemma keeps_read_utf8_string [intro]: "keeps (reader_ok b) read_utf8_string"
  unfolding read_utf8_string_def by (intro keeps_and_then keeps_if) auto

text \<open>No read panics: a truncated or oversized field is an \<open>Err\<close>.\<close>

definition no_panic :: "('s, 'a) op \<Rightarrow> bool" where
  "no_panic m \<longleftrightarrow> (\<forall>s. fst (m s) \<noteq> Panic)"

lemma no_panic_and_then [intro]:
  "no_panic m \<Longrightarrow> (\<And>a. no_panic (f a)) \<Longrightarrow> no_panic (and_then m f)"
  by (simp add: no_panic_def and_then_def split: prod.split result.split) (metis fst_conv)

lemma no_panic_simple [intro]:
  "no_panic (ret a)" "no_panic (fail_with e)" "no_panic (update g)" "no_panic (look h)"
  "no_panic (lift_r (Ok a))" "no_panic (lift_r (ok_or x e))"
  by (auto simp: no_panic_def)

lemma no_panic_if [intro]:
  "(c \<Longrightarrow> no_panic m) \<Longrightarrow> (\<not> c \<Longrightarrow> no_panic n) \<Longrightarrow> no_panic (if c then m else n)"
  by simp

lemma no_panic_reads [intro]:
  "no_panic read_u8" "no_panic read_u32" "no_panic (read_exact n)"
  by (auto simp: no_panic_def read_u8_def read_u32_def read_exact_def Let_def)

lemma no_panic_read_bool [intro]: "no_panic read_bool"
  unfolding read_bool_def by auto

lemma no_panic_read_string [intro]: "no_panic read_string"
  unfolding read_string_def
  by (rule no_panic_and_then [OF no_panic_reads(2)]) (auto simp: no_panic_def Let_def)

lemma no_panic_read_utf8_string [intro]: "no_panic read_utf8_string"
  unfolding read_utf8_string_def by (intro no_panic_and_then no_panic_if) auto

lemma no_panic_or_empty [intro]: "no_panic p \<Longrightarrow> no_panic (or_empty p)"
  by (simp add: no_panic_def or_empty_def split: prod.split result.split) (metis fst_conv)

lemma no_panic_parse: "no_panic p \<Longrightarrow> parse_with p b \<noteq> Panic"
  by (simp add: no_panic_def parse_with_def)

section \<open>Parsing what was written\<close>

text \<open>
  \<open>reads p xs v ys\<close>: at a reader whose unread bytes are \<open>xs\<close>, the parser \<open>p\<close> gives \<open>v\<close> and leaves
  \<open>ys\<close> unread. It composes along \<open>and_then\<close>, so a round trip is one rule per field.
\<close>

definition reads :: "(reader, 'a) op \<Rightarrow> bytes \<Rightarrow> 'a \<Rightarrow> bytes \<Rightarrow> bool" where
  "reads p xs v ys \<longleftrightarrow>
     (\<forall>r. rpos r \<le> length (rbuf r) \<longrightarrow> remaining r = xs \<longrightarrow>
       (\<exists>r'. p r = (Ok v, r') \<and> rpos r' \<le> length (rbuf r') \<and> remaining r' = ys))"

lemma readsI:
  assumes "\<And>r. rpos r \<le> length (rbuf r) \<Longrightarrow> drop (rpos r) (rbuf r) = xs \<Longrightarrow>
     \<exists>r'. p r = (Ok v, r') \<and> rpos r' \<le> length (rbuf r') \<and> drop (rpos r') (rbuf r') = ys"
  shows "reads p xs v ys"
  using assms by (simp add: reads_def remaining_def)

lemma reads_at_start:
  "reads p xs v ys \<Longrightarrow> \<exists>r'. p (reader_new xs) = (Ok v, r') \<and> remaining r' = ys"
proof -
  assume "reads p xs v ys"
  moreover have "rpos (reader_new xs) \<le> length (rbuf (reader_new xs))"
    and "remaining (reader_new xs) = xs"
    by (simp_all add: reader_new_def remaining_def)
  ultimately show ?thesis unfolding reads_def by blast
qed

lemma reads_parse_with: "reads p xs v ys \<Longrightarrow> parse_with p xs = Ok v"
  by (auto simp: parse_with_def dest: reads_at_start)

lemma reads_deterministic: "reads p xs v ys \<Longrightarrow> reads p xs w zs \<Longrightarrow> v = w \<and> ys = zs"
  by (auto dest!: reads_at_start)

lemma reads_and_then [intro]:
  "reads m xs a ys \<Longrightarrow> reads (f a) ys b zs \<Longrightarrow> reads (and_then m f) xs b zs"
  by (fastforce simp: reads_def and_then_def)

lemma reads_ret [intro]: "reads (ret v) xs v xs"
  by (simp add: reads_def)

lemma reads_guard [intro]:
  "\<not> c \<Longrightarrow> reads n xs v ys \<Longrightarrow> reads (if c then m else n) xs v ys"
  by simp

lemma reads_u8 [intro]: "reads read_u8 (b # ys) b ys"
proof (rule readsI)
  fix r :: reader
  assume d: "drop (rpos r) (rbuf r) = b # ys"
  then have pos: "rpos r < length (rbuf r)" by (metis drop_all list.discI not_less)
  with d have "rbuf r ! rpos r = b" and "drop (Suc (rpos r)) (rbuf r) = ys"
    by (metis Cons_nth_drop_Suc list.inject)+
  with pos show "\<exists>r'. read_u8 r = (Ok b, r') \<and> rpos r' \<le> length (rbuf r') \<and>
      drop (rpos r') (rbuf r') = ys"
    by (simp add: read_u8_def)
qed

lemma reads_u32 [intro]: "reads read_u32 (write_u32 w @ ys) w ys"
proof (rule readsI)
  fix r :: reader
  assume pos: "rpos r \<le> length (rbuf r)" and d: "drop (rpos r) (rbuf r) = write_u32 w @ ys"
  from arg_cong [OF d, of length] pos have "rpos r + 4 \<le> length (rbuf r)" by simp
  moreover have "take 4 (drop (rpos r) (rbuf r)) = u32_to_be w"
    by (simp add: d write_u32_def)
  moreover have "drop (rpos r + 4) (rbuf r) = ys"
    by (metis add.commute append_eq_conv_conj d drop_drop length_write_u32)
  ultimately show "\<exists>r'. read_u32 r = (Ok w, r') \<and> rpos r' \<le> length (rbuf r') \<and>
      drop (rpos r') (rbuf r') = ys"
    by (simp add: read_u32_def)
qed

lemma reads_exact [intro]: "length d = n \<Longrightarrow> reads (read_exact n) (d @ ys) d ys"
proof (rule readsI)
  fix r :: reader
  assume n: "length d = n" and pos: "rpos r \<le> length (rbuf r)"
    and d: "drop (rpos r) (rbuf r) = d @ ys"
  from arg_cong [OF d, of length] pos n have "rpos r + n \<le> length (rbuf r)" by simp
  moreover have "drop (rpos r + n) (rbuf r) = ys"
    by (metis add.commute append_eq_conv_conj d drop_drop n)
  ultimately show "\<exists>r'. read_exact n r = (Ok d, r') \<and> rpos r' \<le> length (rbuf r') \<and>
      drop (rpos r') (rbuf r') = ys"
    using n by (simp add: read_exact_def d)
qed

lemma read_string_eq: "read_string = and_then read_u32 (\<lambda>len. read_exact (unat len))"
  unfolding read_string_def read_exact_def [abs_def] Let_def ..

definition fits_u32 :: "bytes \<Rightarrow> bool" where
  "fits_u32 d \<longleftrightarrow> length d < 4294967296"

lemma reads_string [intro]: "fits_u32 d \<Longrightarrow> reads read_string (write_string d @ ys) d ys"
  unfolding read_string_eq write_string_def append_assoc
  by (rule reads_and_then [OF reads_u32 reads_exact])
    (simp add: fits_u32_def unat_of_nat)

lemma reads_utf8_string [intro]:
  "fits_u32 d \<Longrightarrow> utf8_valid d \<Longrightarrow> reads read_utf8_string (write_string d @ ys) d ys"
  unfolding read_utf8_string_def by (rule reads_and_then, erule reads_string) auto

lemma reads_bool [intro]: "reads read_bool (write_bool b @ ys) b ys"
  unfolding read_bool_def write_bool_def append_Cons append_Nil
  by (rule reads_and_then [OF reads_u8]) (cases b; auto)

lemma reads_or_empty: "reads p xs v ys \<Longrightarrow> reads (or_empty p) xs v ys"
  by (force simp: reads_def or_empty_def)

section \<open>The codec interface\<close>

text \<open>
  What a message format needs of a field: its reader inverts its writer in front of any rest.
  It follows that encodings of two values in front of two rests are equal only if the values and
  the rests are (the field is self-delimiting), and that a sequence of fields can be read back.
\<close>

locale codec =
  fixes enc :: "'a \<Rightarrow> bytes"
    and dec :: "(reader, 'a) op"
    and dom :: "'a \<Rightarrow> bool"
  assumes dec_enc: "dom a \<Longrightarrow> reads dec (enc a @ ys) a ys"
begin

lemma unique: "dom a \<Longrightarrow> dom b \<Longrightarrow> enc a @ xs = enc b @ ys \<Longrightarrow> a = b \<and> xs = ys"
  using dec_enc [of a xs] dec_enc [of b ys] reads_deterministic by metis

lemma inject: "dom a \<Longrightarrow> dom b \<Longrightarrow> enc a = enc b \<longleftrightarrow> a = b"
  using unique [of a b "[]" "[]"] by auto

lemma concat_unique:
  "\<lbrakk>\<forall>a \<in> set as. dom a; \<forall>b \<in> set bs. dom b; length as = length bs;
    concat (map enc as) @ xs = concat (map enc bs) @ ys\<rbrakk> \<Longrightarrow> as = bs \<and> xs = ys"
proof (induction as bs rule: list_induct2')
  case (4 a as b bs)
  then have "enc a @ (concat (map enc as) @ xs) = enc b @ (concat (map enc bs) @ ys)" by simp
  with 4(2,3) have "a = b \<and> concat (map enc as) @ xs = concat (map enc bs) @ ys"
    using unique by (metis list.set_intros(1))
  with 4 show ?case by simp
qed auto

end

interpretation u8_codec: codec write_u8 read_u8 "\<lambda>_. True"
  by unfold_locales (auto simp: write_u8_def)

interpretation u32_codec: codec write_u32 read_u32 "\<lambda>_. True"
  by unfold_locales auto

interpretation bool_codec: codec write_bool read_bool "\<lambda>_. True"
  by unfold_locales auto

interpretation string_codec: codec write_string read_string fits_u32
  by unfold_locales auto

interpretation utf8_codec: codec write_string read_utf8_string "\<lambda>s. fits_u32 s \<and> utf8_valid s"
  by unfold_locales auto

end
