(* ===== verification/Channel.thy ===== *)
theory Channel
  imports Wire
begin

text \<open>
  \<open>ssh-core/src/connection/channel.rs\<close>, \<open>exec.rs\<close> and \<open>pty.rs\<close>: one channel, its flow control,
  and the messages about it.
\<close>

definition MSG_CHANNEL_OPEN :: byte where "MSG_CHANNEL_OPEN = 90"
definition MSG_CHANNEL_OPEN_CONFIRMATION :: byte where "MSG_CHANNEL_OPEN_CONFIRMATION = 91"
definition MSG_CHANNEL_OPEN_FAILURE :: byte where "MSG_CHANNEL_OPEN_FAILURE = 92"
definition MSG_CHANNEL_WINDOW_ADJUST :: byte where "MSG_CHANNEL_WINDOW_ADJUST = 93"
definition MSG_CHANNEL_DATA :: byte where "MSG_CHANNEL_DATA = 94"
definition MSG_CHANNEL_EXTENDED_DATA :: byte where "MSG_CHANNEL_EXTENDED_DATA = 95"
definition MSG_CHANNEL_EOF :: byte where "MSG_CHANNEL_EOF = 96"
definition MSG_CHANNEL_CLOSE :: byte where "MSG_CHANNEL_CLOSE = 97"
definition MSG_CHANNEL_REQUEST :: byte where "MSG_CHANNEL_REQUEST = 98"
definition MSG_CHANNEL_SUCCESS :: byte where "MSG_CHANNEL_SUCCESS = 99"
definition MSG_CHANNEL_FAILURE :: byte where "MSG_CHANNEL_FAILURE = 100"

definition SSH_EXTENDED_DATA_STDERR :: u32 where "SSH_EXTENDED_DATA_STDERR = 1"

definition INITIAL_WINDOW_SIZE :: u32 where "INITIAL_WINDOW_SIZE = 2 * 1024 * 1024"
definition MAX_PACKET_SIZE :: u32 where "MAX_PACKET_SIZE = 32 * 1024"
definition WINDOW_ADJUST_THRESHOLD :: u32 where
  "WINDOW_ADJUST_THRESHOLD = INITIAL_WINDOW_SIZE div 2"

text \<open>\<open>u32::saturating_add\<close> and \<open>saturating_sub\<close>.\<close>

definition saturating_add :: "u32 \<Rightarrow> u32 \<Rightarrow> u32" where
  "saturating_add a b = (if unat a + unat b < 4294967296 then a + b else 0xFFFFFFFF)"

definition saturating_sub :: "u32 \<Rightarrow> u32 \<Rightarrow> u32" where
  "saturating_sub a b = (if b \<le> a then a - b else 0)"

datatype channel_kind = Exec | Shell

datatype channel_lifecycle = OpenRequested | Open | EofSent | CloseSent | Closed

record channel =
  local_id :: u32
  remote_id :: "u32 option"
  kind :: channel_kind
  lifecycle :: channel_lifecycle
  local_window :: u32
  local_window_unadvertised :: u32
  remote_window :: u32
  remote_max_packet :: u32

definition channel_new :: "u32 \<Rightarrow> channel_kind \<Rightarrow> channel" where
  "channel_new cid k =
     \<lparr>local_id = cid, remote_id = None, kind = k, lifecycle = OpenRequested,
      local_window = INITIAL_WINDOW_SIZE, local_window_unadvertised = 0,
      remote_window = 0, remote_max_packet = 0\<rparr>"

definition build_open_message :: "channel \<Rightarrow> bytes" where
  "build_open_message ch =
     MSG_CHANNEL_OPEN # write_string (lit ''session'') @ write_u32 (local_id ch) @
     write_u32 INITIAL_WINDOW_SIZE @ write_u32 MAX_PACKET_SIZE"

definition on_open_confirmation :: "u32 \<Rightarrow> u32 \<Rightarrow> u32 \<Rightarrow> channel \<Rightarrow> channel" where
  "on_open_confirmation sender_channel initial_window max_packet ch =
     ch\<lparr>remote_id := Some sender_channel, lifecycle := Open, remote_window := initial_window,
        remote_max_packet := max max_packet 1\<rparr>"

definition remote_id_or_panic :: "channel \<Rightarrow> u32 result" where
  "remote_id_or_panic ch = expect (remote_id ch)"

text \<open>
  The loop of \<open>build_data_messages\<close>, with its two accumulators. The message is built before the
  window is charged, as in the source.
\<close>

function data_loop :: "bytes \<Rightarrow> nat \<Rightarrow> bytes list \<Rightarrow> (channel, nat \<times> bytes list) op" where
  "data_loop data consumed messages ch =
     (if consumed < length data \<and> remote_window ch > 0 then
        let chunk_len = min (min (length data - consumed) (unat (remote_max_packet ch)))
                            (unat (remote_window ch)) in
        if chunk_len = 0 then (Ok (consumed, messages), ch)
        else
          let chunk = take chunk_len (drop consumed data) in
          case remote_id_or_panic ch of
            Ok rid \<Rightarrow>
              data_loop data (consumed + chunk_len)
                (messages @ [MSG_CHANNEL_DATA # write_u32 rid @ write_string chunk])
                (ch\<lparr>remote_window := remote_window ch - word_of_nat chunk_len\<rparr>)
          | Err e \<Rightarrow> (Err e, ch)
          | Panic \<Rightarrow> (Panic, ch)
      else (Ok (consumed, messages), ch))"
  by pat_completeness auto
termination
  by (relation "measure (\<lambda>(data, consumed, messages, ch). length data - consumed)") auto

declare data_loop.simps [simp del]

definition build_data_messages :: "bytes \<Rightarrow> (channel, nat \<times> bytes list) op" where
  "build_data_messages data = data_loop data 0 []"

definition on_data_consumed :: "u32 \<Rightarrow> (channel, bytes option) op" where
  "on_data_consumed len ch =
     (let ch1 = ch\<lparr>local_window := saturating_sub (local_window ch) len,
                  local_window_unadvertised := saturating_add (local_window_unadvertised ch) len\<rparr> in
      if local_window_unadvertised ch1 < WINDOW_ADJUST_THRESHOLD then (Ok None, ch1)
      else
        let add = local_window_unadvertised ch1;
            ch2 = ch1\<lparr>local_window_unadvertised := 0,
                      local_window := saturating_add (local_window ch1) add\<rparr>
        in (try_r (remote_id_or_panic ch2) (\<lambda>rid.
              Ok (Some (MSG_CHANNEL_WINDOW_ADJUST # write_u32 rid @ write_u32 add))), ch2))"

definition on_window_adjust :: "u32 \<Rightarrow> channel \<Rightarrow> channel" where
  "on_window_adjust bytes_to_add ch =
     ch\<lparr>remote_window := saturating_add (remote_window ch) bytes_to_add\<rparr>"

definition channel_id_only_message :: "byte \<Rightarrow> u32 \<Rightarrow> bytes" where
  "channel_id_only_message msg_type channel_id = msg_type # write_u32 channel_id"

definition build_eof_message :: "channel \<Rightarrow> bytes result" where
  "build_eof_message ch =
     try_r (remote_id_or_panic ch) (\<lambda>rid. Ok (channel_id_only_message MSG_CHANNEL_EOF rid))"

definition build_close_message :: "channel \<Rightarrow> bytes result" where
  "build_close_message ch =
     try_r (remote_id_or_panic ch) (\<lambda>rid. Ok (channel_id_only_message MSG_CHANNEL_CLOSE rid))"

definition build_channel_request :: "u32 \<Rightarrow> str \<Rightarrow> bool \<Rightarrow> bytes \<Rightarrow> bytes" where
  "build_channel_request rid request_type want_reply type_specific =
     MSG_CHANNEL_REQUEST # write_u32 rid @ write_string request_type @ write_bool want_reply @
     type_specific"

section \<open>Requests: exec, pty-req, shell, window-change\<close>

definition exec_build_request :: "u32 \<Rightarrow> str \<Rightarrow> bytes" where
  "exec_build_request rid command =
     build_channel_request rid (lit ''exec'') True (write_string command)"

record pty_options =
  pty_term :: str
  pty_cols :: u32
  pty_rows :: u32
  pty_pixel_width :: u32
  pty_pixel_height :: u32

definition pty_default :: pty_options where
  "pty_default = \<lparr>pty_term = lit ''xterm-256color'', pty_cols = 80, pty_rows = 24,
                  pty_pixel_width = 0, pty_pixel_height = 0\<rparr>"

definition build_pty_request :: "u32 \<Rightarrow> pty_options \<Rightarrow> bytes" where
  "build_pty_request rid opts =
     build_channel_request rid (lit ''pty-req'') True
       (write_string (pty_term opts) @ write_u32 (pty_cols opts) @ write_u32 (pty_rows opts) @
        write_u32 (pty_pixel_width opts) @ write_u32 (pty_pixel_height opts) @ write_string [])"

definition build_shell_request :: "u32 \<Rightarrow> bytes" where
  "build_shell_request rid = build_channel_request rid (lit ''shell'') True []"

definition build_window_change_request :: "u32 \<Rightarrow> u32 \<Rightarrow> u32 \<Rightarrow> u32 \<Rightarrow> u32 \<Rightarrow> bytes" where
  "build_window_change_request rid cols rows pixel_width pixel_height =
     build_channel_request rid (lit ''window-change'') False
       (write_u32 cols @ write_u32 rows @ write_u32 pixel_width @ write_u32 pixel_height)"

section \<open>Saturating arithmetic\<close>

lemma unat_saturating_add: "unat (saturating_add a b) = min (unat a + unat b) 4294967295"
proof (cases "unat a + unat b < 4294967296")
  case True
  then have "unat (a + b) = unat a + unat b" by (subst unat_add_lem [symmetric]) simp
  with True show ?thesis by (simp add: saturating_add_def)
next
  case False
  then show ?thesis by (simp add: saturating_add_def)
qed

lemma unat_saturating_sub: "unat (saturating_sub a b) = unat a - unat b"
  by (auto simp: saturating_sub_def unat_sub word_le_nat_alt)

section \<open>Receiving data\<close>

text \<open>
  A peer that stays inside its window never makes the arithmetic saturate: the bytes are held back,
  or all that is held back is announced and the window is whole again.
\<close>

lemma on_data_consumed_in_window:
  assumes "remote_id ch = Some rid" and "unat n \<le> unat (local_window ch)"
    and "unat (local_window ch) + unat (local_window_unadvertised ch) < 4294967296"
  shows "on_data_consumed n ch =
     (if local_window_unadvertised ch + n < WINDOW_ADJUST_THRESHOLD
      then (Ok None, ch\<lparr>local_window := local_window ch - n,
                        local_window_unadvertised := local_window_unadvertised ch + n\<rparr>)
      else (Ok (Some (MSG_CHANNEL_WINDOW_ADJUST # write_u32 rid @
                      write_u32 (local_window_unadvertised ch + n))),
            ch\<lparr>local_window := local_window ch + local_window_unadvertised ch,
               local_window_unadvertised := 0\<rparr>))"
    and "unat (local_window_unadvertised ch + n) = unat (local_window_unadvertised ch) + unat n"
    and "unat (local_window ch - n) = unat (local_window ch) - unat n"
    and "unat (local_window ch + local_window_unadvertised ch) =
      unat (local_window ch) + unat (local_window_unadvertised ch)"
proof -
  show u: "unat (local_window_unadvertised ch + n) = unat (local_window_unadvertised ch) + unat n"
    using assms(2,3) by (subst unat_add_lem [symmetric]) simp
  show v: "unat (local_window ch - n) = unat (local_window ch) - unat n"
    using assms(2) by (simp add: unat_sub word_le_nat_alt)
  show "unat (local_window ch + local_window_unadvertised ch) =
      unat (local_window ch) + unat (local_window_unadvertised ch)"
    using assms(3) by (subst unat_add_lem [symmetric]) simp
  have "saturating_add (local_window_unadvertised ch) n = local_window_unadvertised ch + n"
    "saturating_sub (local_window ch) n = local_window ch - n"
    "saturating_add (local_window ch - n) (local_window_unadvertised ch + n) =
      local_window ch + local_window_unadvertised ch"
    using assms(2,3) by (simp_all add: saturating_add_def saturating_sub_def word_le_nat_alt u v)
  then show "on_data_consumed n ch =
     (if local_window_unadvertised ch + n < WINDOW_ADJUST_THRESHOLD
      then (Ok None, ch\<lparr>local_window := local_window ch - n,
                        local_window_unadvertised := local_window_unadvertised ch + n\<rparr>)
      else (Ok (Some (MSG_CHANNEL_WINDOW_ADJUST # write_u32 rid @
                      write_u32 (local_window_unadvertised ch + n))),
            ch\<lparr>local_window := local_window ch + local_window_unadvertised ch,
               local_window_unadvertised := 0\<rparr>))"
    using assms(1) by (simp add: on_data_consumed_def Let_def remote_id_or_panic_def)
qed

section \<open>Sending data\<close>

text \<open>The payload of the data messages, and the specification of the chunking.\<close>

definition data_message :: "u32 \<Rightarrow> bytes \<Rightarrow> bytes" where
  "data_message rid chunk = MSG_CHANNEL_DATA # write_u32 rid @ write_string chunk"

text \<open>The size of the next chunk, and what one turn of the loop does with it.\<close>

definition chunk_size :: "bytes \<Rightarrow> nat \<Rightarrow> channel \<Rightarrow> nat" where
  "chunk_size data consumed ch = min (min (length data - consumed) (unat (remote_max_packet ch)))
     (unat (remote_window ch))"

lemma chunk_size_pos:
  "consumed < length data \<Longrightarrow> 0 < remote_window ch \<Longrightarrow> 0 < remote_max_packet ch \<Longrightarrow>
     0 < chunk_size data consumed ch"
  by (simp add: chunk_size_def word_less_nat_alt)

lemma data_loop_turn:
  assumes "consumed < length data" and "0 < remote_window ch" and "0 < remote_max_packet ch"
    and "remote_id ch = Some rid" and "n = chunk_size data consumed ch"
  shows "data_loop data consumed messages ch = data_loop data (consumed + n)
      (messages @ [data_message rid (take n (drop consumed data))])
      (ch\<lparr>remote_window := remote_window ch - word_of_nat n\<rparr>)"
  using assms chunk_size_pos [OF assms(1-3)]
  by (simp add: data_loop.simps [of data consumed] chunk_size_def [symmetric] Let_def
      remote_id_or_panic_def data_message_def)

text \<open>
  From any point of the loop: the messages appended carry consecutive chunks of the data, none
  empty and none above the packet limit, as many bytes as data and window allow, and the window is
  charged by exactly that.
\<close>

lemma data_loop_spec:
  assumes "remote_id ch = Some rid" and "0 < remote_max_packet ch" and "consumed \<le> length data"
  shows "\<exists>chunks. data_loop data consumed messages ch =
      (Ok (consumed + length (concat chunks), messages @ map (data_message rid) chunks),
       ch\<lparr>remote_window := remote_window ch - word_of_nat (length (concat chunks))\<rparr>) \<and>
    concat chunks = take (unat (remote_window ch)) (drop consumed data) \<and>
    (\<forall>c \<in> set chunks. c \<noteq> [] \<and> length c \<le> unat (remote_max_packet ch))"
  using assms
proof (induction data consumed messages ch rule: data_loop.induct)
  case (1 data consumed messages ch)
  show ?case
  proof (cases "consumed < length data \<and> remote_window ch > 0")
    case False
    then have "take (unat (remote_window ch)) (drop consumed data) = []"
      using 1(4) by (auto simp: word_gt_0)
    with False show ?thesis
      by (intro exI [of _ "[]"]) (auto simp: data_loop.simps [of data])
  next
    case True
    define n where "n = chunk_size data consumed ch"
    have n: "0 < n" "n \<le> unat (remote_window ch)" "n \<le> length data - consumed"
      "n \<le> unat (remote_max_packet ch)"
      using True 1(3) chunk_size_pos by (auto simp: n_def chunk_size_def)
    let ?ch = "ch\<lparr>remote_window := remote_window ch - word_of_nat n\<rparr>"
    have un: "unat (word_of_nat n :: u32) = n"
      using n(2) le_less_trans [OF n(2) unat_u32_less] by (simp add: unat_of_nat)
    then have uw: "unat (remote_window ch - word_of_nat n) = unat (remote_window ch) - n"
      using n(2) by (subst unat_sub) (simp_all add: word_le_nat_alt)
    have "remote_id_or_panic ch = Ok rid" "remote_id ?ch = Some rid" "0 < remote_max_packet ?ch"
      "consumed + n \<le> length data" "n \<noteq> 0"
      using n 1(2-4) by (auto simp: remote_id_or_panic_def)
    then obtain chunks where step: "data_loop data (consumed + n)
        (messages @ [data_message rid (take n (drop consumed data))]) ?ch =
        (Ok (consumed + n + length (concat chunks),
            (messages @ [data_message rid (take n (drop consumed data))]) @
              map (data_message rid) chunks),
         ?ch\<lparr>remote_window := remote_window ?ch - word_of_nat (length (concat chunks))\<rparr>)"
      and cc: "concat chunks = take (unat (remote_window ?ch)) (drop (consumed + n) data)"
      and sz: "\<forall>c \<in> set chunks. c \<noteq> [] \<and> length c \<le> unat (remote_max_packet ?ch)"
      using 1(1) [OF True n_def [unfolded chunk_size_def] _ refl, of rid, folded data_message_def] by blast
    let ?c = "take n (drop consumed data)"
    have len: "length ?c = n" using n(3) by simp
    have L: "length (concat (?c # chunks)) = n + length (concat chunks)" using len by simp
    have "data_loop data consumed messages ch = data_loop data (consumed + n)
        (messages @ [data_message rid ?c]) ?ch"
      using True 1(2,3) n_def by (intro data_loop_turn) simp_all
    then have "data_loop data consumed messages ch =
      (Ok (consumed + length (concat (?c # chunks)),
           messages @ map (data_message rid) (?c # chunks)),
       ch\<lparr>remote_window := remote_window ch - word_of_nat (length (concat (?c # chunks)))\<rparr>)"
      unfolding step L by (simp add: algebra_simps)
    moreover have "concat (?c # chunks) = take (unat (remote_window ch)) (drop consumed data)"
      using cc uw n(2) take_add [of n "unat (remote_window ch) - n" "drop consumed data"]
      by (simp add: add.commute)
    moreover have "\<forall>c \<in> set (?c # chunks). c \<noteq> [] \<and> length c \<le> unat (remote_max_packet ch)"
      using sz len n by auto
    ultimately show ?thesis by blast
  qed
qed

end
