(* ===== verification/Event.thy ===== *)
theory Event
  imports Errors
begin

text \<open>\<open>ssh-core/src/event.rs\<close>: the events the session reports to its host.\<close>

datatype data_stream = Stdout | Stderr

datatype event =
    HostKeyVerify (hkv_algorithm: str) (hkv_fingerprint: str) (hkv_raw_blob: bytes)
  | ReadyForAuth
  | AuthFailure "str list"
  | AuthSuccess
  | ChannelOpened u32
  | ChannelOpenFailed u32 u32 str
  | ChannelData u32 data_stream bytes
  | ChannelWindowFull u32
  | ChannelExitStatus u32 "u32 option" "str option"
  | ChannelEof u32
  | ChannelClosed u32
  | Disconnected u32 str
  | Unrecoverable ssh_error

end
