(* ===== verification/Connection.thy ===== *)
theory Connection
  imports Channel Event
begin

text \<open>
  \<open>ssh-core/src/connection/mod.rs\<close>: the channel table and the handler of the messages the server
  sends about channels. The handler works on the pair of the reader and the table, so that every
  field is read, and every channel looked up, in the order of the source.
\<close>

definition MSG_GLOBAL_REQUEST :: byte where "MSG_GLOBAL_REQUEST = 80"
definition MSG_REQUEST_FAILURE :: byte where "MSG_REQUEST_FAILURE = 82"

record channel_table =
  ct_channels :: "u32 \<rightharpoonup> channel"
  ct_next_id :: u32

definition table_new :: channel_table where
  "table_new = \<lparr>ct_channels = Map.empty, ct_next_id = 0\<rparr>"

text \<open>\<open>next_id\<close> wraps; an entry that still has the identifier is replaced.\<close>

definition table_open :: "channel_kind \<Rightarrow> channel_table \<Rightarrow> (u32 \<times> bytes) \<times> channel_table" where
  "table_open k t =
     (let cid = ct_next_id t;
          ch = channel_new cid k;
          msg = build_open_message ch
      in ((cid, msg), \<lparr>ct_channels = (ct_channels t)(cid \<mapsto> ch), ct_next_id = ct_next_id t + 1\<rparr>))"

definition table_get :: "channel_table \<Rightarrow> u32 \<Rightarrow> channel option" where
  "table_get t cid = ct_channels t cid"

definition table_remove :: "u32 \<Rightarrow> channel_table \<Rightarrow> channel_table" where
  "table_remove cid t = t\<lparr>ct_channels := (ct_channels t)(cid := None)\<rparr>"

definition table_len :: "channel_table \<Rightarrow> nat" where
  "table_len t = card (dom (ct_channels t))"

definition table_is_empty :: "channel_table \<Rightarrow> bool" where
  "table_is_empty t \<longleftrightarrow> table_len t = 0"

definition unknown_channel :: "u32 \<Rightarrow> ssh_error" where
  "unknown_channel cid = ChannelError (lit ''unknown channel id '' @ decimal (unat cid))"

text \<open>
  \<open>channel\<close> and \<open>channel_mut\<close>: the second one hands out the entry, so it takes the operation the
  caller runs on it.
\<close>

definition channel_ref :: "u32 \<Rightarrow> (channel_table, channel) op" where
  "channel_ref cid t = (ok_or (ct_channels t cid) (unknown_channel cid), t)"

definition channel_mut :: "u32 \<Rightarrow> (channel, 'a) op \<Rightarrow> (channel_table, 'a) op" where
  "channel_mut cid m t = (case ct_channels t cid of
      None \<Rightarrow> (Err (unknown_channel cid), t)
    | Some ch \<Rightarrow>
        (case m ch of (r, ch') \<Rightarrow> (r, t\<lparr>ct_channels := (ct_channels t)(cid \<mapsto> ch')\<rparr>)))"

section \<open>The message handler\<close>

type_synonym reaction = "event list \<times> bytes list"

definition handle_channel_request :: "(reader \<times> channel_table, reaction) op" where
  "handle_channel_request =
     and_then (on_fst read_u32) (\<lambda>recipient_channel.
     and_then (on_fst read_utf8_string) (\<lambda>request_type.
     and_then (on_fst read_bool) (\<lambda>want_reply.
     and_then (on_snd (channel_mut recipient_channel (ret ()))) (\<lambda>_.
       if request_type = lit ''exit-status'' then
         and_then (on_fst read_u32) (\<lambda>code.
           ret ([ChannelExitStatus recipient_channel (Some code) None], []))
       else if request_type = lit ''exit-signal'' then
         and_then (on_fst read_utf8_string) (\<lambda>signal_name.
           ret ([ChannelExitStatus recipient_channel None (Some signal_name)], []))
       else if want_reply then
         and_then (on_snd (channel_ref recipient_channel)) (\<lambda>ch.
         and_then (lift_r (expect (remote_id ch))) (\<lambda>rid.
           ret ([], [MSG_CHANNEL_FAILURE # write_u32 rid])))
       else ret ([], [])))))"

definition data_reaction :: "u32 \<Rightarrow> data_stream \<Rightarrow> bytes \<Rightarrow> bytes option \<Rightarrow> reaction" where
  "data_reaction cid stream data adjust =
     ([ChannelData cid stream data], case adjust of Some m \<Rightarrow> [m] | None \<Rightarrow> [])"

definition handle_message :: "byte \<Rightarrow> (reader \<times> channel_table, reaction) op" where
  "handle_message msg_type =
     and_then (on_fst read_u8) (\<lambda>_.
       if msg_type = MSG_CHANNEL_OPEN_CONFIRMATION then
         and_then (on_fst read_u32) (\<lambda>recipient_channel.
         and_then (on_fst read_u32) (\<lambda>sender_channel.
         and_then (on_fst read_u32) (\<lambda>initial_window.
         and_then (on_fst read_u32) (\<lambda>max_packet.
         and_then (on_snd (channel_mut recipient_channel
             (update (on_open_confirmation sender_channel initial_window max_packet)))) (\<lambda>_.
           ret ([ChannelOpened recipient_channel], []))))))
       else if msg_type = MSG_CHANNEL_OPEN_FAILURE then
         and_then (on_fst read_u32) (\<lambda>recipient_channel.
         and_then (on_fst read_u32) (\<lambda>reason_code.
         and_then (on_fst (or_empty read_utf8_string)) (\<lambda>description.
         and_then (on_snd (update (table_remove recipient_channel))) (\<lambda>_.
           ret ([ChannelOpenFailed recipient_channel reason_code description], [])))))
       else if msg_type = MSG_CHANNEL_WINDOW_ADJUST then
         and_then (on_fst read_u32) (\<lambda>recipient_channel.
         and_then (on_fst read_u32) (\<lambda>bytes_to_add.
         and_then (on_snd (channel_mut recipient_channel
             (update (on_window_adjust bytes_to_add)))) (\<lambda>_.
           ret ([], []))))
       else if msg_type = MSG_CHANNEL_DATA then
         and_then (on_fst read_u32) (\<lambda>recipient_channel.
         and_then (on_fst read_string) (\<lambda>data.
         and_then (on_snd (channel_mut recipient_channel
             (on_data_consumed (word_of_nat (length data))))) (\<lambda>adjust.
           ret (data_reaction recipient_channel Stdout data adjust))))
       else if msg_type = MSG_CHANNEL_EXTENDED_DATA then
         and_then (on_fst read_u32) (\<lambda>recipient_channel.
         and_then (on_fst read_u32) (\<lambda>data_type.
         and_then (on_fst read_string) (\<lambda>data.
         and_then (on_snd (channel_mut recipient_channel
             (on_data_consumed (word_of_nat (length data))))) (\<lambda>adjust.
           ret (data_reaction recipient_channel
             (if data_type = SSH_EXTENDED_DATA_STDERR then Stderr else Stdout) data adjust)))))
       else if msg_type = MSG_CHANNEL_EOF then
         and_then (on_fst read_u32) (\<lambda>recipient_channel.
         and_then (on_snd (channel_mut recipient_channel
             (update (\<lambda>ch. ch\<lparr>lifecycle := EofSent\<rparr>)))) (\<lambda>_.
           ret ([ChannelEof recipient_channel], [])))
       else if msg_type = MSG_CHANNEL_CLOSE then
         and_then (on_fst read_u32) (\<lambda>recipient_channel.
         and_then (on_snd (update (table_remove recipient_channel))) (\<lambda>_.
           ret ([ChannelClosed recipient_channel], [])))
       else if msg_type = MSG_CHANNEL_REQUEST then handle_channel_request
       else if msg_type = MSG_CHANNEL_SUCCESS \<or> msg_type = MSG_CHANNEL_FAILURE then
         and_then (on_fst read_u32) (\<lambda>recipient_channel.
         and_then (on_snd (channel_mut recipient_channel (ret ()))) (\<lambda>_.
           ret ([], [])))
       else fail_with (UnexpectedMessage (lit ''Connection'') msg_type))"

definition table_handle :: "byte \<Rightarrow> bytes \<Rightarrow> (channel_table, reaction) op" where
  "table_handle msg_type payload t =
     (case handle_message msg_type (reader_new payload, t) of (r, (_, t')) \<Rightarrow> (r, t'))"

lemmas channel_msg_defs =
  MSG_CHANNEL_OPEN_CONFIRMATION_def MSG_CHANNEL_OPEN_FAILURE_def MSG_CHANNEL_WINDOW_ADJUST_def
  MSG_CHANNEL_DATA_def MSG_CHANNEL_EXTENDED_DATA_def MSG_CHANNEL_EOF_def MSG_CHANNEL_CLOSE_def
  MSG_CHANNEL_REQUEST_def MSG_CHANNEL_SUCCESS_def MSG_CHANNEL_FAILURE_def

section \<open>Table operations that keep a property of the table\<close>

lemma keeps_channel_mut [intro]:
  assumes "\<And>t ch. I t \<Longrightarrow> ct_channels t cid = Some ch \<Longrightarrow>
      I (t\<lparr>ct_channels := (ct_channels t)(cid \<mapsto> snd (m ch))\<rparr>)"
  shows "keeps I (channel_mut cid m)"
  using assms by (auto simp: keeps_def channel_mut_def split: option.split prod.split) force

lemma keeps_channel_ref [intro]: "keeps I (channel_ref cid)"
  by (simp add: keeps_def channel_ref_def)

lemma channel_mut_ret [simp]: "snd (channel_mut cid (ret a) t) = t"
  by (simp add: channel_mut_def fun_upd_idem split: option.split)

text \<open>
  A property of the table that the four ways of changing an entry keep is kept by the whole
  handler, on every branch, also where it fails or panics.
\<close>

lemma keeps_handle_request: "keeps (\<lambda>st. I (snd st)) handle_channel_request"
proof -
  have r: "keeps I (channel_mut c (ret ()))" for c by (simp add: keeps_def)
  show ?thesis
    unfolding handle_channel_request_def
    by (intro keeps_and_then keeps_on_fst keeps_on_snd r keeps_if keeps_simple keeps_channel_ref)
qed

lemma keeps_handle_message:
  assumes confirm: "\<And>cid s w p. keeps I (channel_mut cid (update (on_open_confirmation s w p)))"
    and remove: "\<And>cid. keeps I (update (table_remove cid))"
    and adjust: "\<And>cid n. keeps I (channel_mut cid (update (on_window_adjust n)))"
    and data: "\<And>cid n. keeps I (channel_mut cid (on_data_consumed n))"
    and eof: "\<And>cid. keeps I (channel_mut cid (update (\<lambda>ch. ch\<lparr>lifecycle := EofSent\<rparr>)))"
  shows "keeps (\<lambda>st. I (snd st)) (handle_message msg_type)"
proof -
  have r: "keeps I (channel_mut c (ret ()))" for c by (simp add: keeps_def)
  show ?thesis
    unfolding handle_message_def
    by (intro keeps_and_then keeps_on_fst keeps_on_snd keeps_if keeps_simple keeps_handle_request
        confirm remove adjust data eof r)
qed

lemma keeps_table_handle:
  assumes "keeps (\<lambda>st. I (snd st)) (handle_message msg_type)" and "I t"
  shows "I (snd (table_handle msg_type payload t))"
  using keepsD [OF assms(1), of "(reader_new payload, t)"] assms(2)
  by (auto simp: table_handle_def split: prod.splits)

section \<open>The invariant of the table\<close>

text \<open>
  An entry carries its own identifier; an open channel has a positive packet limit (so that
  sending makes progress); and what the server may still send, plus what has been received and
  not yet announced back, never falls below the window announced first: consumed window is always
  given back.
\<close>

definition channel_ok :: "channel \<Rightarrow> bool" where
  "channel_ok ch \<longleftrightarrow>
     (remote_id ch \<noteq> None \<longrightarrow> 0 < remote_max_packet ch) \<and>
     local_window_unadvertised ch < WINDOW_ADJUST_THRESHOLD \<and>
     unat INITIAL_WINDOW_SIZE \<le> unat (local_window ch) + unat (local_window_unadvertised ch)"

definition table_ok :: "channel_table \<Rightarrow> bool" where
  "table_ok t \<longleftrightarrow>
     (\<forall>cid ch. ct_channels t cid = Some ch \<longrightarrow> local_id ch = cid \<and> channel_ok ch)"

lemma window_constants:
  "INITIAL_WINDOW_SIZE = 2097152" "WINDOW_ADJUST_THRESHOLD = 1048576"
  by (simp_all add: INITIAL_WINDOW_SIZE_def WINDOW_ADJUST_THRESHOLD_def)

lemma channel_new_ok [simp]: "channel_ok (channel_new cid k)"
  by (simp add: channel_ok_def channel_new_def window_constants)

lemma on_open_confirmation_ok: "channel_ok ch \<Longrightarrow> channel_ok (on_open_confirmation s w p ch)"
  by (auto simp: channel_ok_def on_open_confirmation_def word_less_nat_alt max_def
      word_le_nat_alt split: if_splits)

lemma on_window_adjust_ok: "channel_ok ch \<Longrightarrow> channel_ok (on_window_adjust n ch)"
  by (simp add: channel_ok_def on_window_adjust_def)

lemma on_data_consumed_ok: "channel_ok ch \<Longrightarrow> channel_ok (snd (on_data_consumed n ch))"
  by (auto simp: channel_ok_def on_data_consumed_def Let_def window_constants word_less_nat_alt
      unat_saturating_add unat_saturating_sub)

lemma local_id_simps [simp]:
  "local_id (on_open_confirmation s w p ch) = local_id ch"
  "local_id (on_window_adjust n ch) = local_id ch"
  "local_id (snd (on_data_consumed n ch)) = local_id ch"
  by (simp_all add: on_open_confirmation_def on_window_adjust_def on_data_consumed_def Let_def)

lemma table_handle_ok:
  assumes "table_ok t"
  shows "table_ok (snd (table_handle msg_type payload t))"
  using keeps_handle_message assms
proof (rule keeps_table_handle, goal_cases)
  case (1 cid s w p)
  then show ?case
    by (intro keeps_channel_mut) (auto simp: table_ok_def on_open_confirmation_ok)
next
  case (2 cid)
  then show ?case by (auto simp: keeps_def table_ok_def table_remove_def)
next
  case (3 cid n)
  then show ?case by (intro keeps_channel_mut) (auto simp: table_ok_def on_window_adjust_ok)
next
  case (4 cid n)
  then show ?case by (intro keeps_channel_mut) (auto simp: table_ok_def on_data_consumed_ok)
next
  case (5 cid)
  then show ?case by (intro keeps_channel_mut) (auto simp: table_ok_def channel_ok_def)
qed

lemma table_open_ok: "table_ok t \<Longrightarrow> table_ok (snd (table_open k t))"
  by (auto simp: table_ok_def table_open_def Let_def) (simp_all add: channel_new_def)

lemma table_new_ok [simp]: "table_ok table_new"
  by (simp add: table_ok_def table_new_def)

lemma table_remove_ok: "table_ok t \<Longrightarrow> table_ok (table_remove cid t)"
  by (auto simp: table_ok_def table_remove_def)

lemma on_data_consumed_Panic:
  "fst (on_data_consumed n ch) = Panic \<longleftrightarrow>
     remote_id ch = None \<and> WINDOW_ADJUST_THRESHOLD \<le> saturating_add (local_window_unadvertised ch) n"
  by (auto simp: on_data_consumed_def Let_def try_r_Panic remote_id_or_panic_def)

lemma on_data_consumed_not_Err [simp]: "fst (on_data_consumed n ch) \<noteq> Err e"
  by (auto simp: on_data_consumed_def Let_def try_r_Err remote_id_or_panic_def)

lemma on_data_consumed_total:
  "remote_id ch = Some rid \<Longrightarrow> \<exists>a. fst (on_data_consumed n ch) = Ok a"
  using on_data_consumed_Panic [of n ch] on_data_consumed_not_Err [of n ch]
  by (cases "fst (on_data_consumed n ch)") auto

section \<open>What each message does\<close>

text \<open>
  \<open>handles m xs t res t'\<close>: with \<open>xs\<close> unread and the table \<open>t\<close>, the handler ends in \<open>res\<close> and
  leaves \<open>t'\<close>. One rule per operator, so that a message's effect is read off its fields.
\<close>

definition handles ::
    "(reader \<times> channel_table, 'a) op \<Rightarrow> bytes \<Rightarrow> channel_table \<Rightarrow> 'a result \<Rightarrow> channel_table \<Rightarrow> bool" where
  "handles m xs t res t' \<longleftrightarrow>
     (\<forall>r. rpos r \<le> length (rbuf r) \<longrightarrow> remaining r = xs \<longrightarrow> (\<exists>r'. m (r, t) = (res, (r', t'))))"

lemma handles_read:
  "reads p xs v ys \<Longrightarrow> handles (f v) ys t res t' \<Longrightarrow> handles (and_then (on_fst p) f) xs t res t'"
  by (fastforce simp: handles_def reads_def and_then_def on_fst_def)

lemma handles_table:
  "m t = (Ok v, t1) \<Longrightarrow> handles (f v) xs t1 res t' \<Longrightarrow> handles (and_then (on_snd m) f) xs t res t'"
  by (simp add: handles_def and_then_def on_snd_def)

lemma handles_table_Err:
  "m t = (Err e, t1) \<Longrightarrow> handles (and_then (on_snd m) f) xs t (Err e) t1"
  by (simp add: handles_def and_then_def on_snd_def)

lemma handles_table_Panic:
  "m t = (Panic, t1) \<Longrightarrow> handles (and_then (on_snd m) f) xs t Panic t1"
  by (simp add: handles_def and_then_def on_snd_def)

lemma handles_ret: "handles (ret v) xs t (Ok v) t"
  by (simp add: handles_def)

lemma handles_new: "handles (handle_message ty) p t res t' \<Longrightarrow> table_handle ty p t = (res, t')"
proof -
  assume "handles (handle_message ty) p t res t'"
  moreover have "rpos (reader_new p) \<le> length (rbuf (reader_new p))" "remaining (reader_new p) = p"
    by (simp_all add: reader_new_def remaining_def)
  ultimately show ?thesis unfolding handles_def by (fastforce simp: table_handle_def)
qed

text \<open>The type byte is dispatched on by the literal values of the constants.\<close>

lemma handle_message_cases:
  "handle_message MSG_CHANNEL_OPEN_CONFIRMATION =
     and_then (on_fst read_u8) (\<lambda>_.
     and_then (on_fst read_u32) (\<lambda>cid.
     and_then (on_fst read_u32) (\<lambda>sender.
     and_then (on_fst read_u32) (\<lambda>window.
     and_then (on_fst read_u32) (\<lambda>max_packet.
     and_then (on_snd (channel_mut cid (update (on_open_confirmation sender window max_packet))))
       (\<lambda>_. ret ([ChannelOpened cid], [])))))))"
  "handle_message MSG_CHANNEL_DATA =
     and_then (on_fst read_u8) (\<lambda>_.
     and_then (on_fst read_u32) (\<lambda>cid.
     and_then (on_fst read_string) (\<lambda>data.
     and_then (on_snd (channel_mut cid (on_data_consumed (word_of_nat (length data))))) (\<lambda>adjust.
       ret (data_reaction cid Stdout data adjust)))))"
  "handle_message MSG_CHANNEL_WINDOW_ADJUST =
     and_then (on_fst read_u8) (\<lambda>_.
     and_then (on_fst read_u32) (\<lambda>cid.
     and_then (on_fst read_u32) (\<lambda>n.
     and_then (on_snd (channel_mut cid (update (on_window_adjust n)))) (\<lambda>_. ret ([], [])))))"
  "handle_message MSG_CHANNEL_CLOSE =
     and_then (on_fst read_u8) (\<lambda>_.
     and_then (on_fst read_u32) (\<lambda>cid.
     and_then (on_snd (update (table_remove cid))) (\<lambda>_. ret ([ChannelClosed cid], []))))"
  "handle_message MSG_CHANNEL_EOF =
     and_then (on_fst read_u8) (\<lambda>_.
     and_then (on_fst read_u32) (\<lambda>cid.
     and_then (on_snd (channel_mut cid (update (\<lambda>ch. ch\<lparr>lifecycle := EofSent\<rparr>)))) (\<lambda>_.
       ret ([ChannelEof cid], []))))"
  "handle_message MSG_CHANNEL_REQUEST = and_then (on_fst read_u8) (\<lambda>_. handle_channel_request)"
  by (simp_all add: handle_message_def channel_msg_defs)

lemma confirmation_effect:
  assumes "ct_channels t cid = Some ch"
  shows "table_handle MSG_CHANNEL_OPEN_CONFIRMATION
      (MSG_CHANNEL_OPEN_CONFIRMATION # write_u32 cid @ write_u32 s @ write_u32 w @ write_u32 p @ rest) t =
    (Ok ([ChannelOpened cid], []),
     t\<lparr>ct_channels := (ct_channels t)(cid \<mapsto> on_open_confirmation s w p ch)\<rparr>)"
  unfolding handle_message_cases
  by (rule handles_new, unfold handle_message_cases)
    (rule handles_read reads_u8 reads_u32 handles_table handles_ret
      | simp add: channel_mut_def assms)+

lemma data_effect:
  assumes "ct_channels t cid = Some ch" and "remote_id ch = Some rid" and "fits_u32 data"
  shows "\<exists>adjust ch'. on_data_consumed (word_of_nat (length data)) ch = (Ok adjust, ch') \<and>
    table_handle MSG_CHANNEL_DATA (MSG_CHANNEL_DATA # write_u32 cid @ write_string data @ rest) t =
    (Ok (data_reaction cid Stdout data adjust),
     t\<lparr>ct_channels := (ct_channels t)(cid \<mapsto> ch')\<rparr>)"
proof -
  obtain adjust ch' where d: "on_data_consumed (word_of_nat (length data)) ch = (Ok adjust, ch')"
    using on_data_consumed_total [OF assms(2)] by (metis prod.collapse)
  then have m: "channel_mut cid (on_data_consumed (word_of_nat (length data))) t =
      (Ok adjust, t\<lparr>ct_channels := (ct_channels t)(cid \<mapsto> ch')\<rparr>)"
    by (simp add: channel_mut_def assms(1))
  have "table_handle MSG_CHANNEL_DATA (MSG_CHANNEL_DATA # write_u32 cid @ write_string data @ rest) t =
    (Ok (data_reaction cid Stdout data adjust), t\<lparr>ct_channels := (ct_channels t)(cid \<mapsto> ch')\<rparr>)"
    by (rule handles_new, unfold handle_message_cases)
      (rule handles_read reads_u8 reads_u32 reads_string assms(3) handles_table m handles_ret)+
  with d show ?thesis by blast
qed

lemma adjust_effect:
  assumes "ct_channels t cid = Some ch"
  shows "table_handle MSG_CHANNEL_WINDOW_ADJUST
      (MSG_CHANNEL_WINDOW_ADJUST # write_u32 cid @ write_u32 n @ rest) t =
    (Ok ([], []), t\<lparr>ct_channels := (ct_channels t)(cid \<mapsto> on_window_adjust n ch)\<rparr>)"
  by (rule handles_new, unfold handle_message_cases)
    (rule handles_read reads_u8 reads_u32 handles_table handles_ret
      | simp add: channel_mut_def assms)+

section \<open>A message only touches the channel it names\<close>

definition recipient_of :: "bytes \<Rightarrow> u32" where
  "recipient_of payload = be_to_u32 (take 4 (drop 1 payload))"

definition leaves :: "u32 \<Rightarrow> channel option \<Rightarrow> channel_table \<Rightarrow> bool" where
  "leaves c v t \<longleftrightarrow> ct_channels t c = v"

lemma leaves_keeps:
  "cid \<noteq> c \<Longrightarrow> keeps (leaves c v) (channel_mut cid m)"
  "cid \<noteq> c \<Longrightarrow> keeps (leaves c v) (update (table_remove cid))"
  by (auto simp: keeps_def channel_mut_def leaves_def table_remove_def split: option.split prod.split)

definition isolates :: "u32 \<Rightarrow> bytes \<Rightarrow> (reader \<times> channel_table, 'a) op \<Rightarrow> bool" where
  "isolates c xs m \<longleftrightarrow>
     (\<forall>r t. remaining r = xs \<longrightarrow> ct_channels (snd (snd (m (r, t)))) c = ct_channels t c)"

lemma isolates_keeps: "(\<And>v. keeps (\<lambda>st. leaves c v (snd st)) m) \<Longrightarrow> isolates c xs m"
  by (fastforce simp: isolates_def keeps_def leaves_def)

lemma isolates_if: "isolates c xs m \<Longrightarrow> isolates c xs n \<Longrightarrow> isolates c xs (if b then m else n)"
  by simp

lemma isolates_u8:
  assumes "\<And>b. isolates c (drop 1 xs) (f b)"
  shows "isolates c xs (and_then (on_fst read_u8) f)"
  using assms
  by (auto simp: isolates_def and_then_def on_fst_def read_u8_def remaining_def add.commute)

lemma isolates_u32:
  assumes "isolates c (drop 4 xs) (f (be_to_u32 (take 4 xs)))"
  shows "isolates c xs (and_then (on_fst read_u32) f)"
  using assms
  by (auto simp: isolates_def and_then_def on_fst_def read_u32_def remaining_def Let_def add.commute)

lemma isolates_handle_message:
  assumes "recipient_of p \<noteq> c"
  shows "isolates c p (handle_message ty)"
proof -
  have ne: "be_to_u32 (take 4 (drop 1 p)) \<noteq> c" using assms by (simp add: recipient_of_def)
  note kept = keeps_and_then keeps_on_fst keeps_on_snd keeps_if keeps_simple keeps_channel_ref
    leaves_keeps [OF ne]
  show ?thesis
    unfolding handle_message_def handle_channel_request_def
    by (intro isolates_u8 isolates_if; (rule isolates_u32)?; intro isolates_keeps kept)
qed

lemma table_handle_isolated:
  assumes "recipient_of p \<noteq> c"
  shows "ct_channels (snd (table_handle ty p t)) c = ct_channels t c"
proof -
  have "remaining (reader_new p) = p" by (simp add: remaining_def reader_new_def)
  then have "ct_channels (snd (snd (handle_message ty (reader_new p, t)))) c = ct_channels t c"
    using isolates_handle_message [OF assms, of ty] unfolding isolates_def by blast
  then show ?thesis
    by (simp add: table_handle_def case_prod_beta)
qed

section \<open>Panics\<close>

text \<open>
  The handler can only panic on a channel that has not been confirmed: sent more data than the
  adjustment threshold, or an unsupported request that asks for a reply.
\<close>

definition confirmed :: "u32 \<Rightarrow> channel_table \<Rightarrow> bool" where
  "confirmed c t \<longleftrightarrow> (\<forall>ch. ct_channels t c = Some ch \<longrightarrow> remote_id ch \<noteq> None)"

lemma hoare_on_fst:
  "no_panic m \<Longrightarrow> hoare (\<lambda>st. J (snd st)) (on_fst m) (\<lambda>_ st. J (snd st)) (\<lambda>st. J (snd st))"
  by (simp add: triple_def on_fst_def no_panic_def split: prod.split result.split) (metis fst_conv)

lemma hoare_on_snd:
  "hoare J m Q R \<Longrightarrow> hoare (\<lambda>st. J (snd st)) (on_snd m) (\<lambda>a st. Q a (snd st)) (\<lambda>st. R (snd st))"
  by (fastforce simp: triple_def on_snd_def split: prod.splits result.splits)

lemma confirmed_table_ops:
  "hoare (confirmed c) (channel_mut c (update (on_open_confirmation s w p)))
     (\<lambda>_. confirmed c) (confirmed c)"
  "hoare (confirmed c) (channel_mut c (update (on_window_adjust n))) (\<lambda>_. confirmed c) (confirmed c)"
  "hoare (confirmed c) (channel_mut c (update (\<lambda>ch. ch\<lparr>lifecycle := EofSent\<rparr>)))
     (\<lambda>_. confirmed c) (confirmed c)"
  "hoare (confirmed c) (channel_mut c (ret ())) (\<lambda>_. confirmed c) (confirmed c)"
  "hoare (confirmed c) (update (table_remove c)) (\<lambda>_. confirmed c) (confirmed c)"
  by (auto simp: triple_def channel_mut_def confirmed_def on_open_confirmation_def
      on_window_adjust_def table_remove_def split: option.split)

lemma confirmed_data:
  "hoare (confirmed c) (channel_mut c (on_data_consumed n)) (\<lambda>_. confirmed c) (confirmed c)"
  unfolding triple_def
proof (intro allI impI)
  fix t
  assume t: "confirmed c t"
  have r: "remote_id (snd (on_data_consumed n ch)) = remote_id ch" for ch
    by (simp add: on_data_consumed_def Let_def)
  show "case channel_mut c (on_data_consumed n) t of (Ok a, s') \<Rightarrow> confirmed c s'
      | (Err e, s') \<Rightarrow> confirmed c s' | (Panic, s') \<Rightarrow> False"
  proof (cases "ct_channels t c")
    case None
    with t show ?thesis by (simp add: channel_mut_def)
  next
    case (Some ch)
    with t obtain rid where rid: "remote_id ch = Some rid" by (auto simp: confirmed_def)
    obtain a ch' where d: "on_data_consumed n ch = (Ok a, ch')"
      using on_data_consumed_total [OF rid] by (metis prod.collapse)
    with r [of ch] rid have "remote_id ch' = Some rid" by simp
    with Some d show ?thesis by (simp add: channel_mut_def confirmed_def)
  qed
qed

lemma confirmed_ref:
  assumes "\<And>ch. remote_id ch \<noteq> None \<Longrightarrow> hoare (\<lambda>st. confirmed c (snd st)) (f ch) Q R"
    and "\<And>st. confirmed c (snd st) \<Longrightarrow> R st"
  shows "hoare (\<lambda>st. confirmed c (snd st)) (and_then (on_snd (channel_ref c)) f) Q R"
  unfolding triple_def
proof (intro allI impI)
  fix st :: "'a \<times> channel_table"
  assume c: "confirmed c (snd st)"
  show "case and_then (on_snd (channel_ref c)) f st of (Ok a, s') \<Rightarrow> Q a s'
      | (Err e, s') \<Rightarrow> R s' | (Panic, s') \<Rightarrow> False"
  proof (cases "ct_channels (snd st) c")
    case None
    then show ?thesis using assms(2) [OF c] by (simp add: and_then_def on_snd_def channel_ref_def)
  next
    case (Some ch)
    with c have "remote_id ch \<noteq> None" by (simp add: confirmed_def)
    from assms(1) [OF this] c Some show ?thesis
      by (cases st) (simp add: triple_def and_then_def on_snd_def channel_ref_def)
  qed
qed

text \<open>Once the recipient has been read, the rest is about that channel only.\<close>

definition safe_at :: "u32 \<Rightarrow> bytes \<Rightarrow> (reader \<times> channel_table, 'a) op \<Rightarrow> bool" where
  "safe_at c xs m \<longleftrightarrow>
     (\<forall>r t. remaining r = xs \<longrightarrow> confirmed c t \<longrightarrow> fst (m (r, t)) \<noteq> Panic)"

lemma safe_at_hoare: "hoare (\<lambda>st. confirmed c (snd st)) m Q R \<Longrightarrow> safe_at c xs m"
  unfolding safe_at_def
proof (intro allI impI)
  fix r t
  assume h: "hoare (\<lambda>st. confirmed c (snd st)) m Q R" and "confirmed c t"
  then show "fst (m (r, t)) \<noteq> Panic" using hoare_no_panic [OF h, of "(r, t)"] by simp
qed

lemma safe_at_if: "safe_at c xs m \<Longrightarrow> safe_at c xs n \<Longrightarrow> safe_at c xs (if b then m else n)"
  by simp

lemma safe_at_u8:
  assumes "\<And>b. safe_at c (drop 1 xs) (f b)"
  shows "safe_at c xs (and_then (on_fst read_u8) f)"
  using assms
  by (auto simp: safe_at_def and_then_def on_fst_def read_u8_def remaining_def add.commute)

lemma safe_at_u32:
  assumes "safe_at c (drop 4 xs) (f (be_to_u32 (take 4 xs)))"
  shows "safe_at c xs (and_then (on_fst read_u32) f)"
  using assms
  by (auto simp: safe_at_def and_then_def on_fst_def read_u32_def remaining_def Let_def add.commute)

lemma safe_at_fail: "safe_at c xs (fail_with e)"
  by (simp add: safe_at_def)

lemma safe_at_handle_message: "safe_at (recipient_of p) p (handle_message ty)"
proof -
  let ?c = "be_to_u32 (take 4 (drop 1 p))"
  note tab = confirmed_table_ops [THEN hoare_on_snd] confirmed_data [THEN hoare_on_snd]
  note seq = tab [THEN triple_and_then] hoare_on_fst [THEN triple_and_then]
  have ex: "hoare (\<lambda>st. confirmed ?c (snd st)) (lift_r (expect (remote_id ch)))
      (\<lambda>_ st. confirmed ?c (snd st)) (\<lambda>st. confirmed ?c (snd st))" if "remote_id ch \<noteq> None" for ch
    using that by (auto simp: triple_def)
  note hoare = safe_at_hoare [where Q = "\<lambda>_ st. confirmed ?c (snd st)"
      and R = "\<lambda>st. confirmed ?c (snd st)"]
  show ?thesis
    unfolding handle_message_def handle_channel_request_def recipient_of_def
    by (intro safe_at_u8 safe_at_if safe_at_fail; (rule safe_at_u32)?; rule hoare;
        intro seq confirmed_ref ex [THEN triple_and_then] triple_if triple_ret
        no_panic_reads no_panic_read_string no_panic_read_utf8_string no_panic_read_bool
        no_panic_or_empty; assumption?)
qed

lemma table_handle_no_panic:
  "confirmed (recipient_of p) t \<Longrightarrow> fst (table_handle ty p t) \<noteq> Panic"
proof -
  assume "confirmed (recipient_of p) t"
  moreover have "remaining (reader_new p) = p" by (simp add: remaining_def reader_new_def)
  ultimately have "fst (handle_message ty (reader_new p, t)) \<noteq> Panic"
    using safe_at_handle_message unfolding safe_at_def by blast
  then show ?thesis by (simp add: table_handle_def case_prod_beta)
qed

end
