(* ===== verification/Rng.thy ===== *)
theory Rng
  imports Errors
begin

text \<open>
  \<open>ssh-core/src/rng.rs\<close> and the deterministic \<open>TestRng\<close> of \<open>ssh-core-testkit/src/lib.rs\<close>.

  An implementation of the trait \<open>SecureRandom\<close> is a function that fills a buffer of a given
  length and returns the generator's next state. Every caller passes a zeroed buffer, and the
  buffer has a fixed length, so only the length is an argument.
\<close>

unbundle bit_operations_syntax

section \<open>The trait\<close>

locale secure_random =
  fixes fill :: "nat \<Rightarrow> 'r \<Rightarrow> bytes \<times> 'r"
  assumes length_fill: "length (fst (fill n r)) = n"
begin

lemma fill_zero: "fst (fill 0 r) = []"
  using length_fill [of 0 r] by simp

lemma fillE:
  obtains bs r' where "fill n r = (bs, r')" and "length bs = n"
  using length_fill [of n r] by (metis fst_conv surj_pair)

end

section \<open>The adapter to \<open>rand_core\<close>\<close>

definition le_val :: "bytes \<Rightarrow> nat" where
  "le_val bs = be_val (rev bs)"

definition try_next_u32 :: "(nat \<Rightarrow> 'r \<Rightarrow> bytes \<times> 'r) \<Rightarrow> 'r \<Rightarrow> u32 \<times> 'r" where
  "try_next_u32 fill r = (let (buf, r') = fill 4 r in (word_of_nat (le_val buf), r'))"

definition try_next_u64 :: "(nat \<Rightarrow> 'r \<Rightarrow> bytes \<times> 'r) \<Rightarrow> 'r \<Rightarrow> u64 \<times> 'r" where
  "try_next_u64 fill r = (let (buf, r') = fill 8 r in (word_of_nat (le_val buf), r'))"

definition try_fill_bytes :: "(nat \<Rightarrow> 'r \<Rightarrow> bytes \<times> 'r) \<Rightarrow> nat \<Rightarrow> 'r \<Rightarrow> bytes \<times> 'r" where
  "try_fill_bytes fill n r = fill n r"

section \<open>The deterministic generator of the test kit\<close>

text \<open>The mixing function of splitmix64, on wrapping 64-bit words.\<close>

definition test_rng_mix :: "u64 \<Rightarrow> u64" where
  "test_rng_mix s =
     (let z1 = (s XOR drop_bit 30 s) * 0xBF58476D1CE4E5B9;
          z2 = (z1 XOR drop_bit 27 z1) * 0x94D049BB133111EB
      in z2 XOR drop_bit 31 z2)"

text \<open>\<open>fill\<close> works on chunks of eight bytes; the last chunk takes a prefix of the eight.\<close>

fun test_rng_fill :: "nat \<Rightarrow> u64 \<Rightarrow> bytes \<times> u64" where
  "test_rng_fill n s =
     (if n = 0 then ([], s)
      else let s' = s + 0x9E3779B97F4A7C15;
               chunk = take (min 8 n) (u64_to_le (test_rng_mix s'));
               (rest, s'') = test_rng_fill (n - 8) s'
           in (chunk @ rest, s''))"

declare test_rng_fill.simps [simp del]

lemma length_test_rng_fill: "length (fst (test_rng_fill n s)) = n"
proof (induction n s rule: test_rng_fill.induct)
  case (1 n s)
  then show ?case
    by (auto simp: test_rng_fill.simps [of n s] Let_def split_beta)
qed

interpretation test_rng: secure_random test_rng_fill
  by unfold_locales (rule length_test_rng_fill)

text \<open>
  The state advances by one constant per chunk, whatever was drawn, so the generator after a
  fill depends only on the number of chunks.
\<close>

lemma test_rng_state:
  "snd (test_rng_fill n s) = s + of_nat ((n + 7) div 8) * 0x9E3779B97F4A7C15"
proof (induction n s rule: test_rng_fill.induct)
  case (1 n s)
  show ?case
  proof (cases "n = 0")
    case True
    then show ?thesis by (simp add: test_rng_fill.simps)
  next
    case False
    then have "(n + 7) div 8 = Suc ((n - 8 + 7) div 8)" by (cases "n \<le> 8") auto
    with False 1 show ?thesis
      by (simp add: test_rng_fill.simps [of n s] Let_def split_beta algebra_simps)
  qed
qed

end
