(* ===== verification/Crates.thy ===== *)
theory Crates
  imports Rng
begin

text \<open>
  The third-party crates the client calls, and the host's random number generator. None of this
  code is in the repository: it is one record of functions, an argument of every definition that
  uses it. Opaque library values (a public key, a signature, a private key, an X25519 secret) are
  byte strings; a big integer of \<open>crypto-bigint\<close> is a natural number. What a property relies on
  is one of the predicates below, each stating documented behaviour of one crate.
\<close>

datatype key_algorithm = Ed25519 | Rsa | OtherAlgorithm

record 'r crates =
  \<comment> \<open>the host's \<open>SecureRandom\<close>: byte \<open>i\<close> of a buffer of length \<open>n\<close>, and the next state\<close>
  rng_fill :: "nat \<Rightarrow> 'r \<Rightarrow> (nat \<Rightarrow> byte) \<times> 'r"
  \<comment> \<open>sha2 (byte \<open>i\<close> of the 32-byte digest), base64ct\<close>
  sha256 :: "bytes \<Rightarrow> nat \<Rightarrow> byte"
  base64_unpadded :: "bytes \<Rightarrow> str"
  \<comment> \<open>ssh-cipher: \<open>ChaCha20::apply_keystream\<close> and \<open>ChaCha20Poly1305\<close> (key, nonce, ...)\<close>
  chacha_xor :: "bytes \<Rightarrow> bytes \<Rightarrow> bytes \<Rightarrow> bytes"
  chachapoly_seal :: "bytes \<Rightarrow> bytes \<Rightarrow> bytes \<Rightarrow> bytes \<Rightarrow> (bytes \<times> bytes) option"
  chachapoly_open :: "bytes \<Rightarrow> bytes \<Rightarrow> bytes \<Rightarrow> bytes \<Rightarrow> bytes \<Rightarrow> bytes option"
  \<comment> \<open>aes-gcm\<close>
  aesgcm_seal :: "bytes \<Rightarrow> bytes \<Rightarrow> bytes \<Rightarrow> bytes \<Rightarrow> (bytes \<times> bytes) option"
  aesgcm_open :: "bytes \<Rightarrow> bytes \<Rightarrow> bytes \<Rightarrow> bytes \<Rightarrow> bytes \<Rightarrow> bytes option"
  \<comment> \<open>x25519-dalek\<close>
  x25519_random :: "'r \<Rightarrow> bytes \<times> 'r"
  x25519_public :: "bytes \<Rightarrow> bytes"
  x25519_dh :: "bytes \<Rightarrow> bytes \<Rightarrow> bytes"
  x25519_contributory :: "bytes \<Rightarrow> bool"
  \<comment> \<open>crypto-bigint: random bits, \<open>from_be_slice\<close> at a precision, Montgomery power, \<open>to_be_bytes\<close>\<close>
  biguint_random :: "nat \<Rightarrow> 'r \<Rightarrow> nat \<times> 'r"
  biguint_from_be :: "bytes \<Rightarrow> nat \<Rightarrow> nat option"
  biguint_pow_mod :: "nat \<Rightarrow> nat \<Rightarrow> nat \<Rightarrow> nat"
  biguint_to_be :: "nat \<Rightarrow> nat \<Rightarrow> bytes"
  \<comment> \<open>ssh-encoding 0.3: \<open>Mpint::from_positive_bytes\<close> with \<open>encode\<close>; encoders; decoders\<close>
  mpint_encode :: "bytes \<Rightarrow> bytes option"
  encode_str :: "str \<Rightarrow> bytes option"
  encode_bool :: "bool \<Rightarrow> bytes option"
  decode_u8 :: "bytes \<Rightarrow> str + byte \<times> bytes"
  decode_read :: "nat \<Rightarrow> bytes \<Rightarrow> str + bytes \<times> bytes"
  decode_str :: "bytes \<Rightarrow> str + str \<times> bytes"
  decode_bool :: "bytes \<Rightarrow> str + bool \<times> bytes"
  \<comment> \<open>ssh-key, signature\<close>
  pubkey_from_bytes :: "bytes \<Rightarrow> str + bytes"
  pubkey_to_bytes :: "bytes \<Rightarrow> str + bytes"
  pubkey_algorithm :: "bytes \<Rightarrow> str"
  signature_from_bytes :: "bytes \<Rightarrow> str + bytes"
  signature_to_bytes :: "bytes \<Rightarrow> str + bytes"
  verify_sig :: "bytes \<Rightarrow> bytes \<Rightarrow> bytes \<Rightarrow> bool"
  privkey_algorithm :: "bytes \<Rightarrow> key_algorithm"
  privkey_public :: "bytes \<Rightarrow> bytes"
  privkey_try_sign :: "bytes \<Rightarrow> bytes \<Rightarrow> bytes option"
  \<comment> \<open>the RSA components \<open>n, e, d, p, q\<close> of a private key, when it is an RSA key; rsa\<close>
  privkey_rsa :: "bytes \<Rightarrow> (bytes \<times> bytes \<times> bytes \<times> bytes \<times> bytes) option"
  rsa_biguint :: "bytes \<Rightarrow> nat option"
  rsa_from_components :: "nat \<Rightarrow> nat \<Rightarrow> nat \<Rightarrow> nat list \<Rightarrow> bytes option"
  rsa_sign_sha512 :: "bytes \<Rightarrow> bytes \<Rightarrow> bytes option"
  signature_new_rsa512 :: "bytes \<Rightarrow> bytes option"

section \<open>The generator as a \<open>fill\<close> function\<close>

definition fill_buf :: "'r crates \<Rightarrow> nat \<Rightarrow> 'r \<Rightarrow> bytes \<times> 'r" where
  "fill_buf E n r = (let (f, r') = rng_fill E n r in (map f [0..<n], r'))"

lemma length_fill_buf [simp]: "length (fst (fill_buf E n r)) = n"
  by (simp add: fill_buf_def split: prod.split)

interpretation host_rng: secure_random "fill_buf E" for E :: "'r crates"
  by unfold_locales simp

section \<open>The digest\<close>

definition sha256_digest :: "'r crates \<Rightarrow> bytes \<Rightarrow> bytes" where
  "sha256_digest E m = map (sha256 E m) [0..<32]"

lemma length_sha256_digest [simp]: "length (sha256_digest E m) = 32"
  by (simp add: sha256_digest_def)

section \<open>Documented behaviour of the crates\<close>

text \<open>
  \<open>apply_keystream\<close> xors a keystream that depends on key and nonce only: applied twice it gives
  the buffer back, and it never changes the length.
\<close>

definition stream_cipher_ok :: "'r crates \<Rightarrow> bool" where
  "stream_cipher_ok E \<longleftrightarrow>
     (\<forall>k n buf. length (chacha_xor E k n buf) = length buf \<and>
        chacha_xor E k n (chacha_xor E k n buf) = buf)"

text \<open>
  A detached AEAD encrypts a buffer in place (so it keeps the length), with a tag of 16 bytes,
  and decrypts its own output under the same key, nonce and associated data. Both crates document
  that encryption only fails for buffers far beyond 32-bit lengths.
\<close>

definition aead_ok ::
    "(bytes \<Rightarrow> bytes \<Rightarrow> bytes \<Rightarrow> bytes \<Rightarrow> (bytes \<times> bytes) option) \<Rightarrow>
     (bytes \<Rightarrow> bytes \<Rightarrow> bytes \<Rightarrow> bytes \<Rightarrow> bytes \<Rightarrow> bytes option) \<Rightarrow> bool" where
  "aead_ok sl op \<longleftrightarrow>
     (\<forall>k n a m. length m < 4294967296 \<longrightarrow>
        (\<exists>c t. sl k n a m = Some (c, t) \<and> length c = length m \<and> length t = 16 \<and>
               op k n a c t = Some m))"

definition ciphers_ok :: "'r crates \<Rightarrow> bool" where
  "ciphers_ok E \<longleftrightarrow>
     stream_cipher_ok E \<and>
     aead_ok (chachapoly_seal E) (chachapoly_open E) \<and>
     aead_ok (aesgcm_seal E) (aesgcm_open E)"

lemma aead_okE:
  assumes "aead_ok sl op" and "length m < 4294967296"
  obtains c t where "sl k n a m = Some (c, t)" and "length c = length m" and "length t = 16"
    and "op k n a c t = Some m"
  using assms unfolding aead_ok_def by blast

text \<open>
  ssh-encoding writes a \<open>str\<close> as its length (32 bits, big endian) and its bytes, a \<open>bool\<close> as one
  byte, and its decoders undo that; its lengths are limited to \<open>0xFFFFF\<close>.
\<close>

definition encoding_ok :: "'r crates \<Rightarrow> bool" where
  "encoding_ok E \<longleftrightarrow>
     (\<forall>b rest. decode_u8 E (b # rest) = Inr (b, rest)) \<and>
     (\<forall>d rest. decode_read E (length d) (d @ rest) = Inr (d, rest)) \<and>
     (\<forall>s. utf8_valid s \<and> length s \<le> 0xFFFFF \<longrightarrow>
        (\<exists>e. encode_str E s = Some e \<and> (\<forall>rest. decode_str E (e @ rest) = Inr (s, rest)))) \<and>
     (\<forall>b. \<exists>e. encode_bool E b = Some e \<and> (\<forall>rest. decode_bool E (e @ rest) = Inr (b, rest)))"

end
