(* ===== verification/Host_Key.thy ===== *)
theory Host_Key
  imports Crates
begin

text \<open>
  \<open>ssh-core/src/transport/hostkey.rs\<close>: the server's host key, its fingerprint, and the check of a
  signature under it.
\<close>

record host_key =
  hk_public :: bytes
  hk_blob :: bytes

definition key_result :: "str + 'a \<Rightarrow> 'a result" where
  "key_result x = (case x of Inl e \<Rightarrow> Err (Key e) | Inr a \<Rightarrow> Ok a)"

lemma key_result_Ok [simp]: "key_result x = Ok a \<longleftrightarrow> x = Inr a"
  by (cases x) (auto simp: key_result_def)

lemma key_result_no_panic [simp]: "key_result x \<noteq> Panic"
  by (cases x) (auto simp: key_result_def)

definition hostkey_parse :: "'r crates \<Rightarrow> bytes \<Rightarrow> host_key result" where
  "hostkey_parse E blob =
     try_r (key_result (pubkey_from_bytes E blob)) (\<lambda>pk. Ok \<lparr>hk_public = pk, hk_blob = blob\<rparr>)"

definition algorithm_name :: "'r crates \<Rightarrow> host_key \<Rightarrow> str" where
  "algorithm_name E k = pubkey_algorithm E (hk_public k)"

definition fingerprint_sha256 :: "'r crates \<Rightarrow> host_key \<Rightarrow> str" where
  "fingerprint_sha256 E k =
     lit ''SHA256:'' @ base64_unpadded E (sha256_digest E (hk_blob k))"

definition verify_signature :: "'r crates \<Rightarrow> host_key \<Rightarrow> bytes \<Rightarrow> bytes \<Rightarrow> unit result" where
  "verify_signature E k message signature_blob =
     try_r (key_result (signature_from_bytes E signature_blob)) (\<lambda>sig.
       if verify_sig E (hk_public k) message sig then Ok () else Err HostKeySignatureInvalid)"

text \<open>What an accepted signature means: the crate's verification said yes.\<close>

definition sig_valid :: "'r crates \<Rightarrow> bytes \<Rightarrow> bytes \<Rightarrow> bytes \<Rightarrow> bool" where
  "sig_valid E blob message signature_blob \<longleftrightarrow>
     (\<exists>pk sig. pubkey_from_bytes E blob = Inr pk \<and> signature_from_bytes E signature_blob = Inr sig \<and>
        verify_sig E pk message sig)"

definition verify_reply :: "'r crates \<Rightarrow> bytes \<Rightarrow> bytes \<Rightarrow> bytes \<Rightarrow> host_key result" where
  "verify_reply E host_key_blob signature_blob h =
     try_r (hostkey_parse E host_key_blob) (\<lambda>k.
     try_r (verify_signature E k h signature_blob) (\<lambda>_. Ok k))"

lemma verify_reply_Ok:
  "verify_reply E blob sig h = Ok k \<Longrightarrow> hk_blob k = blob \<and> sig_valid E blob h sig"
  by (auto simp: verify_reply_def hostkey_parse_def verify_signature_def sig_valid_def
      split: if_splits)

lemma verify_reply_parsed: "verify_reply E blob sig h = Ok k \<Longrightarrow> hostkey_parse E blob = Ok k"
  by (auto simp: verify_reply_def)

lemma verify_reply_complete:
  "sig_valid E blob h sig \<Longrightarrow> \<exists>k. verify_reply E blob sig h = Ok k"
  by (auto simp: verify_reply_def hostkey_parse_def verify_signature_def sig_valid_def
      key_result_def)

lemma verify_reply_no_panic [simp]: "verify_reply E blob sig h \<noteq> Panic"
  by (auto simp: verify_reply_def hostkey_parse_def verify_signature_def try_r_Panic)

end
