(* ===== verification/Auth.thy ===== *)
theory Auth
  imports Wire Host_Key
begin

text \<open>
  \<open>ssh-core/src/auth/mod.rs\<close>, \<open>password.rs\<close> and \<open>publickey.rs\<close>: the messages of the service
  request and of user authentication. The module has no state; the sequencing is the session's.
\<close>

definition MSG_SERVICE_REQUEST :: byte where "MSG_SERVICE_REQUEST = 5"
definition MSG_SERVICE_ACCEPT :: byte where "MSG_SERVICE_ACCEPT = 6"
definition MSG_USERAUTH_REQUEST :: byte where "MSG_USERAUTH_REQUEST = 50"
definition MSG_USERAUTH_FAILURE :: byte where "MSG_USERAUTH_FAILURE = 51"
definition MSG_USERAUTH_SUCCESS :: byte where "MSG_USERAUTH_SUCCESS = 52"
definition MSG_USERAUTH_BANNER :: byte where "MSG_USERAUTH_BANNER = 53"
definition MSG_USERAUTH_PK_OK :: byte where "MSG_USERAUTH_PK_OK = 60"

definition SERVICE_USERAUTH :: str where "SERVICE_USERAUTH = lit ''ssh-userauth''"
definition SERVICE_CONNECTION :: str where "SERVICE_CONNECTION = lit ''ssh-connection''"

definition build_service_request :: "str \<Rightarrow> bytes" where
  "build_service_request service_name = MSG_SERVICE_REQUEST # write_string service_name"

definition expect_msg_type :: "byte \<Rightarrow> str \<Rightarrow> (reader, unit) op" where
  "expect_msg_type expected state_name =
     and_then read_u8 (\<lambda>msg_type.
       if msg_type \<noteq> expected then fail_with (UnexpectedMessage state_name msg_type) else ret ())"

definition parse_service_accept :: "bytes \<Rightarrow> str result" where
  "parse_service_accept = parse_with
     (and_then (expect_msg_type MSG_SERVICE_ACCEPT (lit ''ServiceAccept'')) (\<lambda>_.
        read_utf8_string))"

record auth_failure =
  af_remaining_methods :: "str list"
  af_partial_success :: bool

definition parse_userauth_failure :: "bytes \<Rightarrow> auth_failure result" where
  "parse_userauth_failure = parse_with
     (and_then (expect_msg_type MSG_USERAUTH_FAILURE (lit ''UserAuthFailure'')) (\<lambda>_.
      and_then read_utf8_string (\<lambda>joined.
      and_then read_bool (\<lambda>partial_success.
        ret \<lparr>af_remaining_methods = (if joined = [] then [] else split_on 44 joined),
             af_partial_success = partial_success\<rparr>))))"

definition is_userauth_success :: "bytes \<Rightarrow> bool" where
  "is_userauth_success payload =
     (case payload of [] \<Rightarrow> False | b # _ \<Rightarrow> b = MSG_USERAUTH_SUCCESS)"

definition write_request_prefix :: "str \<Rightarrow> str \<Rightarrow> str \<Rightarrow> bytes" where
  "write_request_prefix username service_name method_name =
     MSG_USERAUTH_REQUEST # write_string username @ write_string service_name @
     write_string method_name"

section \<open>Password\<close>

definition password_build_request :: "str \<Rightarrow> str \<Rightarrow> bytes" where
  "password_build_request username password =
     write_request_prefix username SERVICE_CONNECTION (lit ''password'') @
     write_bool False @ write_string password"

section \<open>Public key\<close>

definition client_auth_algorithm_name :: "'r crates \<Rightarrow> bytes \<Rightarrow> str result" where
  "client_auth_algorithm_name E key =
     (case privkey_algorithm E key of
        Ed25519 \<Rightarrow> Ok (lit ''ssh-ed25519'')
      | Rsa \<Rightarrow> Ok (lit ''rsa-sha2-512'')
      | OtherAlgorithm \<Rightarrow> Err (UnsupportedAuthMethod (lit ''publickey algorithm'')))"

record public_key_auth =
  pka_username :: str
  pka_algorithm_name :: str
  pka_public_key_blob :: bytes

definition public_key_auth_new :: "'r crates \<Rightarrow> str \<Rightarrow> bytes \<Rightarrow> public_key_auth result" where
  "public_key_auth_new E username key =
     try_r (client_auth_algorithm_name E key) (\<lambda>name.
     try_r (key_result (pubkey_to_bytes E (privkey_public E key))) (\<lambda>blob.
       Ok \<lparr>pka_username = username, pka_algorithm_name = name, pka_public_key_blob = blob\<rparr>))"

definition build_query :: "public_key_auth \<Rightarrow> bytes" where
  "build_query a =
     write_request_prefix (pka_username a) SERVICE_CONNECTION (lit ''publickey'') @
     write_bool False @ write_string (pka_algorithm_name a) @ write_string (pka_public_key_blob a)"

definition request_body_through_key_blob :: "public_key_auth \<Rightarrow> bool \<Rightarrow> bytes" where
  "request_body_through_key_blob a has_signature =
     write_request_prefix (pka_username a) SERVICE_CONNECTION (lit ''publickey'') @
     write_bool has_signature @ write_string (pka_algorithm_name a) @
     write_string (pka_public_key_blob a)"

definition signed_data :: "public_key_auth \<Rightarrow> bytes \<Rightarrow> bytes" where
  "signed_data a session_id = write_string session_id @ request_body_through_key_blob a True"

definition sign_message :: "'r crates \<Rightarrow> bytes \<Rightarrow> bytes \<Rightarrow> bytes result" where
  "sign_message E private_key message =
     (case privkey_rsa E private_key of
        None \<Rightarrow> ok_or (privkey_try_sign E private_key message) SigningFailed
      | Some (n, e, d, p, q) \<Rightarrow>
          try_r (ok_or (rsa_biguint E n) SigningFailed) (\<lambda>n'.
          try_r (ok_or (rsa_biguint E e) SigningFailed) (\<lambda>e'.
          try_r (ok_or (rsa_biguint E d) SigningFailed) (\<lambda>d'.
          try_r (ok_or (rsa_biguint E p) SigningFailed) (\<lambda>p'.
          try_r (ok_or (rsa_biguint E q) SigningFailed) (\<lambda>q'.
          try_r (ok_or (rsa_from_components E n' e' d' [p', q']) SigningFailed) (\<lambda>rsa_private_key.
          try_r (ok_or (rsa_sign_sha512 E rsa_private_key message) SigningFailed) (\<lambda>raw_signature.
            ok_or (signature_new_rsa512 E raw_signature) SigningFailed))))))))"

text \<open>
  What the \<open>ssh-key\<close> and \<open>rsa\<close> crates make of an RSA private key: its modulus is the product of its
  two primes, and the key built from the components and these two primes is \<open>rsa_private_key\<close>.
\<close>

definition rsa_private :: "'r crates \<Rightarrow> bytes \<Rightarrow> bytes \<Rightarrow> bool" where
  "rsa_private E key rsa_private_key \<longleftrightarrow>
     (\<exists>n e d p q n' e' d' p' q'. privkey_rsa E key = Some (n, e, d, p, q) \<and>
        rsa_biguint E n = Some n' \<and> rsa_biguint E e = Some e' \<and> rsa_biguint E d = Some d' \<and>
        rsa_biguint E p = Some p' \<and> rsa_biguint E q = Some q' \<and> n' = p' * q' \<and>
        rsa_from_components E n' e' d' [p', q'] = Some rsa_private_key)"

lemma sign_message_rsa:
  "rsa_private E key rsa_private_key \<Longrightarrow> sign_message E key m =
     try_r (ok_or (rsa_sign_sha512 E rsa_private_key m) SigningFailed) (\<lambda>raw_signature.
       ok_or (signature_new_rsa512 E raw_signature) SigningFailed)"
  by (auto simp: rsa_private_def sign_message_def)

definition build_signed_request ::
    "'r crates \<Rightarrow> public_key_auth \<Rightarrow> bytes \<Rightarrow> bytes \<Rightarrow> bytes result" where
  "build_signed_request E a session_id private_key =
     try_r (sign_message E private_key (signed_data a session_id)) (\<lambda>signature.
     try_r (key_result (signature_to_bytes E signature)) (\<lambda>signature_wire.
       Ok (request_body_through_key_blob a True @ write_string signature_wire)))"

definition parse_pk_ok :: "bytes \<Rightarrow> (str \<times> bytes) result" where
  "parse_pk_ok = parse_with
     (and_then read_u8 (\<lambda>msg_type.
      if msg_type \<noteq> MSG_USERAUTH_PK_OK
      then fail_with (UnexpectedMessage (lit ''UserAuthPkOk'') msg_type)
      else
      and_then read_utf8_string (\<lambda>algorithm_name.
      and_then read_string (\<lambda>key_blob.
        ret (algorithm_name, key_blob)))))"

section \<open>No parser panics\<close>

lemma no_panic_expect_msg_type [intro]: "no_panic (expect_msg_type t n)"
  unfolding expect_msg_type_def
  by (intro no_panic_and_then no_panic_if no_panic_reads no_panic_simple)

lemma auth_parsers_no_panic [simp]:
  "parse_service_accept b \<noteq> Panic" "parse_userauth_failure b \<noteq> Panic" "parse_pk_ok b \<noteq> Panic"
  unfolding parse_service_accept_def parse_userauth_failure_def parse_pk_ok_def
  by (intro no_panic_parse no_panic_and_then no_panic_if no_panic_reads no_panic_read_string
      no_panic_read_utf8_string no_panic_read_bool no_panic_expect_msg_type no_panic_simple)+

lemma sign_message_no_panic [simp]: "sign_message E k m \<noteq> Panic"
  by (auto simp: sign_message_def try_r_Panic split: option.split)

lemma build_signed_request_no_panic [simp]: "build_signed_request E a s k \<noteq> Panic"
  by (simp add: build_signed_request_def try_r_Panic)

lemma public_key_auth_new_no_panic [simp]: "public_key_auth_new E u k \<noteq> Panic"
  by (auto simp: public_key_auth_new_def try_r_Panic client_auth_algorithm_name_def
      split: key_algorithm.splits)

section \<open>Parsing what a server writes\<close>

lemma reads_expect_msg_type: "reads (expect_msg_type t n) (t # ys) () ys"
  unfolding expect_msg_type_def by (rule reads_and_then [OF reads_u8]) (simp add: reads_ret)

lemma parse_service_accept_round_trip:
  assumes "fits_u32 s" and "utf8_valid s"
  shows "parse_service_accept (MSG_SERVICE_ACCEPT # write_string s @ trailing) = Ok s"
  unfolding parse_service_accept_def using assms
  by (intro reads_parse_with)
    (rule reads_and_then reads_expect_msg_type reads_utf8_string | assumption)+

lemma parse_userauth_failure_round_trip:
  assumes "fits_u32 (join_with 44 ms)" and "\<forall>m \<in> set ms. utf8_valid m \<and> 44 \<notin> set m"
    and "ms \<noteq> [[]]"
  shows "parse_userauth_failure
      (MSG_USERAUTH_FAILURE # write_string (join_with 44 ms) @ write_bool b @ trailing) =
    Ok \<lparr>af_remaining_methods = ms, af_partial_success = b\<rparr>"
proof -
  have v: "utf8_valid (join_with 44 ms)" using assms(2) by (intro utf8_valid_join) auto
  have "(if join_with 44 ms = [] then [] else split_on 44 (join_with 44 ms)) = ms"
  proof (cases "ms = []")
    case False
    then have "split_on 44 (join_with 44 ms) = ms"
      using assms(2) by (intro split_on_join) auto
    then show ?thesis using assms(3) False by (auto dest: arg_cong [where f = "split_on 44"])
  qed simp
  then have fin: "reads (ret \<lparr>af_remaining_methods =
      (if join_with 44 ms = [] then [] else split_on 44 (join_with 44 ms)),
      af_partial_success = b\<rparr>) ys \<lparr>af_remaining_methods = ms, af_partial_success = b\<rparr> ys" for ys
    by (simp add: reads_ret)
  show ?thesis
    unfolding parse_userauth_failure_def
    using assms(1) v
    by (intro reads_parse_with)
      (rule reads_and_then reads_expect_msg_type reads_utf8_string reads_bool fin | assumption)+
qed

text \<open>
  The message a server rebuilds to check a publickey signature is the one that was signed: the
  session identifier, then the request up to the key.
\<close>

lemma signed_request_prefix:
  assumes "build_signed_request E a sid key = Ok m"
  obtains sig where "m = request_body_through_key_blob a True @ write_string sig"
    and "\<exists>raw. sign_message E key (signed_data a sid) = Ok raw \<and> signature_to_bytes E raw = Inr sig"
  using assms by (auto simp: build_signed_request_def)

end
