(* ===== verification/Kdf.thy ===== *)
theory Kdf
  imports Crates
begin

text \<open>
  \<open>ssh-core/src/transport/kdf.rs\<close>: key derivation of RFC 4253, section 7.2.
\<close>

definition TAG_IV_CLIENT_TO_SERVER :: byte where "TAG_IV_CLIENT_TO_SERVER = 65"
definition TAG_IV_SERVER_TO_CLIENT :: byte where "TAG_IV_SERVER_TO_CLIENT = 66"
definition TAG_ENC_KEY_CLIENT_TO_SERVER :: byte where "TAG_ENC_KEY_CLIENT_TO_SERVER = 67"
definition TAG_ENC_KEY_SERVER_TO_CLIENT :: byte where "TAG_ENC_KEY_SERVER_TO_CLIENT = 68"
definition TAG_INTEGRITY_KEY_CLIENT_TO_SERVER :: byte where "TAG_INTEGRITY_KEY_CLIENT_TO_SERVER = 69"
definition TAG_INTEGRITY_KEY_SERVER_TO_CLIENT :: byte where "TAG_INTEGRITY_KEY_SERVER_TO_CLIENT = 70"

text \<open>The \<open>while out.len() < needed_len\<close> loop.\<close>

function derive_loop :: "'r crates \<Rightarrow> bytes \<Rightarrow> bytes \<Rightarrow> nat \<Rightarrow> bytes \<Rightarrow> bytes" where
  "derive_loop E k_mpint h needed_len out =
     (if length out < needed_len
      then derive_loop E k_mpint h needed_len (out @ sha256_digest E (k_mpint @ h @ out))
      else out)"
  by pat_completeness auto
termination
  by (relation "measure (\<lambda>(E, k, h, n, out). n - length out)") auto

declare derive_loop.simps [simp del]

definition derive :: "'r crates \<Rightarrow> bytes \<Rightarrow> bytes \<Rightarrow> bytes \<Rightarrow> byte \<Rightarrow> nat \<Rightarrow> bytes" where
  "derive E k_mpint h session_id tag needed_len =
     (let first_block = sha256_digest E (k_mpint @ h @ [tag] @ session_id)
      in take needed_len (derive_loop E k_mpint h needed_len first_block))"

definition encode_mpint :: "'r crates \<Rightarrow> bytes \<Rightarrow> bytes result" where
  "encode_mpint E unsigned_be_bytes = expect (mpint_encode E unsigned_be_bytes)"

section \<open>The specification of RFC 4253\<close>

text \<open>
  \<open>K1 = HASH(K || H || tag || session_id)\<close> and \<open>K(n+1) = HASH(K || H || K1 || ... || Kn)\<close>; the key
  is the initial part of \<open>K1 || K2 || ...\<close>. \<open>rfc_stream n\<close> is the concatenation of the first
  \<open>n + 1\<close> blocks.
\<close>

primrec rfc_stream :: "'r crates \<Rightarrow> bytes \<Rightarrow> bytes \<Rightarrow> bytes \<Rightarrow> byte \<Rightarrow> nat \<Rightarrow> bytes" where
  "rfc_stream E K H sid tag 0 = sha256_digest E (K @ H @ [tag] @ sid)"
| "rfc_stream E K H sid tag (Suc n) =
     rfc_stream E K H sid tag n @ sha256_digest E (K @ H @ rfc_stream E K H sid tag n)"

lemma length_rfc_stream [simp]: "length (rfc_stream E K H sid tag n) = 32 * Suc n"
  by (induction n) simp_all

lemma rfc_stream_prefix:
  "m \<le> n \<Longrightarrow> \<exists>ys. rfc_stream E K H sid tag n = rfc_stream E K H sid tag m @ ys"
  by (induction n) (auto simp: le_Suc_eq)

lemma rfc_stream_take:
  "m \<le> n \<Longrightarrow> needed \<le> 32 * Suc m \<Longrightarrow>
     take needed (rfc_stream E K H sid tag n) = take needed (rfc_stream E K H sid tag m)"
  using rfc_stream_prefix [of m n E K H sid tag] by auto

lemma derive_loop_stream:
  "\<exists>m. derive_loop E K H needed (rfc_stream E K H sid tag n) = rfc_stream E K H sid tag m \<and>
     needed \<le> 32 * Suc m"
proof (induction "needed - 32 * Suc n" arbitrary: n rule: less_induct)
  case less
  show ?case
  proof (cases "32 * Suc n < needed")
    case True
    then have "needed - 32 * Suc (Suc n) < needed - 32 * Suc n" by simp
    from less [OF this] True show ?thesis
      by (subst derive_loop.simps) simp
  next
    case False
    then show ?thesis
      by (intro exI [of _ n]) (subst derive_loop.simps, simp)
  qed
qed

lemma derive_spec:
  assumes "needed \<le> 32 * Suc n"
  shows "derive E K H sid tag needed = take needed (rfc_stream E K H sid tag n)"
proof -
  obtain m where m: "derive_loop E K H needed (rfc_stream E K H sid tag 0) = rfc_stream E K H sid tag m"
    and enough: "needed \<le> 32 * Suc m"
    using derive_loop_stream by blast
  have "take needed (rfc_stream E K H sid tag m) = take needed (rfc_stream E K H sid tag n)"
    using rfc_stream_take enough assms by (metis nat_le_linear)
  with m show ?thesis by (simp add: derive_def)
qed

lemma length_derive [simp]: "length (derive E K H sid tag needed) = needed"
  by (subst derive_spec [where n = needed]) auto

end
