(* ===== verification/Kex_Dh.thy ===== *)
theory Kex_Dh
  imports Wire Host_Key Kdf
begin

text \<open>
  \<open>ssh-core/src/transport/kex_dh_group14.rs\<close>: the key exchange diffie-hellman-group14-sha256. A
  boxed integer of \<open>crypto-bigint\<close> is a natural number; its arithmetic is the crate's.
\<close>

definition MSG_KEXDH_INIT :: byte where
  "MSG_KEXDH_INIT = 30"

definition MSG_KEXDH_REPLY :: byte where
  "MSG_KEXDH_REPLY = 31"

definition GROUP14_BITS :: nat where
  "GROUP14_BITS = 2048"

definition GROUP14_PRIME :: nat where
  "GROUP14_PRIME = 0xFFFFFFFFFFFFFFFFC90FDAA22168C234C4C6628B80DC1CD129024E088A67CC74020BBEA63B139B22514A08798E3404DDEF9519B3CD3A431B302B0A6DF25F14374FE1356D6D51C245E485B576625E7EC6F44C42E9A637ED6B0BFF5CB6F406B7EDEE386BFB5A899FA5AE9F24117C4B1FE649286651ECE45B3DC2007CB8A163BF0598DA48361C55D39A69163FA8FD24CF5F83655D23DCA3AD961C62F356208552BB9ED529077096966D670C354E4ABC9804F1746C08CA18217C32905E462E36CE3BE39E772C180E86039B2783A2EC07A28FB5C55DF06F4C52C9DE2BCBF6955817183995497CEA956AE515D2261898FA051015728E5A8AACAA68FFFFFFFFFFFFFFFF"

definition group_generator :: "'r crates \<Rightarrow> nat result" where
  "group_generator E = expect (biguint_from_be E [2] GROUP14_BITS)"

record client_key_exchange =
  dh_params :: nat
  dh_x :: nat
  dh_e_bytes :: bytes

definition dh_generate :: "'r crates \<Rightarrow> ('r, client_key_exchange) op" where
  "dh_generate E rng =
     (let (x, rng') = biguint_random E GROUP14_BITS rng in
      (try_r (group_generator E) (\<lambda>g.
         let e = biguint_pow_mod E g x GROUP14_PRIME
         in Ok \<lparr>dh_params = GROUP14_PRIME, dh_x = x, dh_e_bytes = biguint_to_be E e GROUP14_BITS\<rparr>),
       rng'))"

definition dh_build_init_message :: "'r crates \<Rightarrow> client_key_exchange \<Rightarrow> bytes result" where
  "dh_build_init_message E kex =
     try_r (encode_mpint E (dh_e_bytes kex)) (\<lambda>m. Ok (MSG_KEXDH_INIT # m))"

definition validate_public_value :: "nat \<Rightarrow> unit result" where
  "validate_public_value value =
     (if value = 0 \<or> value = 1 \<or> value \<ge> GROUP14_PRIME - 1
      then Err (Negotiation (lit ''group14 public value out of valid range''))
      else Ok ())"

definition dh_diffie_hellman :: "'r crates \<Rightarrow> client_key_exchange \<Rightarrow> bytes \<Rightarrow> bytes result" where
  "dh_diffie_hellman E kex f_bytes =
     try_r (ok_or (biguint_from_be E f_bytes GROUP14_BITS)
              (Framing (lit ''f is too large for group14''))) (\<lambda>f.
     try_r (validate_public_value f) (\<lambda>_.
       Ok (biguint_to_be E (biguint_pow_mod E f (dh_x kex) (dh_params kex)) GROUP14_BITS)))"

record kex_dh_reply =
  dhr_host_key_blob :: bytes
  dhr_f_bytes :: bytes
  dhr_signature_blob :: bytes

definition dh_parse_reply :: "bytes \<Rightarrow> kex_dh_reply result" where
  "dh_parse_reply = parse_with
     (and_then read_u8 (\<lambda>msg_type.
      if msg_type \<noteq> MSG_KEXDH_REPLY then fail_with (UnexpectedMessage (lit ''KexDhReply'') msg_type)
      else
      and_then read_string (\<lambda>host_key_blob.
      and_then read_string (\<lambda>f_bytes.
      and_then read_string (\<lambda>signature_blob.
        ret \<lparr>dhr_host_key_blob = host_key_blob, dhr_f_bytes = f_bytes,
             dhr_signature_blob = signature_blob\<rparr>)))))"

definition dh_exchange_hash ::
    "'r crates \<Rightarrow> bytes \<Rightarrow> bytes \<Rightarrow> bytes \<Rightarrow> bytes \<Rightarrow> bytes \<Rightarrow> bytes \<Rightarrow> bytes \<Rightarrow> bytes \<Rightarrow>
     bytes result" where
  "dh_exchange_hash E v_c v_s i_c i_s k_s e_bytes f_bytes shared_secret =
     try_r (encode_mpint E e_bytes) (\<lambda>e.
     try_r (encode_mpint E f_bytes) (\<lambda>f.
     try_r (encode_mpint E shared_secret) (\<lambda>k.
       Ok (sha256_digest E
             (write_string v_c @ write_string v_s @ write_string i_c @ write_string i_s @
              write_string k_s @ e @ f @ k)))))"

definition dh_verify_reply_signature :: "'r crates \<Rightarrow> kex_dh_reply \<Rightarrow> bytes \<Rightarrow> host_key result" where
  "dh_verify_reply_signature E reply h =
     verify_reply E (dhr_host_key_blob reply) (dhr_signature_blob reply) h"

lemma dh_parse_reply_no_panic [simp]: "dh_parse_reply b \<noteq> Panic"
  unfolding dh_parse_reply_def
  by (intro no_panic_parse no_panic_and_then no_panic_if no_panic_reads no_panic_read_string
      no_panic_simple)

section \<open>The crate's integers\<close>

text \<open>
  \<open>from_be_slice\<close> rejects an input longer than the precision, \<open>pow\<close> is modular exponentiation,
  \<open>to_be_bytes\<close> gives all bytes of the precision.
\<close>

definition biguint_ok :: "'r crates \<Rightarrow> bool" where
  "biguint_ok E \<longleftrightarrow>
     (\<forall>bs bits. 8 dvd bits \<longrightarrow>
        biguint_from_be E bs bits = (if 8 * length bs \<le> bits then Some (be_val bs) else None)) \<and>
     (\<forall>b e m. odd m \<longrightarrow> biguint_pow_mod E b e m = b ^ e mod m) \<and>
     (\<forall>n bits. 8 dvd bits \<longrightarrow> biguint_to_be E n bits = be_bytes (bits div 8) n)"

lemma group14_prime_bounds: "2 ^ 2047 < GROUP14_PRIME" "GROUP14_PRIME < 2 ^ 2048" "odd GROUP14_PRIME"
  by (simp_all add: GROUP14_PRIME_def)

text \<open>A value in range is taken, and both sides of an exchange compute the same secret.\<close>

lemma be_val_to_be:
  "n < GROUP14_PRIME \<Longrightarrow> be_val (be_bytes 256 n) = n"
proof -
  assume "n < GROUP14_PRIME"
  moreover have "(2 :: nat) ^ 2048 = (2 ^ 8) ^ 256"
    unfolding power_mult [symmetric] by (rule arg_cong [where f = "(^) 2"]) simp
  then have "(2 :: nat) ^ 2048 = 256 ^ 256" by (simp only:) simp
  ultimately show ?thesis using group14_prime_bounds(2) by simp
qed

lemma biguint_simps:
  assumes "biguint_ok E"
  shows "biguint_from_be E bs GROUP14_BITS = (if length bs \<le> 256 then Some (be_val bs) else None)"
    and "biguint_pow_mod E b e GROUP14_PRIME = b ^ e mod GROUP14_PRIME"
    and "biguint_to_be E n GROUP14_BITS = be_bytes 256 n"
  using assms group14_prime_bounds(3) by (simp_all add: biguint_ok_def GROUP14_BITS_def)

lemma dh_generate_Ok:
  assumes "biguint_ok E" and "dh_generate E r = (Ok kex, r')"
  shows "dh_params kex = GROUP14_PRIME"
    and "dh_e_bytes kex = be_bytes 256 (2 ^ dh_x kex mod GROUP14_PRIME)"
  using assms(2)
  by (auto simp: dh_generate_def group_generator_def biguint_simps [OF assms(1)] Let_def be_val_def
      split: prod.splits)

lemma be_val_public: "be_val (be_bytes 256 (n mod GROUP14_PRIME)) = n mod GROUP14_PRIME"
  using group14_prime_bounds(1) by (intro be_val_to_be mod_less_divisor) linarith

lemma dh_secret:
  assumes "biguint_ok E" and "dh_params kex = GROUP14_PRIME" and "length f_bytes \<le> 256"
    and "validate_public_value (be_val f_bytes) = Ok ()"
  shows "dh_diffie_hellman E kex f_bytes =
    Ok (be_bytes 256 (be_val f_bytes ^ dh_x kex mod GROUP14_PRIME))"
  using assms by (simp add: dh_diffie_hellman_def biguint_simps [OF assms(1)])

end
