(* ===== verification/Kex_Curve.thy ===== *)
theory Kex_Curve
  imports Wire Host_Key Kdf
begin

text \<open>
  \<open>ssh-core/src/transport/kex_curve25519.rs\<close>: the key exchange curve25519-sha256.
\<close>

definition MSG_KEX_ECDH_INIT :: byte where
  "MSG_KEX_ECDH_INIT = 30"

definition MSG_KEX_ECDH_REPLY :: byte where
  "MSG_KEX_ECDH_REPLY = 31"

record ephemeral_keypair =
  kp_secret :: bytes
  kp_public_bytes :: bytes

definition keypair_generate :: "'r crates \<Rightarrow> 'r \<Rightarrow> ephemeral_keypair \<times> 'r" where
  "keypair_generate E rng =
     (let (secret, rng') = x25519_random E rng
      in (\<lparr>kp_secret = secret, kp_public_bytes = x25519_public E secret\<rparr>, rng'))"

definition ecdh_build_init_message :: "ephemeral_keypair \<Rightarrow> bytes" where
  "ecdh_build_init_message kp = MSG_KEX_ECDH_INIT # write_string (kp_public_bytes kp)"

definition ecdh_diffie_hellman :: "'r crates \<Rightarrow> ephemeral_keypair \<Rightarrow> bytes \<Rightarrow> bytes result" where
  "ecdh_diffie_hellman E kp server_public_bytes =
     (let shared = x25519_dh E (kp_secret kp) server_public_bytes in
      if \<not> x25519_contributory E shared
      then Err (Negotiation (lit ''curve25519 shared secret was not contributory''))
      else Ok shared)"

record ecdh_reply =
  er_host_key_blob :: bytes
  er_server_public :: bytes
  er_signature_blob :: bytes

definition ecdh_parse_reply :: "bytes \<Rightarrow> ecdh_reply result" where
  "ecdh_parse_reply = parse_with
     (and_then read_u8 (\<lambda>msg_type.
      if msg_type \<noteq> MSG_KEX_ECDH_REPLY
      then fail_with (UnexpectedMessage (lit ''KexEcdhReply'') msg_type)
      else
      and_then read_string (\<lambda>host_key_blob.
      and_then read_string (\<lambda>server_public.
      if length server_public \<noteq> 32 then fail_with (Framing (lit ''Q_S must be exactly 32 bytes''))
      else
      and_then read_string (\<lambda>signature_blob.
        ret \<lparr>er_host_key_blob = host_key_blob, er_server_public = server_public,
             er_signature_blob = signature_blob\<rparr>)))))"

text \<open>The transcript that is hashed, and the exchange hash.\<close>

definition ecdh_transcript ::
    "'r crates \<Rightarrow> bytes \<Rightarrow> bytes \<Rightarrow> bytes \<Rightarrow> bytes \<Rightarrow> bytes \<Rightarrow> bytes \<Rightarrow> bytes \<Rightarrow> bytes \<Rightarrow>
     bytes result" where
  "ecdh_transcript E v_c v_s i_c i_s k_s q_c q_s shared_secret =
     try_r (encode_mpint E shared_secret) (\<lambda>k.
       Ok (write_string v_c @ write_string v_s @ write_string i_c @ write_string i_s @
           write_string k_s @ write_string q_c @ write_string q_s @ k))"

definition ecdh_exchange_hash ::
    "'r crates \<Rightarrow> bytes \<Rightarrow> bytes \<Rightarrow> bytes \<Rightarrow> bytes \<Rightarrow> bytes \<Rightarrow> bytes \<Rightarrow> bytes \<Rightarrow> bytes \<Rightarrow>
     bytes result" where
  "ecdh_exchange_hash E v_c v_s i_c i_s k_s q_c q_s shared_secret =
     try_r (ecdh_transcript E v_c v_s i_c i_s k_s q_c q_s shared_secret) (\<lambda>buf.
       Ok (sha256_digest E buf))"

definition ecdh_verify_reply_signature :: "'r crates \<Rightarrow> ecdh_reply \<Rightarrow> bytes \<Rightarrow> host_key result" where
  "ecdh_verify_reply_signature E reply h =
     verify_reply E (er_host_key_blob reply) (er_signature_blob reply) h"

lemma ecdh_parse_reply_no_panic [simp]: "ecdh_parse_reply b \<noteq> Panic"
  unfolding ecdh_parse_reply_def
  by (intro no_panic_parse no_panic_and_then no_panic_if no_panic_reads no_panic_read_string
      no_panic_simple)

lemma ecdh_parse_reply_round_trip:
  assumes "fits_u32 k" and "length q = 32" and "fits_u32 s"
  shows "ecdh_parse_reply
      (MSG_KEX_ECDH_REPLY # write_string k @ write_string q @ write_string s @ trailing) =
    Ok \<lparr>er_host_key_blob = k, er_server_public = q, er_signature_blob = s\<rparr>"
proof -
  have q: "fits_u32 q" using assms(2) by (simp add: fits_u32_def)
  show ?thesis
    unfolding ecdh_parse_reply_def
    using assms q
    by (intro reads_parse_with)
      (rule reads_and_then reads_guard reads_u8 reads_string reads_ret | simp)+
qed

lemma ecdh_parse_reply_length:
  "ecdh_parse_reply b = Ok r \<Longrightarrow> length (er_server_public r) = 32"
  by (auto simp: ecdh_parse_reply_def parse_with_def and_then_def
      split: prod.splits result.splits if_splits)

text \<open>
  The hashed transcript determines every string in it: no two exchanges with different
  identification lines, KEXINIT payloads, host key or public values share one.
\<close>

lemma ecdh_transcript_unique:
  assumes "\<forall>x \<in> {v_c, v_s, i_c, i_s, k_s, q_c, q_s, v_c', v_s', i_c', i_s', k_s', q_c', q_s'}. fits_u32 x"
    and "ecdh_transcript E v_c v_s i_c i_s k_s q_c q_s k = Ok t"
    and "ecdh_transcript E v_c' v_s' i_c' i_s' k_s' q_c' q_s' k' = Ok t"
  shows "[v_c, v_s, i_c, i_s, k_s, q_c, q_s] = [v_c', v_s', i_c', i_s', k_s', q_c', q_s'] \<and>
    mpint_encode E k = mpint_encode E k'"
proof -
  obtain m m' where m: "mpint_encode E k = Some m" "mpint_encode E k' = Some m'"
    and eq: "concat (map write_string [v_c, v_s, i_c, i_s, k_s, q_c, q_s]) @ m =
      concat (map write_string [v_c', v_s', i_c', i_s', k_s', q_c', q_s']) @ m'"
    using assms(2,3) by (auto simp: ecdh_transcript_def encode_mpint_def)
  from string_codec.concat_unique [OF _ _ _ eq] assms(1) m show ?thesis by simp
qed

end
