(* ===== verification/Kexinit.thy ===== *)
theory Kexinit
  imports Crates
begin

text \<open>
  \<open>ssh-core/src/transport/kexinit.rs\<close>: the \<open>SSH_MSG_KEXINIT\<close> message, its name-lists, and the
  negotiation of algorithms. Encoding and decoding of strings and booleans go through the crate
  \<open>ssh-encoding\<close>, a parameter.
\<close>

definition MSG_KEXINIT :: byte where
  "MSG_KEXINIT = 20"

definition MSG_NEWKEYS :: byte where
  "MSG_NEWKEYS = 21"

definition KEX_ALGORITHMS :: "str list" where
  "KEX_ALGORITHMS = [lit ''curve25519-sha256'', lit ''diffie-hellman-group14-sha256'']"

definition SERVER_HOST_KEY_ALGORITHMS :: "str list" where
  "SERVER_HOST_KEY_ALGORITHMS = [lit ''ssh-ed25519'', lit ''rsa-sha2-512'', lit ''rsa-sha2-256'']"

definition ENCRYPTION_ALGORITHMS :: "str list" where
  "ENCRYPTION_ALGORITHMS =
     [lit ''chacha20-poly1305@openssh.com'', lit ''aes256-gcm@openssh.com'']"

definition MAC_ALGORITHMS :: "str list" where
  "MAC_ALGORITHMS = [lit ''hmac-sha2-256'']"

definition COMPRESSION_ALGORITHMS :: "str list" where
  "COMPRESSION_ALGORITHMS = [lit ''none'']"

record kex_init =
  cookie :: bytes
  kex_algorithms :: "str list"
  server_host_key_algorithms :: "str list"
  encryption_client_to_server :: "str list"
  encryption_server_to_client :: "str list"
  mac_client_to_server :: "str list"
  mac_server_to_client :: "str list"
  compression_client_to_server :: "str list"
  compression_server_to_client :: "str list"
  languages_client_to_server :: "str list"
  languages_server_to_client :: "str list"
  first_kex_packet_follows :: bool

definition kexinit_ours :: "(nat \<Rightarrow> 'r \<Rightarrow> bytes \<times> 'r) \<Rightarrow> 'r \<Rightarrow> kex_init \<times> 'r" where
  "kexinit_ours fill rng =
     (let (c, rng') = fill 16 rng in
      (\<lparr>cookie = c,
        kex_algorithms = KEX_ALGORITHMS,
        server_host_key_algorithms = SERVER_HOST_KEY_ALGORITHMS,
        encryption_client_to_server = ENCRYPTION_ALGORITHMS,
        encryption_server_to_client = ENCRYPTION_ALGORITHMS,
        mac_client_to_server = MAC_ALGORITHMS,
        mac_server_to_client = MAC_ALGORITHMS,
        compression_client_to_server = COMPRESSION_ALGORITHMS,
        compression_server_to_client = COMPRESSION_ALGORITHMS,
        languages_client_to_server = [],
        languages_server_to_client = [],
        first_kex_packet_follows = False\<rparr>, rng'))"

section \<open>Name-lists\<close>

definition write_name_list :: "'r crates \<Rightarrow> str list \<Rightarrow> bytes result" where
  "write_name_list E names = expect (encode_str E (join_with 44 names))"

text \<open>The slice reader of \<open>ssh-encoding\<close>: the state is the unread rest.\<close>

definition decode_op :: "(bytes \<Rightarrow> str + 'a \<times> bytes) \<Rightarrow> (bytes, 'a) op" where
  "decode_op d reader = (case d reader of
      Inl e \<Rightarrow> (Err (Encoding e), reader)
    | Inr (v, rest) \<Rightarrow> (Ok v, rest))"

definition read_name_list :: "'r crates \<Rightarrow> (bytes, str list) op" where
  "read_name_list E = and_then (decode_op (decode_str E)) (\<lambda>joined.
     if joined = [] then ret [] else ret (split_on 44 joined))"

section \<open>The message\<close>

definition kexinit_to_payload :: "'r crates \<Rightarrow> kex_init \<Rightarrow> bytes result" where
  "kexinit_to_payload E k =
     try_r (write_name_list E (kex_algorithms k)) (\<lambda>n1.
     try_r (write_name_list E (server_host_key_algorithms k)) (\<lambda>n2.
     try_r (write_name_list E (encryption_client_to_server k)) (\<lambda>n3.
     try_r (write_name_list E (encryption_server_to_client k)) (\<lambda>n4.
     try_r (write_name_list E (mac_client_to_server k)) (\<lambda>n5.
     try_r (write_name_list E (mac_server_to_client k)) (\<lambda>n6.
     try_r (write_name_list E (compression_client_to_server k)) (\<lambda>n7.
     try_r (write_name_list E (compression_server_to_client k)) (\<lambda>n8.
     try_r (write_name_list E (languages_client_to_server k)) (\<lambda>n9.
     try_r (write_name_list E (languages_server_to_client k)) (\<lambda>n10.
     try_r (expect (encode_bool E (first_kex_packet_follows k))) (\<lambda>f.
       Ok (MSG_KEXINIT # cookie k @ n1 @ n2 @ n3 @ n4 @ n5 @ n6 @ n7 @ n8 @ n9 @ n10 @ f @
           u32_to_be 0))))))))))))"

definition kexinit_parse_op :: "'r crates \<Rightarrow> (bytes, kex_init) op" where
  "kexinit_parse_op E =
     and_then (decode_op (decode_u8 E)) (\<lambda>msg_type.
     if msg_type \<noteq> MSG_KEXINIT then fail_with (UnexpectedMessage (lit ''KexInit'') msg_type)
     else
     and_then (decode_op (decode_read E 16)) (\<lambda>c.
     and_then (read_name_list E) (\<lambda>n1.
     and_then (read_name_list E) (\<lambda>n2.
     and_then (read_name_list E) (\<lambda>n3.
     and_then (read_name_list E) (\<lambda>n4.
     and_then (read_name_list E) (\<lambda>n5.
     and_then (read_name_list E) (\<lambda>n6.
     and_then (read_name_list E) (\<lambda>n7.
     and_then (read_name_list E) (\<lambda>n8.
     and_then (read_name_list E) (\<lambda>n9.
     and_then (read_name_list E) (\<lambda>n10.
     and_then (decode_op (decode_bool E)) (\<lambda>f.
       ret \<lparr>cookie = c, kex_algorithms = n1, server_host_key_algorithms = n2,
            encryption_client_to_server = n3, encryption_server_to_client = n4,
            mac_client_to_server = n5, mac_server_to_client = n6,
            compression_client_to_server = n7, compression_server_to_client = n8,
            languages_client_to_server = n9, languages_server_to_client = n10,
            first_kex_packet_follows = f\<rparr>)))))))))))))"

definition kexinit_parse :: "'r crates \<Rightarrow> bytes \<Rightarrow> kex_init result" where
  "kexinit_parse E payload = fst (kexinit_parse_op E payload)"

section \<open>Negotiation\<close>

definition negotiate :: "str list \<Rightarrow> str list \<Rightarrow> str \<Rightarrow> str result" where
  "negotiate client server category =
     ok_or (find (\<lambda>c. \<exists>s \<in> set server. s = c) client) (Negotiation category)"

record negotiated_algorithms =
  neg_kex :: str
  neg_server_host_key :: str
  neg_encryption_client_to_server :: str
  neg_encryption_server_to_client :: str

definition negotiate_all :: "kex_init \<Rightarrow> kex_init \<Rightarrow> negotiated_algorithms result" where
  "negotiate_all ours theirs =
     try_r (negotiate (kex_algorithms ours) (kex_algorithms theirs) (lit ''key exchange algorithm''))
       (\<lambda>kex.
     try_r (negotiate (server_host_key_algorithms ours) (server_host_key_algorithms theirs)
              (lit ''server host key algorithm'')) (\<lambda>hk.
     try_r (negotiate (encryption_client_to_server ours) (encryption_client_to_server theirs)
              (lit ''client-to-server cipher'')) (\<lambda>cs.
     try_r (negotiate (encryption_server_to_client ours) (encryption_server_to_client theirs)
              (lit ''server-to-client cipher'')) (\<lambda>sc.
       Ok \<lparr>neg_kex = kex, neg_server_host_key = hk, neg_encryption_client_to_server = cs,
           neg_encryption_server_to_client = sc\<rparr>))))"

subsection \<open>What negotiation picks\<close>

lemma negotiate_Ok:
  "negotiate client server cat = Ok a \<longleftrightarrow>
     (\<exists>pre post. client = pre @ a # post \<and> a \<in> set server \<and> set pre \<inter> set server = {})"
proof
  assume "negotiate client server cat = Ok a"
  then obtain i where i: "i < length client" "client ! i \<in> set server" "a = client ! i"
    and first: "\<forall>j<i. client ! j \<notin> set server"
    by (auto simp: negotiate_def find_Some_iff)
  have "set (take i client) \<inter> set server = {}"
    using first i(1) by (auto simp: in_set_conv_nth)
  moreover have "client = take i client @ a # drop (Suc i) client"
    using i by (simp add: id_take_nth_drop)
  ultimately show "\<exists>pre post. client = pre @ a # post \<and> a \<in> set server \<and> set pre \<inter> set server = {}"
    using i by metis
next
  assume "\<exists>pre post. client = pre @ a # post \<and> a \<in> set server \<and> set pre \<inter> set server = {}"
  then obtain pre post where c: "client = pre @ a # post" and a: "a \<in> set server"
    and p: "set pre \<inter> set server = {}" by blast
  from p have "find (\<lambda>c. c \<in> set server) (pre @ a # post) = Some a"
    using a by (induction pre) auto
  then show "negotiate client server cat = Ok a"
    by (simp add: negotiate_def c)
qed

lemma negotiate_Err:
  "negotiate client server cat = Err e \<longleftrightarrow>
     set client \<inter> set server = {} \<and> e = Negotiation cat"
  by (auto simp: negotiate_def find_None_iff)

lemma negotiate_no_panic [simp]: "negotiate client server cat \<noteq> Panic"
  by (simp add: negotiate_def)

lemma negotiate_in: "negotiate client server cat = Ok a \<Longrightarrow> a \<in> set client \<and> a \<in> set server"
  by (auto simp: negotiate_Ok)

lemma negotiate_all_no_panic [simp]: "negotiate_all ours theirs \<noteq> Panic"
  by (simp add: negotiate_all_def try_r_Panic)

lemma negotiate_all_OkD:
  assumes "negotiate_all ours theirs = Ok n"
  shows "neg_kex n \<in> set (kex_algorithms ours)"
    and "neg_encryption_client_to_server n \<in> set (encryption_client_to_server ours)"
    and "neg_encryption_server_to_client n \<in> set (encryption_server_to_client ours)"
    and "neg_server_host_key n \<in> set (server_host_key_algorithms ours)"
  using assms by (auto simp: negotiate_all_def dest!: negotiate_in)

section \<open>Parsing inverts building\<close>

text \<open>\<open>yields p xs v ys\<close>: the slice reader at \<open>xs\<close> gives \<open>v\<close> and leaves \<open>ys\<close>.\<close>

definition yields :: "(bytes, 'a) op \<Rightarrow> bytes \<Rightarrow> 'a \<Rightarrow> bytes \<Rightarrow> bool" where
  "yields p xs v ys \<longleftrightarrow> p xs = (Ok v, ys)"

lemma yields_and_then: "yields m xs a ys \<Longrightarrow> yields (f a) ys b zs \<Longrightarrow> yields (and_then m f) xs b zs"
  by (simp add: yields_def and_then_def)

definition names_ok :: "str list \<Rightarrow> bool" where
  "names_ok ns \<longleftrightarrow>
     (\<forall>n \<in> set ns. utf8_valid n \<and> 44 \<notin> set n) \<and> ns \<noteq> [[]] \<and>
     length (join_with 44 ns) \<le> 0xFFFFF"

lemma join_eq_Nil: "join_with c ns = [] \<longleftrightarrow> ns = [] \<or> ns = [[]]"
  by (cases "(c, ns)" rule: join_with.cases) auto

lemma name_list_round_trip:
  assumes "encoding_ok E" and "names_ok ns"
  obtains e where "write_name_list E ns = Ok e"
    and "\<And>rest. yields (read_name_list E) (e @ rest) ns rest"
proof -
  have "utf8_valid (join_with 44 ns)"
    using assms(2) by (intro utf8_valid_join) (auto simp: names_ok_def)
  moreover have "length (join_with 44 ns) \<le> 0xFFFFF"
    using assms(2) by (simp add: names_ok_def)
  ultimately obtain e where e: "encode_str E (join_with 44 ns) = Some e"
    and d: "\<And>rest. decode_str E (e @ rest) = Inr (join_with 44 ns, rest)"
    using assms(1) unfolding encoding_ok_def by blast
  have "yields (read_name_list E) (e @ rest) ns rest" for rest
  proof (cases "ns = []")
    case True
    with d show ?thesis by (simp add: yields_def read_name_list_def decode_op_def and_then_def)
  next
    case False
    then have "join_with 44 ns \<noteq> []"
      using assms(2) by (auto simp: join_eq_Nil names_ok_def)
    moreover have "split_on 44 (join_with 44 ns) = ns"
      using assms(2) False by (intro split_on_join) (auto simp: names_ok_def)
    ultimately show ?thesis
      using d by (simp add: yields_def read_name_list_def decode_op_def and_then_def)
  qed
  with e show ?thesis by (intro that) (simp_all add: write_name_list_def)
qed

definition kexinit_ok :: "kex_init \<Rightarrow> bool" where
  "kexinit_ok k \<longleftrightarrow>
     length (cookie k) = 16 \<and>
     names_ok (kex_algorithms k) \<and> names_ok (server_host_key_algorithms k) \<and>
     names_ok (encryption_client_to_server k) \<and> names_ok (encryption_server_to_client k) \<and>
     names_ok (mac_client_to_server k) \<and> names_ok (mac_server_to_client k) \<and>
     names_ok (compression_client_to_server k) \<and> names_ok (compression_server_to_client k) \<and>
     names_ok (languages_client_to_server k) \<and> names_ok (languages_server_to_client k)"

lemma kexinit_round_trip:
  assumes E: "encoding_ok E" and k: "kexinit_ok k"
  shows "\<exists>p. kexinit_to_payload E k = Ok p \<and> kexinit_parse E p = Ok k"
proof -
  note nl = name_list_round_trip [OF E]
  from k have len: "length (cookie k) = 16" by (simp add: kexinit_ok_def)
  obtain e1 where 1: "write_name_list E (kex_algorithms k) = Ok e1"
    "\<And>rest. yields (read_name_list E) (e1 @ rest) (kex_algorithms k) rest"
    using nl k unfolding kexinit_ok_def by metis
  obtain e2 where 2: "write_name_list E (server_host_key_algorithms k) = Ok e2"
    "\<And>rest. yields (read_name_list E) (e2 @ rest) (server_host_key_algorithms k) rest"
    using nl k unfolding kexinit_ok_def by metis
  obtain e3 where 3: "write_name_list E (encryption_client_to_server k) = Ok e3"
    "\<And>rest. yields (read_name_list E) (e3 @ rest) (encryption_client_to_server k) rest"
    using nl k unfolding kexinit_ok_def by metis
  obtain e4 where 4: "write_name_list E (encryption_server_to_client k) = Ok e4"
    "\<And>rest. yields (read_name_list E) (e4 @ rest) (encryption_server_to_client k) rest"
    using nl k unfolding kexinit_ok_def by metis
  obtain e5 where 5: "write_name_list E (mac_client_to_server k) = Ok e5"
    "\<And>rest. yields (read_name_list E) (e5 @ rest) (mac_client_to_server k) rest"
    using nl k unfolding kexinit_ok_def by metis
  obtain e6 where 6: "write_name_list E (mac_server_to_client k) = Ok e6"
    "\<And>rest. yields (read_name_list E) (e6 @ rest) (mac_server_to_client k) rest"
    using nl k unfolding kexinit_ok_def by metis
  obtain e7 where 7: "write_name_list E (compression_client_to_server k) = Ok e7"
    "\<And>rest. yields (read_name_list E) (e7 @ rest) (compression_client_to_server k) rest"
    using nl k unfolding kexinit_ok_def by metis
  obtain e8 where 8: "write_name_list E (compression_server_to_client k) = Ok e8"
    "\<And>rest. yields (read_name_list E) (e8 @ rest) (compression_server_to_client k) rest"
    using nl k unfolding kexinit_ok_def by metis
  obtain e9 where 9: "write_name_list E (languages_client_to_server k) = Ok e9"
    "\<And>rest. yields (read_name_list E) (e9 @ rest) (languages_client_to_server k) rest"
    using nl k unfolding kexinit_ok_def by metis
  obtain e10 where 10: "write_name_list E (languages_server_to_client k) = Ok e10"
    "\<And>rest. yields (read_name_list E) (e10 @ rest) (languages_server_to_client k) rest"
    using nl k unfolding kexinit_ok_def by metis
  obtain f where f: "encode_bool E (first_kex_packet_follows k) = Some f"
    "\<And>rest. decode_bool E (f @ rest) = Inr (first_kex_packet_follows k, rest)"
    using E unfolding encoding_ok_def by blast
  have u8: "decode_u8 E (b # rest) = Inr (b, rest)" for b rest
    using E by (simp add: encoding_ok_def)
  have rd: "decode_read E 16 (cookie k @ rest) = Inr (cookie k, rest)" for rest
    using E len unfolding encoding_ok_def by metis
  let ?p = "MSG_KEXINIT # cookie k @ e1 @ e2 @ e3 @ e4 @ e5 @ e6 @ e7 @ e8 @ e9 @ e10 @ f @ u32_to_be 0"
  have "kexinit_to_payload E k = Ok ?p"
    using 1 2 3 4 5 6 7 8 9 10 f by (simp add: kexinit_to_payload_def)
  moreover have "kexinit_parse E ?p = Ok k"
    using 1(2) 2(2) 3(2) 4(2) 5(2) 6(2) 7(2) 8(2) 9(2) 10(2)
    by (simp add: kexinit_parse_def kexinit_parse_op_def yields_def and_then_def decode_op_def
        u8 rd f(2))
  ultimately show ?thesis by blast
qed

lemma kexinit_ours_ok: "kexinit_ok (fst (kexinit_ours (fill_buf E) rng))"
proof -
  have ascii: "utf8_valid (lit s)" if "\<forall>c \<in> set s. of_char c < (128 :: nat)" for s
    using that by (rule utf8_valid_lit_ascii)
  obtain c r where "fill_buf E 16 rng = (c, r)" and "length c = 16" by (rule host_rng.fillE)
  then show ?thesis
    by (simp add: kexinit_ours_def kexinit_ok_def names_ok_def KEX_ALGORITHMS_def
        SERVER_HOST_KEY_ALGORITHMS_def ENCRYPTION_ALGORITHMS_def MAC_ALGORITHMS_def
        COMPRESSION_ALGORITHMS_def ascii) (simp add: lit_def)
qed

end
