(* ===== verification/Framed_Link.thy ===== *)
theory Framed_Link
  imports Errors
begin

text \<open>
  The interface between the packet layer and its users: a sender that frames one payload, a
  receiver that learns a packet's total length from its first four bytes and then opens exactly
  that many. The law is that a packet sealed by a sender is opened to its payload by a receiver
  in step with it, and leaves the two in step.
\<close>

text \<open>Sending a list of payloads, and taking as many packets off a byte stream.\<close>

primrec send_many :: "(bytes \<Rightarrow> ('s, bytes) op) \<Rightarrow> bytes list \<Rightarrow> ('s, bytes) op" where
  "send_many send [] = ret []"
| "send_many send (p # ps) =
     and_then (send p) (\<lambda>w. and_then (send_many send ps) (\<lambda>ws. ret (w @ ws)))"

primrec recv_many ::
    "('r \<Rightarrow> bytes \<Rightarrow> nat result) \<Rightarrow> (bytes \<Rightarrow> ('r, bytes) op) \<Rightarrow> nat \<Rightarrow>
     bytes \<Rightarrow> ('r, bytes list \<times> bytes) op" where
  "recv_many peek recv 0 buf = ret ([], buf)"
| "recv_many peek recv (Suc n) buf = (\<lambda>r.
     if length buf < 4 then (Err (Framing []), r)
     else and_then (lift_r (peek r (take 4 buf))) (\<lambda>total.
       if length buf < total then fail_with (Framing [])
       else and_then (recv (take total buf)) (\<lambda>p.
         and_then (recv_many peek recv n (drop total buf)) (\<lambda>(ps, rest).
           ret (p # ps, rest)))) r)"

locale framed_link =
  fixes send :: "bytes \<Rightarrow> ('s, bytes) op"
    and peek :: "'r \<Rightarrow> bytes \<Rightarrow> nat result"
    and recv :: "bytes \<Rightarrow> ('r, bytes) op"
    and in_step :: "'s \<Rightarrow> 'r \<Rightarrow> bool"
    and fits :: "bytes \<Rightarrow> bool"
  assumes one_packet: "in_step s r \<Longrightarrow> fits p \<Longrightarrow>
    \<exists>w s' r'. send p s = (Ok w, s') \<and> 4 \<le> length w \<and> peek r (take 4 w) = Ok (length w) \<and>
      recv w r = (Ok p, r') \<and> in_step s' r'"
begin

text \<open>
  A stream of packets is cut back into the same payloads, whatever follows it, and the two ends
  stay in step.
\<close>

lemma stream:
  assumes "in_step s r" and "\<forall>p \<in> set ps. fits p"
  shows "\<exists>w s' r'. send_many send ps s = (Ok w, s') \<and>
    (\<forall>rest. recv_many peek recv (length ps) (w @ rest) r = (Ok (ps, rest), r')) \<and> in_step s' r'"
  using assms
proof (induction ps arbitrary: s r)
  case Nil
  then show ?case by auto
next
  case (Cons p ps)
  then obtain w s1 r1 where w: "send p s = (Ok w, s1)" "4 \<le> length w"
    "peek r (take 4 w) = Ok (length w)" "recv w r = (Ok p, r1)" and "in_step s1 r1"
    using one_packet by (metis list.set_intros(1))
  then obtain ws s' r' where ws: "send_many send ps s1 = (Ok ws, s')"
    and rv: "\<And>rest. recv_many peek recv (length ps) (ws @ rest) r1 = (Ok (ps, rest), r')"
    and "in_step s' r'"
    using Cons by (metis list.set_intros(2))
  have "send_many send (p # ps) s = (Ok (w @ ws), s')"
    using w ws by (simp add: and_then_def)
  moreover have "recv_many peek recv (length (p # ps)) ((w @ ws) @ rest) r = (Ok (p # ps, rest), r')"
    for rest
    using w rv by (simp add: and_then_def)
  ultimately show ?case using \<open>in_step s' r'\<close> by blast
qed

end

end
