(* ===== verification/Packet.thy ===== *)
theory Packet
  imports Crates Wire Framed_Link
begin

text \<open>
  \<open>ssh-core/src/transport/packet.rs\<close>: the binary packet protocol. Padding and framing, the
  plaintext packets of the key exchange, and the two AEAD ciphers with their per-direction
  sequence number and nonce.
\<close>

definition MAX_PACKET_LENGTH :: nat where
  "MAX_PACKET_LENGTH = 256 * 1024"

definition TAG_LEN :: nat where
  "TAG_LEN = 16"

definition MIN_PADDING :: nat where
  "MIN_PADDING = 4"

section \<open>Cipher algorithms\<close>

datatype cipher_algorithm = ChaCha20Poly1305OpenSsh | Aes256GcmOpenSsh

fun cipher_name :: "cipher_algorithm \<Rightarrow> str" where
  "cipher_name ChaCha20Poly1305OpenSsh = lit ''chacha20-poly1305@openssh.com''"
| "cipher_name Aes256GcmOpenSsh = lit ''aes256-gcm@openssh.com''"

definition cipher_from_name :: "str \<Rightarrow> cipher_algorithm option" where
  "cipher_from_name name =
     (if name = lit ''chacha20-poly1305@openssh.com'' then Some ChaCha20Poly1305OpenSsh
      else if name = lit ''aes256-gcm@openssh.com'' then Some Aes256GcmOpenSsh
      else None)"

fun kdf_material_len :: "cipher_algorithm \<Rightarrow> nat \<times> nat" where
  "kdf_material_len ChaCha20Poly1305OpenSsh = (64, 0)"
| "kdf_material_len Aes256GcmOpenSsh = (32, 12)"

fun block_size :: "cipher_algorithm \<Rightarrow> nat" where
  "block_size ChaCha20Poly1305OpenSsh = 8"
| "block_size Aes256GcmOpenSsh = 16"

lemma cipher_from_name_name [simp]: "cipher_from_name (cipher_name a) = Some a"
  by (cases a) (simp_all add: cipher_from_name_def)

section \<open>Padding\<close>

text \<open>
  \<open>padding_length || payload || padding\<close>, sized so that \<open>prefix_len\<close> plus the body is a multiple
  of the block size. The padding length is stored as \<open>padding_len as u8\<close>.
\<close>

definition padding_len :: "nat \<Rightarrow> nat \<Rightarrow> nat \<Rightarrow> nat" where
  "padding_len payload_len block prefix =
     (let unpadded_len = 1 + payload_len;
          padding = block - ((prefix + unpadded_len) mod block)
      in if padding < MIN_PADDING then padding + block else padding)"

definition pad_payload_with_prefix ::
    "(nat \<Rightarrow> 'r \<Rightarrow> bytes \<times> 'r) \<Rightarrow> bytes \<Rightarrow> nat \<Rightarrow> nat \<Rightarrow> 'r \<Rightarrow> bytes \<times> 'r" where
  "pad_payload_with_prefix fill payload block prefix rng =
     (let padding = padding_len (length payload) block prefix;
          (pad, rng') = fill padding rng
      in (word_of_nat padding # payload @ pad, rng'))"

definition pad_payload :: "(nat \<Rightarrow> 'r \<Rightarrow> bytes \<times> 'r) \<Rightarrow> bytes \<Rightarrow> nat \<Rightarrow> 'r \<Rightarrow> bytes \<times> 'r" where
  "pad_payload fill payload block rng = pad_payload_with_prefix fill payload block 0 rng"

definition strip_padding :: "bytes \<Rightarrow> bytes result" where
  "strip_padding body =
     (case body of
        [] \<Rightarrow> Err (Framing (lit ''empty packet body''))
      | b # _ \<Rightarrow>
         let padding = unat b in
         if 1 + padding > length body
         then Err (Framing (lit ''padding length exceeds packet body''))
         else Ok (drop 1 (take (length body - padding) body)))"

lemma padding_len_bounds:
  assumes "0 < block"
  shows "MIN_PADDING \<le> padding_len n block prefix \<or> block < MIN_PADDING"
    and "padding_len n block prefix \<le> block + 3"
    and "0 < padding_len n block prefix"
    and "(prefix + (1 + n) + padding_len n block prefix) mod block = 0"
proof -
  have lt: "(prefix + (1 + n)) mod block < block" using assms by simp
  define u where "u = prefix + (1 + n)"
  have u1: "(u + (block - u mod block)) mod block = 0"
    using lt by (metis add_diff_inverse_nat assms less_imp_le mod_add_left_eq mod_self not_less u_def)
  then have u2: "(u + (block - u mod block + block)) mod block = 0"
    by (metis add.assoc mod_add_self2)
  show "(prefix + (1 + n) + padding_len n block prefix) mod block = 0"
    unfolding padding_len_def Let_def u_def [symmetric] using u1 u2 by simp
  define m where "m = u mod block"
  have m: "m < block" and eq: "padding_len n block prefix =
      (if block - m < MIN_PADDING then block - m + block else block - m)"
    using assms by (simp_all add: m_def u_def padding_len_def Let_def)
  show "MIN_PADDING \<le> padding_len n block prefix \<or> block < MIN_PADDING"
    and "padding_len n block prefix \<le> block + 3" and "0 < padding_len n block prefix"
    using m by (auto simp: eq MIN_PADDING_def)
qed

context secure_random
begin

lemma pad_length:
  "length (fst (pad_payload_with_prefix fill p block prefix r)) =
     1 + length p + padding_len (length p) block prefix"
  using length_fill [of "padding_len (length p) block prefix" r]
  by (auto simp: pad_payload_with_prefix_def Let_def split: prod.split)

lemma pad_aligned:
  "0 < block \<Longrightarrow> (prefix + length (fst (pad_payload_with_prefix fill p block prefix r))) mod block = 0"
  using padding_len_bounds(4) [of block prefix "length p"] by (simp add: pad_length add.assoc)

lemma strip_pad:
  assumes "0 < block" and "block \<le> 16"
  shows "strip_padding (fst (pad_payload_with_prefix fill p block prefix r)) = Ok p"
proof -
  let ?n = "padding_len (length p) block prefix"
  obtain pad r' where fill: "fill ?n r = (pad, r')" and len: "length pad = ?n" by (rule fillE)
  have "unat (word_of_nat ?n :: byte) = ?n"
    using padding_len_bounds(2) [OF assms(1), of "length p" prefix] assms(2)
    by (simp add: unat_word_of_nat_byte)
  with fill len show ?thesis
    by (simp add: pad_payload_with_prefix_def strip_padding_def Let_def)
qed

end

lemma strip_padding_no_panic [simp]: "strip_padding body \<noteq> Panic"
  by (auto simp: strip_padding_def Let_def split: list.splits)

lemma strip_padding_shorter: "strip_padding body = Ok p \<Longrightarrow> length p < length body"
  by (auto simp: strip_padding_def Let_def split: list.splits if_splits)

section \<open>Plaintext packets\<close>

definition seal_plaintext ::
    "(nat \<Rightarrow> 'r \<Rightarrow> bytes \<times> 'r) \<Rightarrow> bytes \<Rightarrow> 'r \<Rightarrow> bytes \<times> 'r" where
  "seal_plaintext fill payload rng =
     (let (body, rng') = pad_payload_with_prefix fill payload 8 4 rng
      in (u32_to_be (word_of_nat (length body)) @ body, rng'))"

definition peek_plaintext_length :: "bytes \<Rightarrow> nat result" where
  "peek_plaintext_length first4 =
     (let packet_length = unat (be_to_u32 first4) in
      if packet_length = 0 \<or> packet_length > MAX_PACKET_LENGTH
      then Err (Framing (lit ''implausible plaintext packet length '' @ decimal packet_length))
      else Ok (4 + packet_length))"

definition open_plaintext :: "bytes \<Rightarrow> bytes result" where
  "open_plaintext wire =
     (if length wire < 4 then Panic
      else let packet_length = unat (be_to_u32 (take 4 wire)) in
        if length wire \<noteq> 4 + packet_length
        then Err (Framing (lit ''wire packet length mismatch''))
        else strip_padding (drop 4 wire))"

section \<open>The ciphers\<close>

text \<open>The \<open>Aes256Gcm\<close> object is determined by its key, which stands for it.\<close>

datatype direction_keys =
    KeysChaCha (k1: bytes) (k2: bytes)
  | KeysGcm (gcm_key: bytes) (gcm_nonce: bytes)

record packet_cipher =
  pc_alg :: cipher_algorithm
  pc_keys :: direction_keys
  pc_seq :: u32

definition with_initial_seq ::
    "cipher_algorithm \<Rightarrow> bytes \<Rightarrow> bytes \<Rightarrow> u32 \<Rightarrow> packet_cipher result" where
  "with_initial_seq alg enc_key iv initial_seq =
     (case alg of
        ChaCha20Poly1305OpenSsh \<Rightarrow>
          if length enc_key \<noteq> 64 then Panic
          else Ok \<lparr>pc_alg = alg, pc_keys = KeysChaCha (drop 32 enc_key) (take 32 enc_key),
                   pc_seq = initial_seq\<rparr>
      | Aes256GcmOpenSsh \<Rightarrow>
          if length enc_key \<noteq> 32 \<or> length iv \<noteq> 12 then Panic
          else Ok \<lparr>pc_alg = alg, pc_keys = KeysGcm enc_key iv, pc_seq = initial_seq\<rparr>)"

definition cipher_new :: "cipher_algorithm \<Rightarrow> bytes \<Rightarrow> bytes \<Rightarrow> packet_cipher result" where
  "cipher_new alg enc_key iv = with_initial_seq alg enc_key iv 0"

definition chacha_nonce_for_seq :: "u32 \<Rightarrow> bytes" where
  "chacha_nonce_for_seq seq = replicate 4 0 @ u32_to_be seq"

definition decrypt_length_chacha20 :: "'r crates \<Rightarrow> bytes \<Rightarrow> u32 \<Rightarrow> bytes \<Rightarrow> u32" where
  "decrypt_length_chacha20 E key1 seq enc_len =
     be_to_u32 (chacha_xor E key1 (chacha_nonce_for_seq seq) enc_len)"

definition increment_gcm_nonce :: "bytes \<Rightarrow> bytes" where
  "increment_gcm_nonce nonce = take 4 nonce @ u64_to_be (be_to_u64 (drop 4 nonce) + 1)"

definition seal_chacha20poly1305 ::
    "'r crates \<Rightarrow> bytes \<Rightarrow> bytes \<Rightarrow> u32 \<Rightarrow> bytes \<Rightarrow> bytes result" where
  "seal_chacha20poly1305 E key1 key2 seq body =
     (let nonce = chacha_nonce_for_seq seq;
          len_bytes = chacha_xor E key1 nonce (u32_to_be (word_of_nat (length body)))
      in try_r (expect (chachapoly_seal E key2 nonce len_bytes body))
           (\<lambda>(ct, tag). Ok (len_bytes @ ct @ tag)))"

definition open_chacha20poly1305 ::
    "'r crates \<Rightarrow> bytes \<Rightarrow> bytes \<Rightarrow> u32 \<Rightarrow> bytes \<Rightarrow> bytes \<Rightarrow> bytes result" where
  "open_chacha20poly1305 E key1 key2 seq enc_len wire =
     (let packet_length = unat (decrypt_length_chacha20 E key1 seq enc_len);
          expected_total = 4 + packet_length + TAG_LEN in
      if length wire \<noteq> expected_total then Err (Framing (lit ''wire packet length mismatch''))
      else let body = take packet_length (drop 4 wire);
               tag = drop (4 + packet_length) wire
           in ok_or (chachapoly_open E key2 (chacha_nonce_for_seq seq) enc_len body tag) Mac)"

definition seal_aes256gcm :: "'r crates \<Rightarrow> bytes \<Rightarrow> bytes \<Rightarrow> bytes \<Rightarrow> bytes result" where
  "seal_aes256gcm E key nonce body =
     (let len_bytes = u32_to_be (word_of_nat (length body))
      in try_r (expect (aesgcm_seal E key nonce len_bytes body))
           (\<lambda>(ct, tag). Ok (len_bytes @ ct @ tag)))"

definition open_aes256gcm :: "'r crates \<Rightarrow> bytes \<Rightarrow> bytes \<Rightarrow> bytes \<Rightarrow> bytes \<Rightarrow> bytes result" where
  "open_aes256gcm E key nonce enc_len wire =
     (let packet_length = unat (be_to_u32 enc_len);
          expected_total = 4 + packet_length + TAG_LEN in
      if length wire \<noteq> expected_total then Err (Framing (lit ''wire packet length mismatch''))
      else let body = take packet_length (drop 4 wire);
               tag = drop (4 + packet_length) wire
           in ok_or (aesgcm_open E key nonce enc_len body tag) Mac)"

text \<open>\<open>PacketCipher::seal\<close>: on the cipher and the generator.\<close>

definition cipher_seal ::
    "'r crates \<Rightarrow> bytes \<Rightarrow> (packet_cipher \<times> 'r, bytes) op" where
  "cipher_seal E payload = (\<lambda>(c, rng).
     let (body, rng') = pad_payload (fill_buf E) payload (block_size (pc_alg c)) rng;
         seq = pc_seq c;
         c' = c\<lparr>pc_seq := pc_seq c + 1\<rparr>
     in case pc_keys c of
          KeysChaCha key1 key2 \<Rightarrow> (seal_chacha20poly1305 E key1 key2 seq body, (c', rng'))
        | KeysGcm key nonce \<Rightarrow>
            (case seal_aes256gcm E key nonce body of
               Ok w \<Rightarrow> (Ok w, (c'\<lparr>pc_keys := KeysGcm key (increment_gcm_nonce nonce)\<rparr>, rng'))
             | r \<Rightarrow> (r, (c', rng'))))"

definition peek_total_length :: "'r crates \<Rightarrow> packet_cipher \<Rightarrow> bytes \<Rightarrow> nat result" where
  "peek_total_length E c first4 =
     (let packet_length = unat (case pc_keys c of
            KeysChaCha key1 _ \<Rightarrow> decrypt_length_chacha20 E key1 (pc_seq c) first4
          | KeysGcm _ _ \<Rightarrow> be_to_u32 first4) in
      if packet_length = 0 \<or> packet_length > MAX_PACKET_LENGTH
      then Err (Framing (lit ''implausible packet length '' @ decimal packet_length))
      else Ok (4 + packet_length + TAG_LEN))"

text \<open>
  \<open>PacketCipher::open\<close>: slicing \<open>wire_packet[0..4]\<close> panics on a shorter packet; a failed
  authentication leaves the cipher as it was.
\<close>

definition cipher_open :: "'r crates \<Rightarrow> bytes \<Rightarrow> (packet_cipher, bytes) op" where
  "cipher_open E wire c =
     (if length wire < 4 then (Panic, c)
      else let seq = pc_seq c; enc_len = take 4 wire in
        case pc_keys c of
          KeysChaCha key1 key2 \<Rightarrow>
            (case open_chacha20poly1305 E key1 key2 seq enc_len wire of
               Ok body \<Rightarrow> (strip_padding body, c\<lparr>pc_seq := pc_seq c + 1\<rparr>)
             | Err e \<Rightarrow> (Err e, c)
             | Panic \<Rightarrow> (Panic, c))
        | KeysGcm key nonce \<Rightarrow>
            (case open_aes256gcm E key nonce enc_len wire of
               Ok body \<Rightarrow>
                 (strip_padding body,
                  c\<lparr>pc_keys := KeysGcm key (increment_gcm_nonce nonce), pc_seq := pc_seq c + 1\<rparr>)
             | Err e \<Rightarrow> (Err e, c)
             | Panic \<Rightarrow> (Panic, c)))"

section \<open>A sealed packet is opened to its payload\<close>

text \<open>
  Payloads small enough that the body stays within \<open>MAX_PACKET_LENGTH\<close> whatever the padding (at
  most 19 bytes, plus the byte of its length).
\<close>

definition payload_fits :: "bytes \<Rightarrow> bool" where
  "payload_fits p \<longleftrightarrow> length p + 20 \<le> MAX_PACKET_LENGTH"

lemma block_size_cases: "block_size a = 8 \<or> block_size a = 16"
  by (cases a) auto

lemma block_size_pos [simp]: "0 < block_size a"
  by (cases a) auto

lemma padded_body:
  assumes "payload_fits p" and "0 < block" and "block \<le> 16"
    and "pad_payload_with_prefix (fill_buf E) p block prefix rng = (body, rng')"
  shows "strip_padding body = Ok p" and "body \<noteq> []" and "length body \<le> MAX_PACKET_LENGTH"
    and "unat (word_of_nat (length body) :: u32) = length body"
    and "length body < 4294967296" and "(prefix + length body) mod block = 0"
proof -
  from assms(4) have body: "body = fst (pad_payload_with_prefix (fill_buf E) p block prefix rng)"
    by simp
  show "strip_padding body = Ok p" unfolding body by (rule host_rng.strip_pad [OF assms(2,3)])
  have len: "length body = 1 + length p + padding_len (length p) block prefix"
    unfolding body by (rule host_rng.pad_length)
  then show "body \<noteq> []" by auto
  show le: "length body \<le> MAX_PACKET_LENGTH"
    using len assms(1,3) padding_len_bounds(2) [OF assms(2), of "length p" prefix]
    by (simp add: payload_fits_def)
  then show lt: "length body < 4294967296" by (simp add: MAX_PACKET_LENGTH_def)
  then show "unat (word_of_nat (length body) :: u32) = length body" by (simp add: unat_of_nat)
  show "(prefix + length body) mod block = 0"
    unfolding body by (rule host_rng.pad_aligned [OF assms(2)])
qed

lemma plaintext_link:
  assumes "payload_fits p" and "seal_plaintext (fill_buf E) p rng = (wire, rng')"
  shows "4 \<le> length wire" and "peek_plaintext_length (take 4 wire) = Ok (length wire)"
    and "open_plaintext wire = Ok p" and "length wire mod 8 = 0"
proof -
  obtain body where pad: "pad_payload_with_prefix (fill_buf E) p 8 4 rng = (body, rng')"
    and wire: "wire = u32_to_be (word_of_nat (length body)) @ body"
    using assms(2) by (auto simp: seal_plaintext_def split: prod.splits)
  note b = padded_body [OF assms(1) _ _ pad, simplified]
  show "4 \<le> length wire" by (simp add: wire)
  show "peek_plaintext_length (take 4 wire) = Ok (length wire)"
    using b by (simp add: wire peek_plaintext_length_def Let_def)
  show "open_plaintext wire = Ok p"
    using b by (simp add: wire open_plaintext_def Let_def)
  show "length wire mod 8 = 0"
    using b(6) by (simp add: wire)
qed

lemma length_chacha_xor [simp]: "stream_cipher_ok E \<Longrightarrow> length (chacha_xor E k n b) = length b"
  by (simp add: stream_cipher_ok_def)

lemma chacha_xor_twice [simp]:
  "stream_cipher_ok E \<Longrightarrow> chacha_xor E k n (chacha_xor E k n b) = b"
  by (simp add: stream_cipher_ok_def)

lemma chacha_link:
  assumes "stream_cipher_ok E" and "aead_ok (chachapoly_seal E) (chachapoly_open E)"
    and "length body < 4294967296"
  obtains wire where "seal_chacha20poly1305 E key1 key2 seq body = Ok wire"
    and "length wire = 4 + length body + TAG_LEN"
    and "decrypt_length_chacha20 E key1 seq (take 4 wire) = word_of_nat (length body)"
    and "open_chacha20poly1305 E key1 key2 seq (take 4 wire) wire = Ok body"
proof -
  let ?n = "chacha_nonce_for_seq seq"
  let ?l = "chacha_xor E key1 ?n (u32_to_be (word_of_nat (length body)))"
  obtain c t where seal: "chachapoly_seal E key2 ?n ?l body = Some (c, t)"
    and len: "length c = length body" "length t = 16"
    and op: "chachapoly_open E key2 ?n ?l c t = Some body"
    using aead_okE [OF assms(2,3)] by metis
  have l: "length ?l = 4" using assms(1) by simp
  have "decrypt_length_chacha20 E key1 seq ?l = word_of_nat (length body)"
    using assms(1) by (simp add: decrypt_length_chacha20_def)
  with l len seal op assms(3) show ?thesis
    by (intro that [of "?l @ c @ t"])
      (simp_all add: seal_chacha20poly1305_def open_chacha20poly1305_def Let_def TAG_LEN_def
        unat_of_nat)
qed

lemma gcm_link:
  assumes "aead_ok (aesgcm_seal E) (aesgcm_open E)" and "length body < 4294967296"
  obtains wire where "seal_aes256gcm E key nonce body = Ok wire"
    and "length wire = 4 + length body + TAG_LEN"
    and "be_to_u32 (take 4 wire) = word_of_nat (length body)"
    and "open_aes256gcm E key nonce (take 4 wire) wire = Ok body"
proof -
  let ?l = "u32_to_be (word_of_nat (length body))"
  obtain c t where seal: "aesgcm_seal E key nonce ?l body = Some (c, t)"
    and len: "length c = length body" "length t = 16"
    and op: "aesgcm_open E key nonce ?l c t = Some body"
    using aead_okE [OF assms] by metis
  from len seal op assms(2) show ?thesis
    by (intro that [of "?l @ c @ t"])
      (simp_all add: seal_aes256gcm_def open_aes256gcm_def Let_def TAG_LEN_def unat_of_nat)
qed

text \<open>
  Both ends of one direction hold the same cipher state; sealing and opening one packet keeps
  them equal.
\<close>

lemma cipher_link:
  assumes "ciphers_ok E" and "payload_fits p"
  obtains wire c' rng' where "cipher_seal E p (c, rng) = (Ok wire, (c', rng'))"
    and "4 \<le> length wire" and "peek_total_length E c (take 4 wire) = Ok (length wire)"
    and "cipher_open E wire c = (Ok p, c')"
proof -
  obtain body rng' where pad: "pad_payload (fill_buf E) p (block_size (pc_alg c)) rng = (body, rng')"
    by fastforce
  have bs: "block_size (pc_alg c) \<le> 16" using block_size_cases [of "pc_alg c"] by auto
  note b = padded_body [OF assms(2) block_size_pos bs pad [unfolded pad_payload_def]]
  show ?thesis
  proof (cases "pc_keys c")
    case (KeysChaCha key1 key2)
    obtain w where "seal_chacha20poly1305 E key1 key2 (pc_seq c) body = Ok w"
      and "length w = 4 + length body + TAG_LEN"
      and "decrypt_length_chacha20 E key1 (pc_seq c) (take 4 w) = word_of_nat (length body)"
      and "open_chacha20poly1305 E key1 key2 (pc_seq c) (take 4 w) w = Ok body"
      using assms(1) b(5) unfolding ciphers_ok_def by (metis chacha_link)
    then show ?thesis using KeysChaCha pad b
      by (intro that) (auto simp: cipher_seal_def cipher_open_def peek_total_length_def Let_def)
  next
    case (KeysGcm key nonce)
    obtain w where "seal_aes256gcm E key nonce body = Ok w"
      and "length w = 4 + length body + TAG_LEN"
      and "be_to_u32 (take 4 w) = word_of_nat (length body)"
      and "open_aes256gcm E key nonce (take 4 w) w = Ok body"
      using assms(1) b(5) unfolding ciphers_ok_def by (metis gcm_link)
    then show ?thesis using KeysGcm pad b
      by (intro that) (auto simp: cipher_seal_def cipher_open_def peek_total_length_def Let_def)
  qed
qed

section \<open>The packet layer as a framed link\<close>

definition plain_send :: "'r crates \<Rightarrow> bytes \<Rightarrow> ('r, bytes) op" where
  "plain_send E payload = (\<lambda>rng.
     let (wire, rng') = seal_plaintext (fill_buf E) payload rng in (Ok wire, rng'))"

definition plain_recv :: "bytes \<Rightarrow> (unit, bytes) op" where
  "plain_recv wire = lift_r (open_plaintext wire)"

interpretation plain: framed_link "plain_send E" "\<lambda>_. peek_plaintext_length" plain_recv
  "\<lambda>_ _. True" payload_fits for E :: "'r crates"
proof
  fix s :: 'r and r p
  assume "payload_fits p"
  moreover obtain w s' where "seal_plaintext (fill_buf E) p s = (w, s')" by fastforce
  ultimately show "\<exists>w s' r'. plain_send E p s = (Ok w, s') \<and> 4 \<le> length w \<and>
      peek_plaintext_length (take 4 w) = Ok (length w) \<and> plain_recv w r = (Ok p, r') \<and> True"
    using plaintext_link by (fastforce simp: plain_send_def plain_recv_def)
qed

definition same_cipher :: "'r crates \<Rightarrow> packet_cipher \<times> 'r \<Rightarrow> packet_cipher \<Rightarrow> bool" where
  "same_cipher E s c \<longleftrightarrow> ciphers_ok E \<and> fst s = c"

interpretation sealed: framed_link "cipher_seal E" "peek_total_length E" "cipher_open E"
  "same_cipher E" payload_fits for E :: "'r crates"
proof
  fix s :: "packet_cipher \<times> 'r" and c p
  assume s: "same_cipher E s c" and p: "payload_fits p"
  obtain rng where "s = (c, rng)" using s by (cases s) (simp add: same_cipher_def)
  then show "\<exists>w s' c'. cipher_seal E p s = (Ok w, s') \<and> 4 \<le> length w \<and>
      peek_total_length E c (take 4 w) = Ok (length w) \<and> cipher_open E w c = (Ok p, c') \<and>
      same_cipher E s' c'"
    using s p cipher_link [of E p c rng] by (fastforce simp: same_cipher_def)
qed

section \<open>The sequence number\<close>

text \<open>Sealing advances the sequence number by one and the GCM counter in lockstep, wrapping.\<close>

primrec advance_keys :: "nat \<Rightarrow> direction_keys \<Rightarrow> direction_keys" where
  "advance_keys n (KeysChaCha a b) = KeysChaCha a b"
| "advance_keys n (KeysGcm k nonce) = KeysGcm k ((increment_gcm_nonce ^^ n) nonce)"

lemma cipher_seal_state:
  assumes "cipher_seal E p (c, rng) = (Ok w, (c', rng'))"
  shows "c' = c\<lparr>pc_keys := advance_keys 1 (pc_keys c), pc_seq := pc_seq c + 1\<rparr>"
  using assms
  by (auto simp: cipher_seal_def Let_def split: prod.splits direction_keys.splits result.splits)

lemma send_many_state:
  assumes "send_many (cipher_seal E) ps (c, rng) = (Ok w, (c', rng'))"
  shows "c' = c\<lparr>pc_keys := advance_keys (length ps) (pc_keys c),
                pc_seq := pc_seq c + of_nat (length ps)\<rparr>"
  using assms
proof (induction ps arbitrary: c rng w)
  case Nil
  then show ?case by (cases "pc_keys c") auto
next
  case (Cons p ps)
  then obtain w1 c1 r1 ws where "cipher_seal E p (c, rng) = (Ok w1, (c1, r1))"
    and "send_many (cipher_seal E) ps (c1, r1) = (Ok ws, (c', rng'))"
    by (auto simp: and_then_eq_Ok)
  then show ?case
    using cipher_seal_state [of E p c rng w1 c1 r1] Cons.IH [of c1 r1 ws]
    by (cases "pc_keys c") (auto simp: funpow_swap1 add_ac)
qed

lemma cipher_seal_alg: "pc_alg (fst (snd (cipher_seal E p (c, rng)))) = pc_alg c"
  by (auto simp: cipher_seal_def Let_def split: prod.splits direction_keys.splits result.splits)

text \<open>A packet that is not accepted leaves the cipher unchanged, but for bad padding inside it.\<close>

lemma strip_padding_not_Mac [simp]: "strip_padding body \<noteq> Err Mac"
  by (simp add: strip_padding_def Let_def split: list.split)

lemma cipher_open_Mac: "cipher_open E w c = (Err Mac, c') \<Longrightarrow> c' = c"
  by (cases "pc_keys c")
    (auto simp: cipher_open_def Let_def split: result.splits if_splits simp del: not_less)

lemma open_chacha20poly1305_no_panic [simp]: "open_chacha20poly1305 E a b c d e \<noteq> Panic"
  unfolding open_chacha20poly1305_def Let_def
  by (split if_split, intro conjI impI, rule result.distinct(5), rule ok_or_Panic)

lemma open_aes256gcm_no_panic [simp]: "open_aes256gcm E a b c d \<noteq> Panic"
  unfolding open_aes256gcm_def Let_def
  by (split if_split, intro conjI impI, rule result.distinct(5), rule ok_or_Panic)

lemma cipher_open_no_panic: "4 \<le> length w \<Longrightarrow> fst (cipher_open E w c) \<noteq> Panic"
  by (cases "pc_keys c") (simp_all add: cipher_open_def Let_def split: result.split)

lemma open_plaintext_no_panic: "4 \<le> length w \<Longrightarrow> open_plaintext w \<noteq> Panic"
  by (simp add: open_plaintext_def Let_def)

lemma peek_plaintext_bounds:
  "peek_plaintext_length b = Ok n \<Longrightarrow> 5 \<le> n \<and> n \<le> 4 + MAX_PACKET_LENGTH"
  by (auto simp: peek_plaintext_length_def Let_def split: if_splits)

lemma peek_total_bounds:
  "peek_total_length E c b = Ok n \<Longrightarrow> 21 \<le> n \<and> n \<le> 20 + MAX_PACKET_LENGTH"
  by (auto simp: peek_total_length_def Let_def TAG_LEN_def split: if_splits)

end
