(* ===== verification/Chunked.thy ===== *)
theory Chunked
  imports Errors
begin

text \<open>
  The interface of a component that consumes a byte stream piece by piece: how the stream is cut
  into pieces does not matter. The law is about two pieces; everything the host relies on (any
  cutting, also byte by byte) follows from it.
\<close>

locale chunked =
  fixes feed :: "bytes \<Rightarrow> 's \<Rightarrow> 's"
    and good :: "'s \<Rightarrow> bool"
  assumes feed_append: "good s \<Longrightarrow> feed (xs @ ys) s = feed ys (feed xs s)"
    and feed_good: "good s \<Longrightarrow> good (feed xs s)"
    and feed_Nil: "good s \<Longrightarrow> feed [] (feed xs s) = feed xs s"
begin

lemma fold_good: "good s \<Longrightarrow> good (fold feed xss s)"
  by (induction xss arbitrary: s) (auto simp: feed_good)

lemma feed_concat: "good s \<Longrightarrow> xss \<noteq> [] \<Longrightarrow> fold feed xss s = feed (concat xss) s"
proof (induction xss arbitrary: s)
  case (Cons xs xss)
  show ?case
  proof (cases xss)
    case Nil
    then show ?thesis by simp
  next
    case (Cons y ys)
    then show ?thesis
      using Cons.IH [of "feed xs s"] Cons.prems by (simp add: feed_append feed_good)
  qed
qed simp

text \<open>Any two cuttings of the same stream lead to the same state.\<close>

lemma cutting_irrelevant:
  "good s \<Longrightarrow> concat xss = concat yss \<Longrightarrow> xss \<noteq> [] \<Longrightarrow> yss \<noteq> [] \<Longrightarrow>
     fold feed xss s = fold feed yss s"
  by (simp add: feed_concat)

lemma bytewise:
  "good s \<Longrightarrow> xs \<noteq> [] \<Longrightarrow> fold feed (map (\<lambda>b. [b]) xs) s = feed xs s"
  by (subst feed_concat) (auto simp: concat_map_singleton)

end

end
