(* ===== verification/Ident.thy ===== *)
theory Ident
  imports Chunked
begin

text \<open>
  \<open>ssh-core/src/ident.rs\<close>: the version exchange. Banner lines are skipped until a line that
  starts with \<open>SSH-\<close>; \<open>feed\<close> says how many bytes it consumed, the rest belongs to the packet
  layer.
\<close>

text \<open>\<open>env!("CARGO_PKG_VERSION")\<close> is \<open>0.1.0\<close>, the workspace version of \<open>Cargo.toml\<close>.\<close>

definition client_ident_line :: bytes where
  "client_ident_line = lit ''SSH-2.0-wasmssh_0.1.0'' @ [13, 10]"

record ident_exchange =
  scan_buf :: bytes
  total_scanned :: nat
  server_ident :: "bytes option"

definition MAX_SCAN_BYTES :: nat where
  "MAX_SCAN_BYTES = 64 * 1024"

definition ident_new :: ident_exchange where
  "ident_new = \<lparr>scan_buf = [], total_scanned = 0, server_ident = None\<rparr>"

definition ident_done :: "ident_exchange \<Rightarrow> bool" where
  "ident_done ex \<longleftrightarrow> server_ident ex \<noteq> None"

definition validate_version :: "bytes \<Rightarrow> unit result" where
  "validate_version line =
     (if \<not> utf8_valid line then Err (Framing (lit ''server ident line is not valid UTF-8''))
      else let rest = (case strip_prefix (lit ''SSH-'') line of Some r \<Rightarrow> r | None \<Rightarrow> line);
               proto_version = (case split_on 45 rest of p # _ \<Rightarrow> p | [] \<Rightarrow> [])
           in if proto_version = lit ''2.0'' \<or> proto_version = lit ''1.99'' then Ok ()
              else Err (Framing (lit ''unsupported SSH protocol version: '' @ proto_version)))"

text \<open>The line of a scan buffer at its line feed: a trailing carriage return is dropped.\<close>

definition line_of :: "bytes \<Rightarrow> bytes" where
  "line_of buf = (if buf \<noteq> [] \<and> last buf = 13 then butlast buf else buf)"

text \<open>
  The loop of \<open>feed\<close>, one byte per turn. The result is the number of bytes consumed by these
  turns; \<open>self\<close> keeps its changes where an error is returned.
\<close>

fun feed_loop :: "bytes \<Rightarrow> (ident_exchange, nat) op" where
  "feed_loop [] ex = (Ok 0, ex)"
| "feed_loop (byte # data) ex =
     (let ex = ex\<lparr>total_scanned := total_scanned ex + 1\<rparr> in
      if total_scanned ex > MAX_SCAN_BYTES
      then (Err (Framing (lit ''server identification exchange exceeded size limit'')), ex)
      else if byte = 10 then
        let line = line_of (scan_buf ex); ex = ex\<lparr>scan_buf := []\<rparr> in
        if starts_with line (lit ''SSH-'') then
          (case validate_version line of
             Ok _ \<Rightarrow> (Ok 1, ex\<lparr>server_ident := Some line\<rparr>)
           | Err e \<Rightarrow> (Err e, ex)
           | Panic \<Rightarrow> (Panic, ex))
        else and_then (feed_loop data) (\<lambda>n. ret (Suc n)) ex
      else and_then (feed_loop data) (\<lambda>n. ret (Suc n)) (ex\<lparr>scan_buf := scan_buf ex @ [byte]\<rparr>))"

definition ident_feed :: "bytes \<Rightarrow> (ident_exchange, nat) op" where
  "ident_feed data ex = (if ident_done ex then (Ok 0, ex) else feed_loop data ex)"

declare feed_loop.simps(2) [simp del]

section \<open>Basic facts of the loop\<close>

lemma validate_version_no_panic [simp]: "validate_version line \<noteq> Panic"
  by (simp add: validate_version_def Let_def)

lemma feed_loop_no_panic: "fst (feed_loop data ex) \<noteq> Panic"
proof (induction data ex rule: feed_loop.induct)
  case (2 byte data ex)
  then show ?case
    by (auto simp: feed_loop.simps(2) Let_def and_then_def split: result.splits prod.splits if_splits)
      (metis fst_conv)+
qed simp

text \<open>What the loop consumes: everything, unless it stopped at the identification line.\<close>

lemma feed_loop_consumed:
  "feed_loop data ex = (Ok n, ex') \<Longrightarrow> \<not> ident_done ex \<Longrightarrow>
     n \<le> length data \<and> (if ident_done ex' then 0 < n else n = length data)"
proof (induction data ex arbitrary: n ex' rule: feed_loop.induct)
  case (2 byte data ex)
  then show ?case
    by (auto simp: feed_loop.simps(2) Let_def and_then_eq_Ok ident_done_def
        split: result.splits if_splits; fastforce)
qed (auto simp: ident_done_def)

text \<open>
  Feeding two pieces in turn is feeding their concatenation: the second piece is only looked at
  when the first was consumed whole without finding the line.
\<close>

lemma feed_loop_append:
  "feed_loop (xs @ ys) ex =
     (case feed_loop xs ex of
        (Ok n, ex') \<Rightarrow> if ident_done ex' \<and> \<not> ident_done ex then (Ok n, ex')
                      else and_then (feed_loop ys) (\<lambda>m. ret (n + m)) ex'
      | (r, ex') \<Rightarrow> (r, ex'))"
  if "\<not> ident_done ex"
  using that
proof (induction xs ex rule: feed_loop.induct)
  case (1 ex)
  then show ?case by (simp add: and_then_def split: prod.split result.split)
next
  case (2 byte data ex)
  then show ?case
    by (auto simp: feed_loop.simps(2) Let_def and_then_def ident_done_def
        split: prod.splits result.splits if_splits)
qed

section \<open>The exchange at one go\<close>

text \<open>
  What the exchange should make of a server's first bytes, with the whole of them at hand: the
  complete lines, the first of them that is an identification, the bytes up to its line feed, and
  the limit on those.
\<close>

definition banner_line :: "bytes \<Rightarrow> bool" where
  "banner_line l \<longleftrightarrow> \<not> starts_with (line_of l) (lit ''SSH-'')"

definition line_lengths :: "bytes list \<Rightarrow> nat" where
  "line_lengths ls = sum_list (map (\<lambda>l. length l + 1) ls)"

definition scan_error :: ssh_error where
  "scan_error = Framing (lit ''server identification exchange exceeded size limit'')"

definition ident_scan :: "bytes \<Rightarrow> (nat \<times> bytes option) result" where
  "ident_scan data =
     (let lines = butlast (split_on 10 data) in
      case dropWhile banner_line lines of
        [] \<Rightarrow> if length data \<le> MAX_SCAN_BYTES then Ok (length data, None) else Err scan_error
      | l # _ \<Rightarrow>
          let used = line_lengths (takeWhile banner_line lines @ [l]) in
          if used \<le> MAX_SCAN_BYTES
          then try_r (validate_version (line_of l)) (\<lambda>_. Ok (used, Some (line_of l)))
          else Err scan_error)"

definition ident_outcome :: "nat result \<times> ident_exchange \<Rightarrow> (nat \<times> bytes option) result" where
  "ident_outcome q = try_r (fst q) (\<lambda>n. Ok (n, server_ident (snd q)))"

text \<open>The same from the middle: \<open>t\<close> bytes have been seen, and \<open>b\<close> is the line begun.\<close>

definition scan_from :: "nat \<Rightarrow> bytes \<Rightarrow> bytes \<Rightarrow> (nat \<times> bytes option) result" where
  "scan_from t b data =
     (let lines = butlast (split_on 10 (b @ data)) in
      case dropWhile banner_line lines of
        [] \<Rightarrow> if t + length data \<le> MAX_SCAN_BYTES then Ok (length data, None) else Err scan_error
      | l # _ \<Rightarrow>
          let used = line_lengths (takeWhile banner_line lines @ [l]) - length b in
          if t + used \<le> MAX_SCAN_BYTES
          then try_r (validate_version (line_of l)) (\<lambda>_. Ok (used, Some (line_of l)))
          else Err scan_error)"

lemma split_on_begun:
  "c \<notin> set x \<Longrightarrow> split_on c (x @ y) = (x @ hd (split_on c y)) # tl (split_on c y)"
  by (induction x) auto

lemma line_lengths_simps [simp]:
  "line_lengths [] = 0" "line_lengths (l # ls) = Suc (length l + line_lengths ls)"
  "line_lengths (ls @ ms) = line_lengths ls + line_lengths ms"
  by (simp_all add: line_lengths_def)

text \<open>A byte of a line, and the end of a line.\<close>

lemma scan_from_byte:
  assumes "byte \<noteq> 10" and "10 \<notin> set b" and "t < MAX_SCAN_BYTES"
  shows "scan_from t b (byte # data) =
    try_r (scan_from (Suc t) (b @ [byte]) data) (\<lambda>(n, s). Ok (Suc n, s))"
proof -
  let ?lines = "butlast (split_on 10 (b @ byte # data))"
  have split: "split_on 10 (b @ byte # data) =
      ((b @ [byte]) @ hd (split_on 10 data)) # tl (split_on 10 data)"
    using assms split_on_begun [of 10 "b @ [byte]" data] by simp
  show ?thesis
  proof (cases "dropWhile banner_line ?lines")
    case Nil
    then show ?thesis using assms(3) by (simp add: scan_from_def Let_def del: dropWhile_eq_Nil_conv)
  next
    case (Cons l ls)
    let ?used = "line_lengths (takeWhile banner_line ?lines @ [l])"
    have "length b < ?used"
      using Cons unfolding split by (auto split: if_splits)
    then have "?used - length b = Suc (?used - length (b @ [byte]))" by simp
    with Cons show ?thesis
      by (cases "validate_version (line_of l)")
        (simp_all add: scan_from_def Let_def del: dropWhile_eq_Nil_conv line_lengths_simps)
  qed
qed

lemma scan_from_line_feed:
  assumes "10 \<notin> set b" and "t < MAX_SCAN_BYTES"
  shows "scan_from t b (10 # data) =
    (if banner_line b then try_r (scan_from (Suc t) [] data) (\<lambda>(n, s). Ok (Suc n, s))
     else try_r (validate_version (line_of b)) (\<lambda>_. Ok (1, Some (line_of b))))"
proof -
  let ?lines = "butlast (split_on 10 data)"
  have lns: "butlast (split_on 10 (b @ 10 # data)) = b # ?lines"
    using assms by (simp add: split_on_append)
  show ?thesis
  proof (cases "banner_line b")
    case True
    show ?thesis
    proof (cases "dropWhile banner_line ?lines")
      case Nil
      with True assms(2) show ?thesis
        by (simp add: scan_from_def lns del: dropWhile_eq_Nil_conv)
    next
      case (Cons l ls)
      with True show ?thesis
        by (cases "validate_version (line_of l)")
          (simp_all add: scan_from_def lns Let_def del: dropWhile_eq_Nil_conv)
    qed
  next
    case False
    with assms(2) show ?thesis by (simp add: scan_from_def lns Let_def)
  qed
qed

text \<open>At the limit, one more byte is too many, wherever the next line feed is.\<close>

lemma scan_from_full:
  assumes "data \<noteq> []" and "10 \<notin> set b" and "\<not> t < MAX_SCAN_BYTES"
  shows "scan_from t b data = Err scan_error"
proof -
  let ?lines = "butlast (split_on 10 (b @ data))"
  show ?thesis
  proof (cases "dropWhile banner_line ?lines")
    case Nil
    with assms(1,3) show ?thesis
      by (cases data) (simp_all add: scan_from_def del: dropWhile_eq_Nil_conv)
  next
    case (Cons l ls)
    let ?used = "line_lengths (takeWhile banner_line ?lines @ [l])"
    have "length b < ?used"
      using Cons unfolding split_on_begun [OF assms(2)] by (auto split: if_splits)
    then obtain k where "?used - length b = Suc k" by (metis Suc_diff_Suc)
    with Cons assms(3) show ?thesis
      by (simp add: scan_from_def Let_def del: dropWhile_eq_Nil_conv line_lengths_simps)
  qed
qed

lemma ident_outcome_next:
  "ident_outcome (and_then m (\<lambda>n. ret (Suc n)) ex) =
     try_r (ident_outcome (m ex)) (\<lambda>(n, s). Ok (Suc n, s))"
  by (cases "m ex"; cases "fst (m ex)") (auto simp: ident_outcome_def and_then_def)

lemma feed_loop_scans:
  assumes "10 \<notin> set (scan_buf ex)" and "server_ident ex = None"
  shows "total_scanned ex \<le> MAX_SCAN_BYTES \<Longrightarrow>
    ident_outcome (feed_loop data ex) = scan_from (total_scanned ex) (scan_buf ex) data"
  using assms
proof (induction data ex rule: feed_loop.induct)
  case (1 ex)
  then show ?case
    by (simp add: ident_outcome_def scan_from_def split_on_single)
next
  case (2 byte data ex)
  show ?case
  proof (cases "total_scanned ex < MAX_SCAN_BYTES")
    case False
    then show ?thesis using 2(3-5)
      by (simp add: scan_from_full feed_loop.simps(2) ident_outcome_def scan_error_def)
  next
    case t: True
    show ?thesis
    proof (cases "byte = 10")
      case True
      let ?ex = "ex\<lparr>total_scanned := total_scanned ex + 1, scan_buf := []\<rparr>"
      show ?thesis
      proof (cases "banner_line (scan_buf ex)")
        case banner: True
        then have "feed_loop (byte # data) ex = and_then (feed_loop data) (\<lambda>n. ret (Suc n)) ?ex"
          using t True by (simp add: feed_loop.simps(2) Let_def banner_line_def)
        moreover have "ident_outcome (feed_loop data ?ex) = scan_from (total_scanned ?ex) [] data"
          using 2(1) [OF refl _ True refl refl] t banner 2(5) by (simp add: banner_line_def)
        ultimately show ?thesis
          using t True banner 2(4) by (simp add: ident_outcome_next scan_from_line_feed)
      next
        case False
        then have "feed_loop (byte # data) ex = (case validate_version (line_of (scan_buf ex)) of
            Ok _ \<Rightarrow> (Ok 1, ?ex\<lparr>server_ident := Some (line_of (scan_buf ex))\<rparr>)
          | Err e \<Rightarrow> (Err e, ?ex) | Panic \<Rightarrow> (Panic, ?ex))"
          using t True
          by (cases "validate_version (line_of (scan_buf ex))")
            (simp_all add: feed_loop.simps(2) Let_def banner_line_def)
        then show ?thesis
          using t True False 2(4)
          by (cases "validate_version (line_of (scan_buf ex))")
            (simp_all add: ident_outcome_def scan_from_line_feed)
      qed
    next
      case False
      let ?ex = "ex\<lparr>total_scanned := total_scanned ex + 1, scan_buf := scan_buf ex @ [byte]\<rparr>"
      have "feed_loop (byte # data) ex = and_then (feed_loop data) (\<lambda>n. ret (Suc n)) ?ex"
        using t False by (simp add: feed_loop.simps(2) Let_def)
      moreover have "ident_outcome (feed_loop data ?ex) = scan_from (total_scanned ?ex) (scan_buf ?ex) data"
        using 2(2) [OF refl _ False] t False 2(4,5) by simp
      ultimately show ?thesis
        using t False 2(4) by (simp add: ident_outcome_next scan_from_byte)
    qed
  qed
qed

lemma ident_feed_scans: "ident_outcome (ident_feed data ident_new) = ident_scan data"
proof -
  have "ident_outcome (ident_feed data ident_new) = scan_from 0 [] data"
    using feed_loop_scans [of ident_new data]
    by (simp add: ident_feed_def ident_done_def ident_new_def)
  then show ?thesis by (simp add: scan_from_def ident_scan_def cong: list.case_cong)
qed

text \<open>The unfinished line is bounded, also where the limit ends the exchange.\<close>

lemma feed_loop_bounded:
  "length (scan_buf ex) \<le> total_scanned ex \<Longrightarrow> total_scanned ex \<le> MAX_SCAN_BYTES \<Longrightarrow>
     length (scan_buf (snd (feed_loop data ex))) \<le> MAX_SCAN_BYTES"
proof (induction data ex rule: feed_loop.induct)
  case (2 byte data ex)
  have next_state: "snd (and_then m (\<lambda>n. ret (Suc n)) s) = snd (m s)"
    for m :: "(ident_exchange, nat) op" and s
    by (simp add: and_then_def split: prod.split result.split)
  from 2 show ?case
    by (simp add: feed_loop.simps(2) Let_def next_state split: result.split)
qed simp

lemma ident_feed_bounded: "length (scan_buf (snd (ident_feed data ident_new))) \<le> MAX_SCAN_BYTES"
  using feed_loop_bounded [of ident_new data] by (simp add: ident_feed_def ident_done_def ident_new_def)

end
