(* ===== verification/Engine.thy ===== *)
theory Engine
  imports Connection Auth Kex_Dh Kex_Curve Kdf Kexinit Packet Ident
begin

text \<open>
  \<open>ssh-core/src/session.rs\<close>: the session state and every message handler. The state is the
  struct \<open>Session\<close> without its input buffer: the handlers never touch the buffer, so the split
  makes that part of their types. The loop over the buffer and the host's calls are in Session.
\<close>

section \<open>The state\<close>

datatype phase =
    VersionExchange | KexInProgress | AwaitingHostKeyDecision | ServiceRequest | UserAuth
  | Connected | Closed

datatype active_kex = Curve25519 ephemeral_keypair | DhGroup14 client_key_exchange

record derived_ciphers =
  dc_cs :: packet_cipher
  dc_sc :: packet_cipher

datatype pending_auth =
    Password
  | PublicKeyQuery public_key_auth bytes
  | PublicKeySigned

datatype channel_setup_step = AwaitingExecReply | AwaitingPtyReply | AwaitingShellReply

record 'r engine =
  phase :: phase
  rng :: 'r
  outgoing :: bytes
  events :: "event list"
  ident :: ident_exchange
  own_ident_line :: bytes
  peer_ident_line :: bytes
  own_kexinit_payload :: bytes
  peer_kexinit_payload :: bytes
  negotiated :: "negotiated_algorithms option"
  active_kex :: "active_kex option"
  session_id :: "bytes option"
  pending_host_key :: "(host_key \<times> bytes \<times> bytes) option"
  pending_ciphers :: "derived_ciphers option"
  pending_sc_cipher :: "packet_cipher option"
  cs_cipher :: "packet_cipher option"
  sc_cipher :: "packet_cipher option"
  username :: "str option"
  pending_auth :: "pending_auth option"
  channels :: channel_table
  channel_setup :: "u32 \<rightharpoonup> channel_setup_step"
  pending_exec :: "u32 \<rightharpoonup> str"
  pending_pty :: "u32 \<rightharpoonup> pty_options"

text \<open>\<open>Session::new\<close>: the identification line is queued, and kept without its CRLF.\<close>

definition engine_new :: "'r \<Rightarrow> 'r engine" where
  "engine_new r =
     \<lparr>phase = VersionExchange, rng = r, outgoing = client_ident_line, events = [],
      ident = ident_new,
      own_ident_line = take (length client_ident_line - 2) client_ident_line,
      peer_ident_line = [], own_kexinit_payload = [], peer_kexinit_payload = [],
      negotiated = None, active_kex = None, session_id = None, pending_host_key = None,
      pending_ciphers = None, pending_sc_cipher = None, cs_cipher = None, sc_cipher = None,
      username = None, pending_auth = None, channels = table_new, channel_setup = Map.empty,
      pending_exec = Map.empty, pending_pty = Map.empty\<rparr>"

definition push_event :: "event \<Rightarrow> ('r engine, unit) op" where
  "push_event e = update (\<lambda>s. s\<lparr>events := events s @ [e]\<rparr>)"

definition set_phase :: "phase \<Rightarrow> ('r engine, unit) op" where
  "set_phase p = update (\<lambda>s. s\<lparr>phase := p\<rparr>)"

definition fail :: "ssh_error \<Rightarrow> 'r engine \<Rightarrow> 'r engine" where
  "fail err s = s\<lparr>phase := Closed, events := events s @ [Unrecoverable err]\<rparr>"

section \<open>Sending\<close>

definition send_plaintext :: "'r crates \<Rightarrow> bytes \<Rightarrow> ('r engine, unit) op" where
  "send_plaintext E payload s =
     (let (wire, r) = seal_plaintext (fill_buf E) payload (rng s)
      in (Ok (), s\<lparr>rng := r, outgoing := outgoing s @ wire\<rparr>))"

text \<open>\<open>send_ciphered\<close>: the \<open>expect\<close> on the absent cipher is a panic.\<close>

definition send_ciphered :: "'r crates \<Rightarrow> bytes \<Rightarrow> ('r engine, unit) op" where
  "send_ciphered E payload s =
     (case cs_cipher s of
        None \<Rightarrow> (Panic, s)
      | Some c \<Rightarrow>
          (case cipher_seal E payload (c, rng s) of
             (Ok wire, (c', r)) \<Rightarrow>
               (Ok (), s\<lparr>cs_cipher := Some c', rng := r, outgoing := outgoing s @ wire\<rparr>)
           | (Err e, (c', r)) \<Rightarrow> (Err e, s\<lparr>cs_cipher := Some c', rng := r\<rparr>)
           | (Panic, (c', r)) \<Rightarrow> (Panic, s\<lparr>cs_cipher := Some c', rng := r\<rparr>)))"

definition send_plaintext_or_ciphered :: "'r crates \<Rightarrow> bytes \<Rightarrow> ('r engine, unit) op" where
  "send_plaintext_or_ciphered E payload s =
     (case cs_cipher s of
        None \<Rightarrow> send_plaintext E payload s
      | Some _ \<Rightarrow> send_ciphered E payload s)"

definition send_own_kexinit :: "'r crates \<Rightarrow> ('r engine, unit) op" where
  "send_own_kexinit E s =
     (let (kex, r) = kexinit_ours (fill_buf E) (rng s) in
      and_then (lift_r (kexinit_to_payload E kex)) (\<lambda>p.
      and_then (update (\<lambda>s. s\<lparr>own_kexinit_payload := p\<rparr>)) (\<lambda>_. send_plaintext E p))
      (s\<lparr>rng := r\<rparr>))"

section \<open>Key exchange\<close>

definition with_rng :: "('r \<Rightarrow> 'a result \<times> 'r) \<Rightarrow> ('r engine, 'a) op" where
  "with_rng g s = (case g (rng s) of (a, r) \<Rightarrow> (a, s\<lparr>rng := r\<rparr>))"

definition handle_peer_kexinit :: "'r crates \<Rightarrow> bytes \<Rightarrow> ('r engine, unit) op" where
  "handle_peer_kexinit E payload =
     and_then (update (\<lambda>s. s\<lparr>peer_kexinit_payload := payload\<rparr>)) (\<lambda>_.
     and_then (look own_kexinit_payload) (\<lambda>own.
     and_then (lift_r (kexinit_parse E own)) (\<lambda>ours.
     and_then (lift_r (kexinit_parse E payload)) (\<lambda>theirs.
     and_then (lift_r (negotiate_all ours theirs)) (\<lambda>neg.
     and_then
       (if neg_kex neg = lit ''curve25519-sha256'' then
          and_then (with_rng (\<lambda>r. case keypair_generate E r of (k, r') \<Rightarrow> (Ok k, r'))) (\<lambda>kp.
          and_then (update (\<lambda>s. s\<lparr>active_kex := Some (Curve25519 kp)\<rparr>)) (\<lambda>_.
            send_plaintext_or_ciphered E (ecdh_build_init_message kp)))
        else if neg_kex neg = lit ''diffie-hellman-group14-sha256'' then
          and_then (with_rng (dh_generate E)) (\<lambda>kex.
          and_then (lift_r (dh_build_init_message E kex)) (\<lambda>msg.
          and_then (update (\<lambda>s. s\<lparr>active_kex := Some (DhGroup14 kex)\<rparr>)) (\<lambda>_.
            send_plaintext_or_ciphered E msg)))
        else fail_with (Negotiation
          (lit ''kex algorithm implementation missing for negotiated choice'')))
       (\<lambda>_. update (\<lambda>s. s\<lparr>negotiated := Some neg\<rparr>)))))))"

definition active_kex_is_curve25519 :: "'r engine \<Rightarrow> bool" where
  "active_kex_is_curve25519 s =
     (case active_kex s of Some (Curve25519 _) \<Rightarrow> True | _ \<Rightarrow> False)"

definition active_kex_is_dh_group14 :: "'r engine \<Rightarrow> bool" where
  "active_kex_is_dh_group14 s =
     (case active_kex s of Some (DhGroup14 _) \<Rightarrow> True | _ \<Rightarrow> False)"

definition PLAINTEXT_PACKETS_BEFORE_NEWKEYS :: u32 where
  "PLAINTEXT_PACKETS_BEFORE_NEWKEYS = 3"

text \<open>The key material and the two ciphers of \<open>on_kex_result\<close>, from K (as an mpint), H and the id.\<close>

definition derive_ciphers ::
    "'r crates \<Rightarrow> cipher_algorithm \<Rightarrow> bytes \<Rightarrow> bytes \<Rightarrow> bytes \<Rightarrow> derived_ciphers result" where
  "derive_ciphers E alg k_mpint h sid =
     (let (key_len, iv_len) = kdf_material_len alg;
          cs_key = derive E k_mpint h sid TAG_ENC_KEY_CLIENT_TO_SERVER key_len;
          cs_iv = derive E k_mpint h sid TAG_IV_CLIENT_TO_SERVER iv_len;
          sc_key = derive E k_mpint h sid TAG_ENC_KEY_SERVER_TO_CLIENT key_len;
          sc_iv = derive E k_mpint h sid TAG_IV_SERVER_TO_CLIENT iv_len
      in try_r (with_initial_seq alg cs_key cs_iv PLAINTEXT_PACKETS_BEFORE_NEWKEYS) (\<lambda>cs.
         try_r (with_initial_seq alg sc_key sc_iv PLAINTEXT_PACKETS_BEFORE_NEWKEYS) (\<lambda>sc.
           Ok \<lparr>dc_cs = cs, dc_sc = sc\<rparr>)))"

definition on_kex_result ::
    "'r crates \<Rightarrow> host_key \<Rightarrow> bytes \<Rightarrow> bytes \<Rightarrow> ('r engine, unit) op" where
  "on_kex_result E k h shared_secret =
     and_then (look negotiated) (\<lambda>neg_opt.
     and_then (lift_r (expect neg_opt)) (\<lambda>neg.
     and_then (lift_r (ok_or (cipher_from_name (neg_encryption_client_to_server neg))
                         (Negotiation (lit ''cipher'')))) (\<lambda>alg.
     and_then (lift_r (encode_mpint E shared_secret)) (\<lambda>k_mpint.
     and_then (look session_id) (\<lambda>sid_opt.
     and_then (lift_r (derive_ciphers E alg k_mpint h
                         (case sid_opt of Some i \<Rightarrow> i | None \<Rightarrow> h))) (\<lambda>ciphers.
     and_then (update (\<lambda>s. s\<lparr>pending_ciphers := Some ciphers,
                            session_id := (case session_id s of Some i \<Rightarrow> Some i | None \<Rightarrow> Some h),
                            pending_host_key := Some (k, h, shared_secret),
                            phase := AwaitingHostKeyDecision\<rparr>)) (\<lambda>_.
       push_event (HostKeyVerify (algorithm_name E k) (fingerprint_sha256 E k) (hk_blob k)))))))))"

text \<open>\<open>active_kex.take()\<close> empties the slot also where a later step fails.\<close>

definition handle_curve25519_reply :: "'r crates \<Rightarrow> bytes \<Rightarrow> ('r engine, unit) op" where
  "handle_curve25519_reply E payload =
     and_then (lift_r (ecdh_parse_reply payload)) (\<lambda>reply.
     and_then (look active_kex) (\<lambda>taken.
     and_then (update (\<lambda>s. s\<lparr>active_kex := None\<rparr>)) (\<lambda>_.
     and_then (lift_r (case taken of Some (Curve25519 kp) \<Rightarrow> Ok kp | _ \<Rightarrow> Panic)) (\<lambda>kp.
     and_then (lift_r (ecdh_diffie_hellman E kp (er_server_public reply))) (\<lambda>shared_secret.
     and_then (look (\<lambda>s. s)) (\<lambda>s.
     and_then (lift_r (ecdh_exchange_hash E (own_ident_line s) (peer_ident_line s)
                 (own_kexinit_payload s) (peer_kexinit_payload s) (er_host_key_blob reply)
                 (kp_public_bytes kp) (er_server_public reply) shared_secret)) (\<lambda>h.
     and_then (lift_r (ecdh_verify_reply_signature E reply h)) (\<lambda>k.
       on_kex_result E k h shared_secret))))))))"

definition handle_dh_group14_reply :: "'r crates \<Rightarrow> bytes \<Rightarrow> ('r engine, unit) op" where
  "handle_dh_group14_reply E payload =
     and_then (lift_r (dh_parse_reply payload)) (\<lambda>reply.
     and_then (look active_kex) (\<lambda>taken.
     and_then (update (\<lambda>s. s\<lparr>active_kex := None\<rparr>)) (\<lambda>_.
     and_then (lift_r (case taken of Some (DhGroup14 kex) \<Rightarrow> Ok kex | _ \<Rightarrow> Panic)) (\<lambda>kex.
     and_then (lift_r (dh_diffie_hellman E kex (dhr_f_bytes reply))) (\<lambda>shared_secret.
     and_then (look (\<lambda>s. s)) (\<lambda>s.
     and_then (lift_r (dh_exchange_hash E (own_ident_line s) (peer_ident_line s)
                 (own_kexinit_payload s) (peer_kexinit_payload s) (dhr_host_key_blob reply)
                 (dh_e_bytes kex) (dhr_f_bytes reply) shared_secret)) (\<lambda>h.
     and_then (lift_r (dh_verify_reply_signature E reply h)) (\<lambda>k.
       on_kex_result E k h shared_secret))))))))"

definition handle_newkeys :: "('r engine, unit) op" where
  "handle_newkeys =
     and_then (update (\<lambda>s. s\<lparr>sc_cipher := pending_sc_cipher s, pending_sc_cipher := None\<rparr>)) (\<lambda>_.
     and_then (look (\<lambda>s. cs_cipher s = None \<or> sc_cipher s = None)) (\<lambda>missing.
       if missing then fail_with (UnexpectedMessage (lit ''NewKeys'') MSG_NEWKEYS) else ret ()))"

section \<open>User authentication\<close>

definition handle_service_accept :: "bytes \<Rightarrow> ('r engine, unit) op" where
  "handle_service_accept payload =
     and_then (lift_r (parse_service_accept payload)) (\<lambda>service.
       if service \<noteq> SERVICE_USERAUTH then fail_with (Negotiation (lit ''service''))
       else and_then (set_phase UserAuth) (\<lambda>_. push_event ReadyForAuth))"

definition handle_userauth_failure :: "bytes \<Rightarrow> ('r engine, unit) op" where
  "handle_userauth_failure payload =
     and_then (lift_r (parse_userauth_failure payload)) (\<lambda>failure.
     and_then (update (\<lambda>s. s\<lparr>pending_auth := None\<rparr>)) (\<lambda>_.
       push_event (AuthFailure (af_remaining_methods failure))))"

definition handle_userauth_success :: "('r engine, unit) op" where
  "handle_userauth_success =
     and_then (update (\<lambda>s. s\<lparr>pending_auth := None\<rparr>)) (\<lambda>_.
     and_then (set_phase Connected) (\<lambda>_. push_event AuthSuccess))"

definition handle_userauth_pk_ok :: "'r crates \<Rightarrow> bytes \<Rightarrow> ('r engine, unit) op" where
  "handle_userauth_pk_ok E payload =
     and_then (look pending_auth) (\<lambda>taken.
     and_then (update (\<lambda>s. s\<lparr>pending_auth := None\<rparr>)) (\<lambda>_.
       case taken of
         Some (PublicKeyQuery a private_key) \<Rightarrow>
           and_then (lift_r (parse_pk_ok payload)) (\<lambda>_.
           and_then (look session_id) (\<lambda>sid_opt.
           and_then (lift_r (expect sid_opt)) (\<lambda>sid.
           and_then (lift_r (build_signed_request E a sid private_key)) (\<lambda>signed.
           and_then (update (\<lambda>s. s\<lparr>pending_auth := Some PublicKeySigned\<rparr>)) (\<lambda>_.
             send_ciphered E signed)))))
       | other \<Rightarrow>
           and_then (update (\<lambda>s. s\<lparr>pending_auth := other\<rparr>)) (\<lambda>_.
             fail_with (UnsupportedAuthMethod (lit ''password change (PASSWD_CHANGEREQ)'')))))"

section \<open>Channels\<close>

definition remote_id_of :: "u32 \<Rightarrow> 'r engine \<Rightarrow> u32 option" where
  "remote_id_of cid s = Option.bind (table_get (channels s) cid) remote_id"

definition remove_setup :: "u32 \<Rightarrow> ('r engine, unit) op" where
  "remove_setup cid = update (\<lambda>s. s\<lparr>channel_setup := (channel_setup s)(cid := None)\<rparr>)"

text \<open>
  \<open>continue_channel_setup\<close>: no reply yet right after the confirmation, or the outcome of the
  current step. \<open>pending_exec.remove(..).unwrap_or_default()\<close> is the empty command when absent.
\<close>

definition continue_channel_setup ::
    "'r crates \<Rightarrow> u32 \<Rightarrow> bool option \<Rightarrow> ('r engine, unit) op" where
  "continue_channel_setup E cid reply =
     and_then (look (\<lambda>s. channel_setup s cid)) (\<lambda>step_opt.
     case step_opt of
       None \<Rightarrow> ret ()
     | Some step \<Rightarrow>
       if reply = Some False then
         and_then (remove_setup cid) (\<lambda>_.
         and_then (look (remote_id_of cid)) (\<lambda>rid_opt.
         and_then (update (\<lambda>s. s\<lparr>channels := table_remove cid (channels s)\<rparr>)) (\<lambda>_.
         and_then (case rid_opt of
             Some rid \<Rightarrow> send_ciphered E (MSG_CHANNEL_CLOSE # write_u32 rid)
           | None \<Rightarrow> ret ()) (\<lambda>_.
           push_event (ChannelOpenFailed cid 0 (lit ''channel setup request failed''))))))
       else
         and_then (look (remote_id_of cid)) (\<lambda>rid_opt.
         and_then (lift_r (expect rid_opt)) (\<lambda>rid.
           case step of
             AwaitingExecReply \<Rightarrow>
               if reply = None then
                 and_then (look (\<lambda>s. case pending_exec s cid of Some c \<Rightarrow> c | None \<Rightarrow> [])) (\<lambda>command.
                 and_then (update (\<lambda>s. s\<lparr>pending_exec := (pending_exec s)(cid := None)\<rparr>)) (\<lambda>_.
                   send_ciphered E (exec_build_request rid command)))
               else remove_setup cid
           | AwaitingPtyReply \<Rightarrow>
               if reply = None then
                 and_then (look (\<lambda>s. case pending_pty s cid of Some p \<Rightarrow> p | None \<Rightarrow> pty_default)) (\<lambda>pty.
                 and_then (update (\<lambda>s. s\<lparr>pending_pty := (pending_pty s)(cid := None)\<rparr>)) (\<lambda>_.
                   send_ciphered E (build_pty_request rid pty)))
               else
                 and_then (update (\<lambda>s. s\<lparr>channel_setup :=
                     (channel_setup s)(cid \<mapsto> AwaitingShellReply)\<rparr>)) (\<lambda>_.
                   send_ciphered E (build_shell_request rid))
           | AwaitingShellReply \<Rightarrow> remove_setup cid)))"

definition on_channels :: "(channel_table, 'a) op \<Rightarrow> ('r engine, 'a) op" where
  "on_channels m s = (case m (channels s) of (r, t) \<Rightarrow> (r, s\<lparr>channels := t\<rparr>))"

definition handle_channel_message :: "'r crates \<Rightarrow> byte \<Rightarrow> bytes \<Rightarrow> ('r engine, unit) op" where
  "handle_channel_message E msg_type payload =
     and_then (on_channels (table_handle msg_type payload)) (\<lambda>(evs, out).
     and_then (for_each (\<lambda>ev. case ev of
         ChannelOpened cid \<Rightarrow> continue_channel_setup E cid None
       | _ \<Rightarrow> ret ()) evs) (\<lambda>_.
     and_then (for_each push_event evs) (\<lambda>_.
       for_each (send_ciphered E) out)))"

definition channel_id_of_reply :: "(reader, u32) op" where
  "channel_id_of_reply = and_then read_u8 (\<lambda>_. read_u32)"

definition handle_channel_success :: "'r crates \<Rightarrow> bytes \<Rightarrow> ('r engine, unit) op" where
  "handle_channel_success E payload =
     and_then (lift_r (parse_with channel_id_of_reply payload)) (\<lambda>cid.
       continue_channel_setup E cid (Some True))"

definition handle_channel_failure :: "'r crates \<Rightarrow> bytes \<Rightarrow> ('r engine, unit) op" where
  "handle_channel_failure E payload =
     and_then (lift_r (parse_with channel_id_of_reply payload)) (\<lambda>cid.
       continue_channel_setup E cid (Some False))"

definition handle_global_request :: "'r crates \<Rightarrow> bytes \<Rightarrow> ('r engine, unit) op" where
  "handle_global_request E payload =
     and_then (lift_r (parse_with
       (and_then read_u8 (\<lambda>_. and_then read_string (\<lambda>_. read_bool))) payload)) (\<lambda>want_reply.
       if want_reply then send_ciphered E [MSG_REQUEST_FAILURE] else ret ())"

section \<open>Dispatch\<close>

definition handle_disconnect :: "bytes \<Rightarrow> ('r engine, unit) op" where
  "handle_disconnect payload =
     and_then (lift_r (parse_with
       (and_then read_u8 (\<lambda>_.
        and_then read_u32 (\<lambda>reason_code.
        and_then (or_empty read_utf8_string) (\<lambda>description.
          ret (reason_code, description))))) payload)) (\<lambda>(reason_code, description).
     and_then (set_phase Closed) (\<lambda>_. push_event (Disconnected reason_code description)))"

definition is_channel_message :: "byte \<Rightarrow> bool" where
  "is_channel_message t \<longleftrightarrow>
     t \<in> {MSG_CHANNEL_OPEN_CONFIRMATION, MSG_CHANNEL_OPEN_FAILURE, MSG_CHANNEL_WINDOW_ADJUST,
          MSG_CHANNEL_DATA, MSG_CHANNEL_EXTENDED_DATA, MSG_CHANNEL_EOF, MSG_CHANNEL_CLOSE,
          MSG_CHANNEL_REQUEST}"

definition dispatch :: "'r crates \<Rightarrow> byte \<Rightarrow> bytes \<Rightarrow> ('r engine, unit) op" where
  "dispatch E msg_type payload s =
     (if msg_type = 1 then handle_disconnect payload s
      else if msg_type = 2 \<or> msg_type = 3 \<or> msg_type = 4 then ret () s
      else if msg_type = MSG_KEXINIT then handle_peer_kexinit E payload s
      else if msg_type = MSG_KEX_ECDH_REPLY \<and> active_kex_is_curve25519 s
        then handle_curve25519_reply E payload s
      else if msg_type = MSG_KEXDH_REPLY \<and> active_kex_is_dh_group14 s
        then handle_dh_group14_reply E payload s
      else if msg_type = MSG_NEWKEYS then handle_newkeys s
      else if msg_type = MSG_SERVICE_ACCEPT then handle_service_accept payload s
      else if msg_type = MSG_USERAUTH_FAILURE then handle_userauth_failure payload s
      else if msg_type = MSG_USERAUTH_SUCCESS then handle_userauth_success s
      else if msg_type = MSG_USERAUTH_PK_OK then handle_userauth_pk_ok E payload s
      else if is_channel_message msg_type then handle_channel_message E msg_type payload s
      else if msg_type = MSG_CHANNEL_SUCCESS then handle_channel_success E payload s
      else if msg_type = MSG_CHANNEL_FAILURE then handle_channel_failure E payload s
      else if msg_type = MSG_GLOBAL_REQUEST then handle_global_request E payload s
      else fail_with (UnexpectedMessage (lit ''dispatch'') msg_type) s)"

text \<open>The message numbers, for deciding which arm a literal type byte takes.\<close>

lemmas msg_codes = MSG_KEXINIT_def MSG_KEX_ECDH_REPLY_def MSG_KEXDH_REPLY_def MSG_NEWKEYS_def
  MSG_SERVICE_ACCEPT_def MSG_USERAUTH_FAILURE_def MSG_USERAUTH_SUCCESS_def MSG_USERAUTH_PK_OK_def
  MSG_GLOBAL_REQUEST_def channel_msg_defs is_channel_message_def

end
