(* ===== verification/Session.thy ===== *)
theory Session
  imports Engine
begin

text \<open>
  \<open>ssh-core/src/session.rs\<close>: the input buffer, the loop that consumes it, and the calls of the
  host. A call that panics leaves \<open>Panic\<close> as its outcome: the WebAssembly instance is gone then,
  and nothing is said about later calls.
\<close>

section \<open>The input buffer\<close>

record 'r session =
  core :: "'r engine"
  incoming :: bytes

definition session_new :: "'r \<Rightarrow> 'r session" where
  "session_new r = \<lparr>core = engine_new r, incoming = []\<rparr>"

definition on_core :: "('r engine, 'a) op \<Rightarrow> ('r session, 'a) op" where
  "on_core m s = (case m (core s) of (r, c) \<Rightarrow> (r, s\<lparr>core := c\<rparr>))"

text \<open>\<open>self.ident.feed(&self.incoming)\<close> followed by \<open>drain(0..consumed)\<close>.\<close>

definition feed_ident :: "('r session, unit) op" where
  "feed_ident s =
     (case ident_feed (incoming s) (ident (core s)) of
        (Ok consumed, ex) \<Rightarrow>
          (Ok (), s\<lparr>core := (core s)\<lparr>ident := ex\<rparr>, incoming := drop consumed (incoming s)\<rparr>)
      | (Err e, ex) \<Rightarrow> (Err e, s\<lparr>core := (core s)\<lparr>ident := ex\<rparr>\<rparr>)
      | (Panic, ex) \<Rightarrow> (Panic, s\<lparr>core := (core s)\<lparr>ident := ex\<rparr>\<rparr>))"

text \<open>What follows the server's identification line.\<close>

definition ident_complete :: "'r crates \<Rightarrow> ('r engine, unit) op" where
  "ident_complete E =
     and_then (look (\<lambda>s. server_ident (ident s))) (\<lambda>line_opt.
     and_then (lift_r (expect line_opt)) (\<lambda>line.
     and_then (update (\<lambda>s. s\<lparr>peer_ident_line := line, phase := KexInProgress\<rparr>)) (\<lambda>_.
       send_own_kexinit E)))"

definition drive_version_exchange :: "'r crates \<Rightarrow> ('r session, bool) op" where
  "drive_version_exchange E s =
     (if ident_done (ident (core s)) then (Ok False, s)
      else and_then feed_ident (\<lambda>_.
           and_then (look (\<lambda>s. ident_done (ident (core s)))) (\<lambda>d.
             if \<not> d then ret False
             else and_then (on_core (ident_complete E)) (\<lambda>_. ret True))) s)"

section \<open>One packet\<close>

definition expected_len :: "'r crates \<Rightarrow> 'r engine \<Rightarrow> bytes \<Rightarrow> nat result" where
  "expected_len E c first4 =
     (case sc_cipher c of
        None \<Rightarrow> peek_plaintext_length first4
      | Some ci \<Rightarrow> peek_total_length E ci first4)"

definition open_packet :: "'r crates \<Rightarrow> bytes \<Rightarrow> ('r engine, bytes) op" where
  "open_packet E wire s =
     (case sc_cipher s of
        None \<Rightarrow> (open_plaintext wire, s)
      | Some ci \<Rightarrow> (case cipher_open E wire ci of (r, ci') \<Rightarrow> (r, s\<lparr>sc_cipher := Some ci'\<rparr>)))"

definition handle_packet :: "'r crates \<Rightarrow> bytes \<Rightarrow> ('r engine, bool) op" where
  "handle_packet E wire =
     and_then (open_packet E wire) (\<lambda>payload.
       case payload of
         [] \<Rightarrow> fail_with (Framing (lit ''empty packet payload''))
       | msg_type # _ \<Rightarrow> and_then (dispatch E msg_type payload) (\<lambda>_. ret True))"

definition drive_packet_phase :: "'r crates \<Rightarrow> ('r session, bool) op" where
  "drive_packet_phase E s =
     (if length (incoming s) < 4 then (Ok False, s)
      else case expected_len E (core s) (take 4 (incoming s)) of
        Err e \<Rightarrow> (Err e, s)
      | Panic \<Rightarrow> (Panic, s)
      | Ok total_len \<Rightarrow>
          if length (incoming s) < total_len then (Ok False, s)
          else on_core (handle_packet E (take total_len (incoming s)))
                 (s\<lparr>incoming := drop total_len (incoming s)\<rparr>))"

section \<open>The loop\<close>

definition paused :: "'r engine \<Rightarrow> bool" where
  "paused c \<longleftrightarrow> phase c = Closed \<or> phase c = AwaitingHostKeyDecision"

definition drive_step :: "'r crates \<Rightarrow> ('r session, bool) op" where
  "drive_step E s =
     (if phase (core s) = VersionExchange then drive_version_exchange E s
      else drive_packet_phase E s)"

definition fail_session :: "ssh_error \<Rightarrow> 'r session \<Rightarrow> 'r session" where
  "fail_session e s = s\<lparr>core := fail e (core s)\<rparr>"

text \<open>Every turn that makes progress consumes input, so the loop ends.\<close>

lemma on_core_incoming [simp]: "on_core m s = (r, s') \<Longrightarrow> incoming s' = incoming s"
  by (auto simp: on_core_def split: prod.splits)

lemma expected_len_pos: "expected_len E c b = Ok n \<Longrightarrow> 5 \<le> n"
  using peek_plaintext_bounds [of b n] peek_total_bounds [of E _ b n]
  by (fastforce simp: expected_len_def split: option.splits)

lemma drive_packet_phase_progress:
  assumes "drive_packet_phase E s = (Ok True, s')"
  shows "length (incoming s') < length (incoming s)"
  using assms
  by (auto simp: drive_packet_phase_def dest!: expected_len_pos on_core_incoming
      split: result.splits if_splits)

lemma drive_version_exchange_progress:
  assumes "drive_version_exchange E s = (Ok True, s')"
  shows "length (incoming s') < length (incoming s)"
proof -
  from assms obtain s1 where nd: "\<not> ident_done (ident (core s))" and f: "feed_ident s = (Ok (), s1)"
    and d: "ident_done (ident (core s1))" and i: "incoming s' = incoming s1"
    by (auto simp: drive_version_exchange_def and_then_eq_Ok split: if_splits)
  from f nd obtain n ex where "feed_loop (incoming s) (ident (core s)) = (Ok n, ex)"
    and "incoming s1 = drop n (incoming s)" and "ident (core s1) = ex"
    by (auto simp: feed_ident_def ident_feed_def split: prod.splits result.splits)
  with feed_loop_consumed [of "incoming s"] nd d i show ?thesis by fastforce
qed

lemma drive_step_progress:
  "drive_step E s = (Ok True, s') \<Longrightarrow> length (incoming s') < length (incoming s)"
  by (auto simp: drive_step_def drive_packet_phase_progress drive_version_exchange_progress
      split: if_splits)

function drive :: "'r crates \<Rightarrow> ('r session, unit) op" where
  "drive E s =
     (if paused (core s) then (Ok (), s)
      else case drive_step E s of
        (Ok progressed, s') \<Rightarrow> if progressed then drive E s' else (Ok (), s')
      | (Err e, s') \<Rightarrow> (Ok (), fail_session e s')
      | (Panic, s') \<Rightarrow> (Panic, s'))"
  by pat_completeness auto
termination
  by (relation "measure (\<lambda>(E, s). length (incoming s))") (auto dest: drive_step_progress [OF sym])

declare drive.simps [simp del]

lemma drive_progress:
  "\<not> paused (core s) \<Longrightarrow> drive_step E s = (Ok True, s1) \<Longrightarrow> drive E s = drive E s1"
  by (simp add: drive.simps [of E s])

lemma drive_waits:
  "\<not> paused (core s) \<Longrightarrow> drive_step E s = (Ok False, s1) \<Longrightarrow> drive E s = (Ok (), s1)"
  by (simp add: drive.simps [of E s])

lemma drive_cases [consumes 1, case_names paused progress waits error]:
  assumes "drive E s = (Ok (), s')"
  obtains "paused (core s)" "s' = s"
  | s1 where "\<not> paused (core s)" "drive_step E s = (Ok True, s1)" "drive E s1 = (Ok (), s')"
  | "\<not> paused (core s)" "drive_step E s = (Ok False, s')"
  | e s1 where "\<not> paused (core s)" "drive_step E s = (Err e, s1)" "s' = fail_session e s1"
proof (cases "paused (core s)")
  case True
  then have "s' = s" using assms by (simp add: drive.simps [of E s])
  with True that(1) show thesis by blast
next
  case False
  obtain r s1 where "drive_step E s = (r, s1)" by fastforce
  show thesis
  proof (cases r)
    case (Ok b)
    show thesis
    proof (cases b)
      case True
      from assms have "drive E s1 = (Ok (), s')"
        using \<open>drive_step E s = (r, s1)\<close> Ok True False by (simp add: drive.simps [of E s])
      moreover have "drive_step E s = (Ok True, s1)"
        using \<open>drive_step E s = (r, s1)\<close> Ok True by simp
      ultimately show thesis using that(2) False by blast
    next
      case b: False
      from assms have "s' = s1"
        using \<open>drive_step E s = (r, s1)\<close> Ok b False by (simp add: drive.simps [of E s])
      moreover have "drive_step E s = (Ok False, s1)"
        using \<open>drive_step E s = (r, s1)\<close> Ok b by simp
      ultimately show thesis using that(3) False by blast
    qed
  next
    case (Err e)
    from assms have "s' = fail_session e s1"
      using \<open>drive_step E s = (r, s1)\<close> Err False by (simp add: drive.simps [of E s])
    with that(4) False \<open>drive_step E s = (r, s1)\<close> [unfolded Err] show thesis by blast
  next
    case Panic
    with assms False \<open>drive_step E s = (r, s1)\<close> show thesis by (simp add: drive.simps [of E s])
  qed
qed

section \<open>The calls of the host\<close>

definition poll_event :: "'r session \<Rightarrow> event option \<times> 'r session" where
  "poll_event s =
     (case events (core s) of
        [] \<Rightarrow> (None, s)
      | e # es \<Rightarrow> (Some e, s\<lparr>core := (core s)\<lparr>events := es\<rparr>\<rparr>))"

definition take_outgoing :: "bytes \<Rightarrow> 'r session \<Rightarrow> (bytes \<times> nat) \<times> 'r session" where
  "take_outgoing out s =
     ((out @ outgoing (core s), length (outgoing (core s))), s\<lparr>core := (core s)\<lparr>outgoing := []\<rparr>\<rparr>)"

definition feed_incoming :: "'r crates \<Rightarrow> bytes \<Rightarrow> ('r session, unit) op" where
  "feed_incoming E data s = drive E (s\<lparr>incoming := incoming s @ data\<rparr>)"

definition notify_transport_closed :: "('r session, unit) op" where
  "notify_transport_closed s =
     (Ok (), if phase (core s) \<noteq> Closed then fail_session TransportClosed s else s)"

text \<open>Accepting the host key: NEWKEYS in plaintext, then the first encrypted message.\<close>

definition accept_host_key :: "'r crates \<Rightarrow> ('r engine, unit) op" where
  "accept_host_key E =
     and_then (update (\<lambda>s. s\<lparr>pending_host_key := None\<rparr>)) (\<lambda>_.
     and_then (send_plaintext E [MSG_NEWKEYS]) (\<lambda>_.
     and_then (update (\<lambda>s. case pending_ciphers s of
         Some ciphers \<Rightarrow> s\<lparr>pending_ciphers := None, cs_cipher := Some (dc_cs ciphers),
                          pending_sc_cipher := Some (dc_sc ciphers)\<rparr>
       | None \<Rightarrow> s)) (\<lambda>_.
     and_then (set_phase ServiceRequest) (\<lambda>_.
       send_ciphered E (build_service_request SERVICE_USERAUTH)))))"

definition provide_host_key_decision :: "'r crates \<Rightarrow> bool \<Rightarrow> ('r session, unit) op" where
  "provide_host_key_decision E accept s =
     (if phase (core s) \<noteq> AwaitingHostKeyDecision then (Ok (), s)
      else if \<not> accept then (Ok (), fail_session HostKeyRejected s)
      else and_then (on_core (accept_host_key E)) (\<lambda>_. drive E) s)"

definition authenticate_password :: "'r crates \<Rightarrow> str \<Rightarrow> str \<Rightarrow> ('r engine, unit) op" where
  "authenticate_password E user password s =
     (if phase s \<noteq> UserAuth then (Ok (), s)
      else send_ciphered E (password_build_request user password)
             (s\<lparr>username := Some user, pending_auth := Some Password\<rparr>))"

definition authenticate_publickey :: "'r crates \<Rightarrow> str \<Rightarrow> bytes \<Rightarrow> ('r engine, unit) op" where
  "authenticate_publickey E user private_key s =
     (if phase s \<noteq> UserAuth then (Ok (), s)
      else and_then (update (\<lambda>s. s\<lparr>username := Some user\<rparr>)) (\<lambda>_.
           and_then (lift_r (public_key_auth_new E user private_key)) (\<lambda>a.
           and_then (update (\<lambda>s. s\<lparr>pending_auth := Some (PublicKeyQuery a private_key)\<rparr>)) (\<lambda>_.
             send_ciphered E (build_query a)))) s)"

definition open_exec :: "'r crates \<Rightarrow> str \<Rightarrow> ('r engine, u32) op" where
  "open_exec E command =
     and_then (on_channels (\<lambda>t. case table_open Exec t of (r, t') \<Rightarrow> (Ok r, t'))) (\<lambda>(cid, open_msg).
     and_then (update (\<lambda>s. s\<lparr>channel_setup := (channel_setup s)(cid \<mapsto> AwaitingExecReply),
                            pending_exec := (pending_exec s)(cid \<mapsto> command)\<rparr>)) (\<lambda>_.
     and_then (send_ciphered E open_msg) (\<lambda>_. ret cid)))"

definition open_shell :: "'r crates \<Rightarrow> pty_options \<Rightarrow> ('r engine, u32) op" where
  "open_shell E pty =
     and_then (on_channels (\<lambda>t. case table_open Shell t of (r, t') \<Rightarrow> (Ok r, t'))) (\<lambda>(cid, open_msg).
     and_then (update (\<lambda>s. s\<lparr>channel_setup := (channel_setup s)(cid \<mapsto> AwaitingPtyReply),
                            pending_pty := (pending_pty s)(cid \<mapsto> pty)\<rparr>)) (\<lambda>_.
     and_then (send_ciphered E open_msg) (\<lambda>_. ret cid)))"

definition channel_send :: "'r crates \<Rightarrow> u32 \<Rightarrow> bytes \<Rightarrow> ('r engine, nat) op" where
  "channel_send E cid data s =
     (if table_get (channels s) cid = None then (Ok 0, s)
      else and_then (on_channels (channel_mut cid (build_data_messages data))) (\<lambda>(consumed, messages).
           and_then (for_each (send_ciphered E) messages) (\<lambda>_.
           and_then (if consumed < length data then push_event (ChannelWindowFull cid) else ret ()) (\<lambda>_.
             ret consumed))) s)"

definition resize_pty :: "'r crates \<Rightarrow> u32 \<Rightarrow> u32 \<Rightarrow> u32 \<Rightarrow> ('r engine, unit) op" where
  "resize_pty E cid cols rows s =
     (case remote_id_of cid s of
        Some rid \<Rightarrow> send_ciphered E (build_window_change_request rid cols rows 0 0) s
      | None \<Rightarrow> (Ok (), s))"

definition close_channel :: "'r crates \<Rightarrow> u32 \<Rightarrow> ('r engine, unit) op" where
  "close_channel E cid s =
     (case table_get (channels s) cid of
        None \<Rightarrow> (Ok (), s)
      | Some ch \<Rightarrow>
          if remote_id ch \<noteq> None
          then and_then (lift_r (build_close_message ch)) (send_ciphered E) s
          else (Ok (), s))"

end
