(* ===== verification/Session_Feed.thy ===== *)
theory Session_Feed
  imports Session
begin

text \<open>
  Feeding the session: the loop leaves no complete packet behind, and the way the transport cuts
  the byte stream into pieces does not matter.
\<close>

section \<open>What the loop leaves behind\<close>

text \<open>
  Nothing can be done with the buffer as it is: the session is paused, or waits for the rest of
  the identification line with everything scanned, or for the rest of a packet.
\<close>

definition quiescent :: "'r crates \<Rightarrow> 'r session \<Rightarrow> bool" where
  "quiescent E s \<longleftrightarrow>
     paused (core s) \<or>
     (phase (core s) = VersionExchange \<and> (ident_done (ident (core s)) \<or> incoming s = [])) \<or>
     (phase (core s) \<noteq> VersionExchange \<and>
        (length (incoming s) < 4 \<or>
         (\<exists>n. expected_len E (core s) (take 4 (incoming s)) = Ok n \<and> length (incoming s) < n)))"

lemma drive_version_exchange_False:
  assumes "drive_version_exchange E s = (Ok False, s')" and "\<not> ident_done (ident (core s))"
  shows "incoming s' = [] \<and> \<not> ident_done (ident (core s')) \<and>
    core s' = (core s)\<lparr>ident := ident (core s')\<rparr> \<and>
    feed_loop (incoming s) (ident (core s)) = (Ok (length (incoming s)), ident (core s'))"
proof -
  from assms have f: "feed_ident s = (Ok (), s')" and nd: "\<not> ident_done (ident (core s'))"
    by (auto simp: drive_version_exchange_def and_then_eq_Ok split: if_splits)
  from f assms(2) obtain n ex where l: "feed_loop (incoming s) (ident (core s)) = (Ok n, ex)"
    and s': "s' = s\<lparr>core := (core s)\<lparr>ident := ex\<rparr>, incoming := drop n (incoming s)\<rparr>"
    by (auto simp: feed_ident_def ident_feed_def split: prod.splits result.splits)
  with feed_loop_consumed [OF l assms(2)] nd show ?thesis by simp
qed

lemma handle_packet_progress [simp]: "on_core (handle_packet E w) t \<noteq> (Ok False, t')"
proof
  assume "on_core (handle_packet E w) t = (Ok False, t')"
  then obtain c' where "handle_packet E w (core t) = (Ok False, c')"
    by (auto simp: on_core_def split: prod.splits)
  then obtain p c where "(case p of [] \<Rightarrow> fail_with (Framing (lit ''empty packet payload''))
       | msg_type # _ \<Rightarrow> and_then (dispatch E msg_type p) (\<lambda>_. ret True)) c = (Ok False, c')"
    by (auto simp: handle_packet_def and_then_eq_Ok)
  then show False by (cases p) (auto simp: and_then_eq_Ok)
qed

lemma drive_step_quiescent:
  assumes "drive_step E s = (Ok False, s')"
  shows "quiescent E s'"
proof (cases "phase (core s) = VersionExchange")
  case True
  then have v: "drive_version_exchange E s = (Ok False, s')"
    using assms by (simp add: drive_step_def)
  show ?thesis
  proof (cases "ident_done (ident (core s))")
    case True
    with v \<open>phase (core s) = VersionExchange\<close> show ?thesis
      by (auto simp: drive_version_exchange_def quiescent_def)
  next
    case False
    from drive_version_exchange_False [OF v this] have "incoming s' = []"
      and "core s' = (core s)\<lparr>ident := ident (core s')\<rparr>" by simp_all
    moreover from this(2) True have "phase (core s') = VersionExchange"
      by (metis engine.select_convs(1) engine.surjective engine.update_convs(5))
    ultimately show ?thesis by (simp add: quiescent_def)
  qed
next
  case False
  with assms have "drive_packet_phase E s = (Ok False, s')" by (simp add: drive_step_def)
  with False show ?thesis
    by (auto simp: drive_packet_phase_def quiescent_def split: if_splits result.splits)
qed

lemma drive_quiescent: "drive E s = (Ok (), s') \<Longrightarrow> quiescent E s'"
proof (induction E s rule: drive.induct)
  case (1 E s)
  obtain r s1 where step: "drive_step E s = (r, s1)" by fastforce
  show ?case
  proof (cases "paused (core s)")
    case True
    with 1(2) show ?thesis by (simp add: drive.simps quiescent_def)
  next
    case np: False
    show ?thesis
    proof (cases "\<exists>e. r = Err e")
      case True
      with np 1(2) step show ?thesis
        by (auto simp: drive.simps [of E s] quiescent_def fail_session_def fail_def paused_def)
    next
      case False
      with np 1 step show ?thesis
        by (auto simp: drive.simps [of E s] split: result.splits if_splits dest: drive_step_quiescent)
    qed
  qed
qed

section \<open>More input behind the buffer\<close>

definition push :: "bytes \<Rightarrow> 'r session \<Rightarrow> 'r session" where
  "push ys s = s\<lparr>incoming := incoming s @ ys\<rparr>"

lemma push_simps [simp]:
  "core (push ys s) = core s" "incoming (push ys s) = incoming s @ ys"
  "push [] s = s" "push ys (push xs s) = push (xs @ ys) s"
  by (simp_all add: push_def)

lemma on_core_push [simp]:
  "on_core m (push ys s) = (case on_core m s of (r, s') \<Rightarrow> (r, push ys s'))"
  by (simp add: on_core_def push_def split: prod.split)

text \<open>
  A turn that makes progress or fails does the same with more input behind the buffer, except
  that a failing scan of the identification leaves its input where it is.
\<close>

lemma packet_phase_push:
  assumes "drive_packet_phase E s = (r, s')" and "r \<noteq> Ok False"
  shows "drive_packet_phase E (push ys s) = (r, push ys s')"
proof -
  have len: "4 \<le> length (incoming s)" using assms by (auto simp: drive_packet_phase_def split: if_splits)
  then have t: "take 4 (incoming s @ ys) = take 4 (incoming s)" by simp
  show ?thesis
  proof (cases "expected_len E (core s) (take 4 (incoming s))")
    case (Ok n)
    with assms len have n: "n \<le> length (incoming s)"
      by (auto simp: drive_packet_phase_def split: if_splits)
    with assms(1) len t Ok show ?thesis
      by (auto simp: drive_packet_phase_def on_core_def push_def split: prod.splits)
  qed (use assms(1) len t in \<open>auto simp: drive_packet_phase_def\<close>)
qed

lemma feed_ident_push:
  assumes "feed_ident s = (r, s')" and "\<not> ident_done (ident (core s))"
    and "r \<noteq> Ok () \<or> ident_done (ident (core s'))"
  shows "feed_ident (push ys s) = (r, push ys s')"
proof -
  let ?ex = "ident (core s)"
  obtain q ex where l: "feed_loop (incoming s) ?ex = (q, ex)" by fastforce
  show ?thesis
  proof (cases q)
    case (Ok n)
    with l assms have "ident_done ex" and s': "r = Ok ()"
      "s' = s\<lparr>core := (core s)\<lparr>ident := ex\<rparr>, incoming := drop n (incoming s)\<rparr>"
      by (auto simp: feed_ident_def ident_feed_def)
    moreover have "n \<le> length (incoming s)" using feed_loop_consumed [OF l [unfolded Ok]] assms(2) by simp
    ultimately show ?thesis
      using l Ok assms(2) feed_loop_append [OF assms(2), of "incoming s" ys]
      by (simp add: feed_ident_def ident_feed_def push_def)
  qed (use l assms feed_loop_append [OF assms(2), of "incoming s" ys] in
      \<open>auto simp: feed_ident_def ident_feed_def push_def\<close>)
qed

lemma version_exchange_push:
  assumes "drive_version_exchange E s = (r, s')" and "r \<noteq> Ok False"
  shows "drive_version_exchange E (push ys s) = (r, push ys s')"
proof -
  have nd: "\<not> ident_done (ident (core s))"
    using assms by (auto simp: drive_version_exchange_def split: if_splits)
  obtain q s1 where f: "feed_ident s = (q, s1)" by fastforce
  have "q \<noteq> Ok () \<or> ident_done (ident (core s1))"
    using assms nd f by (auto simp: drive_version_exchange_def and_then_def split: if_splits)
  note d = this and fp = feed_ident_push [OF f nd this]
  show ?thesis
    using assms nd f d fp
    by (cases q) (auto simp: drive_version_exchange_def and_then_def split: prod.splits result.splits)
qed

lemma drive_step_push:
  "drive_step E s = (r, s') \<Longrightarrow> r \<noteq> Ok False \<Longrightarrow> drive_step E (push ys s) = (r, push ys s')"
  by (auto simp: drive_step_def version_exchange_push packet_phase_push split: if_splits)

lemma drive_step_False_core:
  assumes "drive_step E s = (Ok False, s')"
  obtains ex where "core s' = (core s)\<lparr>ident := ex\<rparr>"
proof (cases "phase (core s) = VersionExchange \<and> \<not> ident_done (ident (core s))")
  case False
  then have "s' = s"
    using assms
    by (auto simp: drive_step_def drive_version_exchange_def drive_packet_phase_def
        split: if_splits result.splits)
  then show ?thesis by (intro that [of "ident (core s)"]) simp
next
  case True
  with assms have "drive_version_exchange E s = (Ok False, s')" by (simp add: drive_step_def)
  from drive_version_exchange_False [OF this] True show ?thesis using that by blast
qed

text \<open>
  Where the identification line is still incomplete, the rest of it is scanned the same way from
  the state that the first piece left.
\<close>

lemma drive_step_resume:
  assumes "drive_step E s = (Ok False, s')"
  shows "drive_step E (push ys s) = drive_step E (push ys s') \<or>
    (\<exists>e t t'. drive_step E (push ys s) = (Err e, t) \<and> drive_step E (push ys s') = (Err e, t') \<and>
       core t = core t')"
proof (cases "phase (core s) = VersionExchange \<and> \<not> ident_done (ident (core s))")
  case False
  then have "s' = s"
    using assms
    by (auto simp: drive_step_def drive_version_exchange_def drive_packet_phase_def
        split: if_splits result.splits)
  then show ?thesis by simp
next
  case True
  with assms have v: "drive_version_exchange E s = (Ok False, s')" by (simp add: drive_step_def)
  let ?ex = "ident (core s)"
  obtain ex' where l: "feed_loop (incoming s) ?ex = (Ok (length (incoming s)), ex')"
    and nd: "\<not> ident_done ex'" and s': "core s' = (core s)\<lparr>ident := ex'\<rparr>" "incoming s' = []"
    using drive_version_exchange_False [OF v] True by metis
  have ph: "phase (core s') = VersionExchange" using True s' by simp
  have app: "feed_loop (incoming s @ ys) ?ex =
      and_then (feed_loop ys) (\<lambda>m. ret (length (incoming s) + m)) ex'"
    using feed_loop_append [of ?ex "incoming s" ys] True l nd by simp
  obtain q ex'' where y: "feed_loop ys ex' = (q, ex'')" by fastforce
  show ?thesis
  proof (cases q)
    case (Ok m)
    have "feed_ident (push ys s) = feed_ident (push ys s')"
      using True nd s' app y Ok by (simp add: feed_ident_def ident_feed_def and_then_def push_def)
    then have "drive_step E (push ys s) = drive_step E (push ys s')"
      using True nd s' ph by (simp add: drive_step_def drive_version_exchange_def and_then_def)
    then show ?thesis ..
  next
    case (Err e)
    have "drive_step E (push ys s) = (Err e, (push ys s)\<lparr>core := (core s)\<lparr>ident := ex''\<rparr>\<rparr>)"
      "drive_step E (push ys s') = (Err e, (push ys s')\<lparr>core := (core s)\<lparr>ident := ex''\<rparr>\<rparr>)"
      using True nd s' ph app y Err
      by (simp_all add: drive_step_def drive_version_exchange_def and_then_def feed_ident_def
          ident_feed_def)
    then show ?thesis by fastforce
  next
    case Panic
    with y feed_loop_no_panic [of ys ex'] show ?thesis by simp
  qed
qed

section \<open>The stream is what counts\<close>

text \<open>
  What the host can observe of a call: whether it panicked, and the state, without the input that
  a closed session keeps and never looks at.
\<close>

definition observe :: "'r session \<Rightarrow> 'r session" where
  "observe s = (if phase (core s) = Closed then s\<lparr>incoming := []\<rparr> else s)"

definition outcome :: "unit result \<times> 'r session \<Rightarrow> 'r session option" where
  "outcome p = (case p of (Panic, s) \<Rightarrow> None | (r, s) \<Rightarrow> Some (observe s))"

lemma outcome_simps [simp]:
  "outcome (Ok u, s) = Some (observe s)" "outcome (Panic, s) = None"
  by (simp_all add: outcome_def)

lemma drive_paused: "paused (core s) \<Longrightarrow> drive E s = (Ok (), s)"
  by (subst drive.simps) simp

lemma drive_not_Err: "fst (drive E s) \<noteq> Err e"
proof (induction E s rule: drive.induct)
  case (1 E s)
  then show ?case
    by (subst drive.simps) (auto split: prod.split result.split)
qed

lemma observe_closed: "phase (core s) = Closed \<Longrightarrow> core s = core s' \<Longrightarrow> observe s = observe s'"
  by (simp add: observe_def session.equality)

text \<open>A step that waits for more input and one that does not, each with more input behind the buffer.\<close>

lemma drive_push_waiting:
  assumes np: "\<not> paused (core s)" and step: "drive_step E s = (Ok False, s1)"
  shows "outcome (drive E (push ys s)) = outcome (drive E (push ys s1))"
proof -
  obtain ex where "core s1 = (core s)\<lparr>ident := ex\<rparr>"
    using drive_step_False_core step by metis
  with np have np1: "\<not> paused (core s1)" by (simp add: paused_def)
  note unroll = drive.simps [of E "push ys s"] drive.simps [of E "push ys s1"]
  from drive_step_resume [OF step, of ys] show ?thesis
  proof
    assume "drive_step E (push ys s) = drive_step E (push ys s1)"
    then show ?thesis using np np1 by (simp add: unroll)
  next
    assume "\<exists>e t t'. drive_step E (push ys s) = (Err e, t) \<and>
      drive_step E (push ys s1) = (Err e, t') \<and> core t = core t'"
    then show ?thesis using np np1
      by (auto simp: unroll fail_session_def fail_def intro!: observe_closed)
  qed
qed

lemma drive_push_failing:
  assumes np: "\<not> paused (core s)" and step: "drive_step E s = (Err e, s1)"
  shows "outcome (drive E (push ys s)) =
    (case drive E s of (Ok u, s') \<Rightarrow> outcome (drive E (push ys s')) | _ \<Rightarrow> None)"
proof -
  have "paused (core (push ys (fail_session e s1)))"
    by (simp add: paused_def fail_session_def fail_def)
  then have "drive E (push ys (fail_session e s1)) = (Ok (), push ys (fail_session e s1))"
    by (rule drive_paused)
  with drive_step_push [OF step, of ys] np step show ?thesis
    by (simp add: drive.simps [of E s] drive.simps [of E "push ys s"])
      (simp add: fail_session_def fail_def observe_def push_def)
qed

lemma drive_push:
  "outcome (drive E (push ys s)) =
     (case drive E s of (Ok u, s') \<Rightarrow> outcome (drive E (push ys s')) | _ \<Rightarrow> None)"
proof (induction E s rule: drive.induct)
  case (1 E s)
  note unroll = drive.simps [of E s] drive.simps [of E "push ys s"]
  obtain r s1 where step: "drive_step E s = (r, s1)" by fastforce
  consider "paused (core s)" | (False) "\<not> paused (core s)" "r = Ok False"
    | (True) "\<not> paused (core s)" "r = Ok True" | (Err) e where "\<not> paused (core s)" "r = Err e"
    | (Panic) "\<not> paused (core s)" "r = Panic"
    by (cases r) auto
  then show ?case
  proof cases
    case 1
    then show ?thesis by (simp add: drive.simps)
  next
    case False
    with drive_push_waiting [of s E s1 ys] step show ?thesis by (simp add: drive.simps [of E s])
  next
    case True
    with drive_step_push [OF step, of ys] step 1 show ?thesis by (simp add: unroll)
  next
    case (Err e)
    with drive_push_failing step show ?thesis by metis
  next
    case Panic
    with drive_step_push [OF step, of ys] step show ?thesis by (simp add: unroll)
  qed
qed

section \<open>Feeding, as a chunked consumer\<close>

text \<open>\<open>feed_incoming\<close> on what the host observes; after a panic there is no session left.\<close>

primrec feed_observed :: "'r crates \<Rightarrow> bytes \<Rightarrow> 'r session option \<Rightarrow> 'r session option" where
  "feed_observed E data None = None"
| "feed_observed E data (Some s) = outcome (feed_incoming E data s)"

lemma feed_incoming_push: "feed_incoming E data s = drive E (push data s)"
  by (simp add: feed_incoming_def push_def)

lemma observe_idem [simp]: "observe (observe s) = observe s"
  by (simp add: observe_def)

lemma outcome_drive_observe: "outcome (drive E (push ys (observe s))) = outcome (drive E (push ys s))"
proof (cases "phase (core s) = Closed")
  case True
  then have "paused (core s)" by (simp add: paused_def)
  with True show ?thesis
    by (simp add: drive_paused observe_def)
next
  case False
  then show ?thesis by (simp add: observe_def)
qed

lemma feed_observed_append:
  "feed_observed E (xs @ ys) s = feed_observed E ys (feed_observed E xs s)"
proof (cases s)
  case (Some s0)
  obtain r s1 where d: "drive E (push xs s0) = (r, s1)" by fastforce
  then have ne: "\<forall>e. r \<noteq> Err e" using drive_not_Err [of E "push xs s0"] by (metis fst_conv)
  have "outcome (drive E (push ys (push xs s0))) =
      (case (r, s1) of (Ok u, s') \<Rightarrow> outcome (drive E (push ys s')) | _ \<Rightarrow> None)"
    using drive_push [of E ys "push xs s0"] d by simp
  with Some d ne show ?thesis
    by (cases r) (auto simp: feed_incoming_push outcome_drive_observe)
qed simp

interpretation session_stream: chunked "feed_observed E" "\<lambda>_. True" for E :: "'r crates"
proof unfold_locales
  fix xs and s :: "'r session option"
  show "feed_observed E [] (feed_observed E xs s) = feed_observed E xs s"
    using feed_observed_append [of E xs "[]" s] by simp
qed (rule feed_observed_append TrueI)+

section \<open>The first message under the new ciphers\<close>

lemma service_request_fits: "payload_fits (build_service_request SERVICE_USERAUTH)"
  by (simp add: payload_fits_def build_service_request_def SERVICE_USERAUTH_def MAX_PACKET_LENGTH_def)

end
