(* ===== verification/Engine_Inv.thy ===== *)
theory Engine_Inv
  imports Session
begin

text \<open>
  The invariant of the session state: which keys, ciphers and pending requests exist together.
  Every handler, and every call of the host, keeps it.
\<close>

section \<open>What sending changes\<close>

text \<open>
  A property that survives sending: it does not depend on the generator, the output buffer, nor on
  which send cipher is in place.
\<close>

definition sendable :: "('r engine \<Rightarrow> bool) \<Rightarrow> bool" where
  "sendable I \<longleftrightarrow>
     (\<forall>s r w. I s \<longrightarrow> I (s\<lparr>rng := r, outgoing := w\<rparr>)) \<and>
     (\<forall>s c c' r w. I s \<longrightarrow> cs_cipher s = Some c \<longrightarrow>
        I (s\<lparr>cs_cipher := Some c', rng := r, outgoing := w\<rparr>))"

lemma sendableD:
  "sendable I \<Longrightarrow> I s \<Longrightarrow> I (s\<lparr>rng := r, outgoing := w\<rparr>)"
  "sendable I \<Longrightarrow> I s \<Longrightarrow> cs_cipher s = Some c \<Longrightarrow> I (s\<lparr>cs_cipher := Some c', rng := r, outgoing := w\<rparr>)"
  by (auto simp: sendable_def)

lemma sendable_rng: "sendable I \<Longrightarrow> I s \<Longrightarrow> I (s\<lparr>rng := r\<rparr>)"
proof -
  assume "sendable I" and "I s"
  from sendableD(1) [OF this, where r = r and w = "outgoing s"] show ?thesis by simp
qed

lemma send_plaintext_Ok [simp]: "fst (send_plaintext E p s) = Ok ()"
  by (simp add: send_plaintext_def split: prod.split)

lemma preserves_send_plaintext: "sendable I \<Longrightarrow> preserves I (send_plaintext E p)"
  by (auto simp: triple_def send_plaintext_def sendableD split: prod.split)

lemma cipher_seal_not_Err: "fst (cipher_seal E p x) \<noteq> Err e"
  by (auto simp: cipher_seal_def seal_chacha20poly1305_def seal_aes256gcm_def Let_def try_r_Err
      split: prod.splits direction_keys.splits result.splits option.splits)

lemma send_ciphered_effect:
  assumes "send_ciphered E p s = (r, s')"
  obtains (no_cipher) "cs_cipher s = None" "r = Panic" "s' = s"
  | (sent) c wire c' x where "cs_cipher s = Some c" "r = Ok ()"
      "cipher_seal E p (c, rng s) = (Ok wire, (c', x))"
      "s' = s\<lparr>cs_cipher := Some c', rng := x, outgoing := outgoing s @ wire\<rparr>"
  | (too_long) c c' x where "cs_cipher s = Some c" "r = Panic"
      "cipher_seal E p (c, rng s) = (Panic, (c', x))"
proof (cases "cs_cipher s")
  case None
  with assms have "r = Panic" "s' = s" by (simp_all add: send_ciphered_def)
  with None show thesis by (rule no_cipher)
next
  case (Some c)
  obtain q c' x where q: "cipher_seal E p (c, rng s) = (q, (c', x))" by (metis prod.collapse)
  show thesis
  proof (cases q)
    case (Ok wire)
    with assms Some q have "r = Ok ()"
      and "s' = s\<lparr>cs_cipher := Some c', rng := x, outgoing := outgoing s @ wire\<rparr>"
      by (simp_all add: send_ciphered_def)
    with sent Some q Ok show thesis by blast
  next
    case (Err e)
    with q cipher_seal_not_Err [of E p "(c, rng s)" e] show thesis by simp
  next
    case Panic
    with assms Some q have "r = Panic" by (simp add: send_ciphered_def)
    with too_long Some q Panic show thesis by blast
  qed
qed

lemma preserves_send_ciphered:
  assumes "sendable I"
  shows "preserves I (send_ciphered E p)"
  unfolding triple_def
proof (intro allI impI)
  fix s
  assume I: "I s"
  obtain r s' where e: "send_ciphered E p s = (r, s')" by fastforce
  then show "case send_ciphered E p s of (Ok a, s') \<Rightarrow> I s' | (Err e, s') \<Rightarrow> I s' | (Panic, s') \<Rightarrow> True"
    by (cases rule: send_ciphered_effect) (auto simp: e sendableD [OF assms I])
qed

lemma preserves_send_either: "sendable I \<Longrightarrow> preserves I (send_plaintext_or_ciphered E p)"
  using preserves_send_plaintext [of I E p] preserves_send_ciphered [of I E p]
  by (fastforce simp: triple_def send_plaintext_or_ciphered_def split: option.splits)

lemmas preserves_send = preserves_send_plaintext preserves_send_ciphered preserves_send_either

section \<open>The invariant\<close>

definition kex_verified :: "'r crates \<Rightarrow> 'r engine \<Rightarrow> bool" where
  "kex_verified E s \<longleftrightarrow>
     (\<exists>k h ss sig. pending_host_key s = Some (k, h, ss) \<and> sig_valid E (hk_blob k) h sig)"

text \<open>The ciphers prepared with a key: those derived from its exchange under the session identifier.\<close>

definition exchange_ready :: "'r crates \<Rightarrow> 'r engine \<Rightarrow> bool" where
  "exchange_ready E s \<longleftrightarrow>
     (\<exists>k h ss k_mpint alg sid ciphers. pending_host_key s = Some (k, h, ss) \<and>
        encode_mpint E ss = Ok k_mpint \<and> session_id s = Some sid \<and>
        derive_ciphers E alg k_mpint h sid = Ok ciphers \<and> pending_ciphers s = Some ciphers)"

definition engine_ok :: "'r crates \<Rightarrow> 'r engine \<Rightarrow> bool" where
  "engine_ok E s \<longleftrightarrow>
     (active_kex s \<noteq> None \<longrightarrow> negotiated s \<noteq> None) \<and>
     (sc_cipher s \<noteq> None \<or> pending_sc_cipher s \<noteq> None \<longrightarrow> cs_cipher s \<noteq> None) \<and>
     (pending_ciphers s \<noteq> None \<or> cs_cipher s \<noteq> None \<longrightarrow> session_id s \<noteq> None) \<and>
     (phase s = AwaitingHostKeyDecision \<longrightarrow> exchange_ready E s \<and> kex_verified E s) \<and>
     (pending_auth s \<noteq> None \<longrightarrow> cs_cipher s \<noteq> None) \<and>
     table_ok (channels s)"

lemma sendable_engine_ok: "sendable (engine_ok E)"
  by (auto simp: sendable_def engine_ok_def kex_verified_def exchange_ready_def)

lemma engine_new_ok: "engine_ok E (engine_new r)"
  by (simp add: engine_ok_def engine_new_def)

lemma engine_ok_simps:
  "engine_ok E s \<Longrightarrow> engine_ok E (s\<lparr>events := es\<rparr>)"
  "engine_ok E s \<Longrightarrow> engine_ok E (s\<lparr>ident := ex\<rparr>)"
  "engine_ok E s \<Longrightarrow> engine_ok E (s\<lparr>outgoing := w\<rparr>)"
  "engine_ok E s \<Longrightarrow> p \<noteq> AwaitingHostKeyDecision \<Longrightarrow> engine_ok E (s\<lparr>phase := p\<rparr>)"
  "engine_ok E s \<Longrightarrow> engine_ok E (s\<lparr>own_kexinit_payload := i\<rparr>)"
  "engine_ok E s \<Longrightarrow> engine_ok E (s\<lparr>peer_kexinit_payload := i\<rparr>)"
  "engine_ok E s \<Longrightarrow> engine_ok E (s\<lparr>peer_ident_line := i\<rparr>)"
  "engine_ok E s \<Longrightarrow> engine_ok E (s\<lparr>active_kex := None\<rparr>)"
  "engine_ok E s \<Longrightarrow> engine_ok E (s\<lparr>pending_auth := None\<rparr>)"
  "engine_ok E s \<Longrightarrow> engine_ok E (s\<lparr>username := u\<rparr>)"
  "engine_ok E s \<Longrightarrow> engine_ok E (s\<lparr>channel_setup := cs\<rparr>)"
  "engine_ok E s \<Longrightarrow> engine_ok E (s\<lparr>pending_exec := pe\<rparr>)"
  "engine_ok E s \<Longrightarrow> engine_ok E (s\<lparr>pending_pty := pp\<rparr>)"
  "engine_ok E s \<Longrightarrow> engine_ok E (s\<lparr>channels := table_remove cid (channels s)\<rparr>)"
  by (auto simp: engine_ok_def kex_verified_def exchange_ready_def table_remove_ok)

lemma engine_ok_rng: "engine_ok E s \<Longrightarrow> engine_ok E (s\<lparr>rng := r\<rparr>)"
  by (rule sendable_rng [OF sendable_engine_ok])

section \<open>Every handler keeps it\<close>

lemmas ok_send = preserves_send [OF sendable_engine_ok]

lemma ok_push_event [intro]: "preserves (engine_ok E) (push_event e)"
  unfolding push_event_def by (intro preserves_update engine_ok_simps)

lemma ok_set_phase [intro]: "p \<noteq> AwaitingHostKeyDecision \<Longrightarrow> preserves (engine_ok E) (set_phase p)"
  unfolding set_phase_def by (intro preserves_update engine_ok_simps)

lemma ok_with_rng: "preserves (engine_ok E) (with_rng g)"
  by (auto simp: triple_def with_rng_def engine_ok_rng split: prod.split result.split)

lemma ok_send_own_kexinit: "preserves (engine_ok E) (send_own_kexinit E)"
proof -
  have "preserves (engine_ok E) (and_then (lift_r (kexinit_to_payload E kex)) (\<lambda>p.
      and_then (update (\<lambda>s. s\<lparr>own_kexinit_payload := p\<rparr>)) (\<lambda>_. send_plaintext E p)))" for kex
    by (intro preserves_rules ok_send engine_ok_simps)
  note kept = this [unfolded triple_def, rule_format]
  show ?thesis
    unfolding triple_def
  proof (intro allI impI)
    fix s
    assume "engine_ok E s"
    obtain kex r where k: "kexinit_ours (fill_buf E) (rng s) = (kex, r)" by fastforce
    from kept [OF engine_ok_rng [OF \<open>engine_ok E s\<close>], of kex r]
    show "case send_own_kexinit E s of (Ok a, s') \<Rightarrow> engine_ok E s' | (Err e, s') \<Rightarrow> engine_ok E s'
        | (Panic, s') \<Rightarrow> True"
      by (simp only: send_own_kexinit_def k Let_def prod.case)
  qed
qed

text \<open>
  During a KEXINIT the exchange is set before the negotiated names are: only a panic could leave
  it like that.
\<close>

definition ok_but_kex :: "'r crates \<Rightarrow> 'r engine \<Rightarrow> bool" where
  "ok_but_kex E s \<longleftrightarrow> engine_ok E (s\<lparr>active_kex := None\<rparr>)"

lemma sendable_ok_but_kex: "sendable (ok_but_kex E)"
  by (auto simp: sendable_def ok_but_kex_def engine_ok_def kex_verified_def exchange_ready_def)

lemma send_either_not_Err: "send_plaintext_or_ciphered E p s \<noteq> (Err e, s')"
proof
  assume "send_plaintext_or_ciphered E p s = (Err e, s')"
  moreover have "send_plaintext E p s \<noteq> (Err e, s')"
    by (metis fst_conv result.distinct(1) send_plaintext_Ok)
  moreover have "send_ciphered E p s \<noteq> (Err e, s')"
    by (auto elim: send_ciphered_effect)
  ultimately show False by (simp add: send_plaintext_or_ciphered_def split: option.splits)
qed

lemma ok_but_kex_send:
  "partial (ok_but_kex E) (send_plaintext_or_ciphered E p) (\<lambda>_. ok_but_kex E) (engine_ok E)"
proof -
  have "partial (ok_but_kex E) (send_plaintext_or_ciphered E p) (\<lambda>_. ok_but_kex E) (ok_but_kex E)"
    by (rule preserves_send [OF sendable_ok_but_kex])
  then show ?thesis
    by (fastforce simp: triple_def send_either_not_Err split: prod.splits result.splits)
qed

lemma ok_handle_peer_kexinit: "preserves (engine_ok E) (handle_peer_kexinit E payload)"
proof -
  have set: "partial (engine_ok E) (update (\<lambda>s. s\<lparr>active_kex := Some k\<rparr>)) (\<lambda>_. ok_but_kex E) (engine_ok E)"
    for k by (auto intro!: triple_update simp: ok_but_kex_def engine_ok_def kex_verified_def exchange_ready_def)
  have neg: "partial (ok_but_kex E) (update (\<lambda>s. s\<lparr>negotiated := Some n\<rparr>)) (\<lambda>_. engine_ok E) (engine_ok E)"
    for n by (auto intro!: triple_update simp: ok_but_kex_def engine_ok_def kex_verified_def exchange_ready_def)
  have fw: "partial (engine_ok E) (fail_with e) (\<lambda>_. ok_but_kex E) (engine_ok E)"
    for e by (simp add: triple_def)
  show ?thesis
    unfolding handle_peer_kexinit_def
    apply (rule preserves_and_then, intro preserves_update engine_ok_simps, assumption)
    apply (rule preserves_and_then [OF preserves_simple(3)])
    apply (rule preserves_and_then [OF preserves_simple(4)])+
    apply (rule triple_and_then [OF _ neg])
    apply (intro triple_if)
      apply (rule triple_and_then [OF ok_with_rng])
      apply (rule triple_and_then [OF set ok_but_kex_send])
     apply (rule triple_and_then [OF ok_with_rng])
     apply (rule triple_and_then [OF preserves_simple(4)])
     apply (rule triple_and_then [OF set ok_but_kex_send])
    apply (rule fw)
    done
qed

lemma ok_on_kex_result:
  assumes "sig_valid E (hk_blob k) h sig"
  shows "preserves (engine_ok E) (on_kex_result E k h ss)"
proof -
  have set: "partial P
      (update (\<lambda>s. s\<lparr>pending_ciphers := Some ciphers,
        session_id := (case session_id s of Some i \<Rightarrow> Some i | None \<Rightarrow> Some h),
        pending_host_key := Some (k, h, ss), phase := AwaitingHostKeyDecision\<rparr>)) (\<lambda>_. engine_ok E)
      (engine_ok E)"
    if "\<And>s. P s \<Longrightarrow> engine_ok E s \<and> session_id s = sid_opt" and "encode_mpint E ss = Ok k_mpint" and
      "derive_ciphers E alg k_mpint h (case sid_opt of Some i \<Rightarrow> i | None \<Rightarrow> h) = Ok ciphers"
    for P k_mpint alg sid_opt ciphers
  proof (rule triple_update)
    fix s
    assume "P s"
    then have "engine_ok E s" "session_id s = sid_opt" using that(1) by blast+
    with that(2,3) assms show "engine_ok E (s\<lparr>pending_ciphers := Some ciphers,
        session_id := (case session_id s of Some i \<Rightarrow> Some i | None \<Rightarrow> Some h),
        pending_host_key := Some (k, h, ss), phase := AwaitingHostKeyDecision\<rparr>)"
      by (auto simp: engine_ok_def kex_verified_def exchange_ready_def split: option.splits)
  qed
  show ?thesis
    unfolding on_kex_result_def
    by (intro triple_lift_then triple_look_then triple_and_then [OF set ok_push_event]) auto
qed

lemma ok_handle_curve25519_reply: "preserves (engine_ok E) (handle_curve25519_reply E payload)"
  unfolding handle_curve25519_reply_def
  by (intro triple_lift_then triple_look_then triple_update_then [where P' = "engine_ok E"])
    (auto simp: ecdh_verify_reply_signature_def engine_ok_simps dest!: verify_reply_Ok
      intro!: triple_weaken [OF ok_on_kex_result])

lemma ok_handle_dh_group14_reply: "preserves (engine_ok E) (handle_dh_group14_reply E payload)"
  unfolding handle_dh_group14_reply_def
  by (intro triple_lift_then triple_look_then triple_update_then [where P' = "engine_ok E"])
    (auto simp: dh_verify_reply_signature_def engine_ok_simps dest!: verify_reply_Ok
      intro!: triple_weaken [OF ok_on_kex_result])

lemma ok_handle_newkeys: "preserves (engine_ok E) handle_newkeys"
proof -
  have "preserves (engine_ok E)
      (update (\<lambda>s. s\<lparr>sc_cipher := pending_sc_cipher s, pending_sc_cipher := None\<rparr>))"
    by (intro preserves_update) (auto simp: engine_ok_def kex_verified_def exchange_ready_def)
  then show ?thesis
    unfolding handle_newkeys_def
    by (rule preserves_and_then) (intro preserves_and_then triple_if preserves_simple)
qed

lemma ok_handle_service_accept: "preserves (engine_ok E) (handle_service_accept payload)"
  unfolding handle_service_accept_def by (intro preserves_rules ok_set_phase ok_push_event) simp

lemma ok_handle_userauth_failure: "preserves (engine_ok E) (handle_userauth_failure payload)"
  unfolding handle_userauth_failure_def
  by (intro preserves_rules ok_push_event engine_ok_simps)

lemma ok_handle_userauth_success: "preserves (engine_ok E) handle_userauth_success"
  unfolding handle_userauth_success_def
  by (intro preserves_rules ok_set_phase ok_push_event engine_ok_simps) simp_all

text \<open>A pending request is only put back, or recorded, where a send cipher exists.\<close>

lemma ok_handle_userauth_pk_ok: "preserves (engine_ok E) (handle_userauth_pk_ok E payload)"
  unfolding handle_userauth_pk_ok_def
proof (rule triple_look_then, goal_cases)
  case (1 taken)
  let ?P = "\<lambda>s. engine_ok E s \<and> (taken \<noteq> None \<longrightarrow> cs_cipher s \<noteq> None)"
  have put: "partial ?P (update (\<lambda>s. s\<lparr>pending_auth := other\<rparr>)) (\<lambda>_. engine_ok E) (engine_ok E)"
    if "other \<noteq> None \<longrightarrow> taken \<noteq> None" for other
    using that by (auto intro!: triple_update simp: engine_ok_def kex_verified_def exchange_ready_def)
  have take: "engine_ok E s \<and> pending_auth s = taken \<Longrightarrow> ?P (s\<lparr>pending_auth := None\<rparr>)" for s
    by (auto simp: engine_ok_def kex_verified_def exchange_ready_def)
  show ?case
  proof (rule triple_update_then [where P' = ?P, OF take], assumption, split option.split,
      intro conjI impI allI, goal_cases)
    case 1
    then show ?case by (intro triple_and_then [OF put] preserves_simple) simp
  next
    case (2 a)
    have rest: "partial ?P (and_then (lift_r (parse_pk_ok payload)) (\<lambda>_.
           and_then (look session_id) (\<lambda>sid_opt.
           and_then (lift_r (expect sid_opt)) (\<lambda>sid.
           and_then (lift_r (build_signed_request E x sid private_key)) (\<lambda>signed.
           and_then (update (\<lambda>s. s\<lparr>pending_auth := Some PublicKeySigned\<rparr>)) (\<lambda>_.
             send_ciphered E signed)))))) (\<lambda>_. engine_ok E) (engine_ok E)" for x private_key
      using 2
      by (intro triple_lift_then triple_look_then triple_update_then [where P' = "engine_ok E"]
          ok_send) (auto simp: engine_ok_def kex_verified_def exchange_ready_def)
    have other: "partial ?P (and_then (update (\<lambda>s. s\<lparr>pending_auth := x\<rparr>)) (\<lambda>_. fail_with e))
        (\<lambda>_. engine_ok E) (engine_ok E)" for x e
      using 2 by (intro triple_and_then [OF put preserves_simple(2)]) simp
    show ?case
    proof (cases a)
      case PublicKeyQuery
      show ?thesis unfolding PublicKeyQuery pending_auth.case by (rule rest)
    qed (simp_all only: pending_auth.case other)
  qed
qed

lemma ok_remove_setup: "preserves (engine_ok E) (remove_setup cid)"
  unfolding remove_setup_def by (intro preserves_update engine_ok_simps)

lemma ok_continue_channel_setup: "preserves (engine_ok E) (continue_channel_setup E cid reply)"
proof -
  have step: "preserves I a \<Longrightarrow> preserves I b \<Longrightarrow> preserves I c \<Longrightarrow> preserves I
      (case st of AwaitingExecReply \<Rightarrow> a | AwaitingPtyReply \<Rightarrow> b | AwaitingShellReply \<Rightarrow> c)"
    for I :: "'a engine \<Rightarrow> bool" and a b c :: "('a engine, unit) op" and st
    by (cases st) auto
  show ?thesis
    unfolding continue_channel_setup_def
    by (intro preserves_rules ok_remove_setup ok_send ok_push_event step engine_ok_simps)
qed

lemma ok_on_channels:
  assumes "\<And>t. table_ok t \<Longrightarrow> table_ok (snd (m t))"
  shows "preserves (engine_ok E) (on_channels m)"
proof -
  have "engine_ok E (s\<lparr>channels := snd (m (channels s))\<rparr>)" if "engine_ok E s" for s
    using that assms by (auto simp: engine_ok_def kex_verified_def exchange_ready_def)
  then show ?thesis
    by (fastforce simp: triple_def on_channels_def split: prod.splits result.splits)
qed

lemma ok_handle_channel_message: "preserves (engine_ok E) (handle_channel_message E t payload)"
proof -
  have "preserves (engine_ok E) (case ev of ChannelOpened cid \<Rightarrow> continue_channel_setup E cid None
      | _ \<Rightarrow> ret ())" for ev
    by (cases ev) (simp_all add: preserves_simple ok_continue_channel_setup)
  then show ?thesis
    unfolding handle_channel_message_def case_prod_beta
    by (intro preserves_and_then ok_on_channels table_handle_ok triple_for_each ok_push_event
        ok_send)
qed

lemma ok_dispatch: "preserves (engine_ok E) (dispatch E t payload)"
proof -
  have d: "preserves (engine_ok E) (handle_disconnect payload)"
    unfolding handle_disconnect_def case_prod_beta
    by (intro preserves_rules ok_set_phase ok_push_event) simp
  have r: "preserves (engine_ok E) (handle_channel_success E payload)"
    "preserves (engine_ok E) (handle_channel_failure E payload)"
    "preserves (engine_ok E) (handle_global_request E payload)"
    unfolding handle_channel_success_def handle_channel_failure_def handle_global_request_def
    by (intro preserves_rules ok_continue_channel_setup ok_send)+
  note all = d r ok_handle_peer_kexinit ok_handle_curve25519_reply ok_handle_dh_group14_reply
    ok_handle_newkeys ok_handle_service_accept ok_handle_userauth_failure
    ok_handle_userauth_success ok_handle_userauth_pk_ok ok_handle_channel_message
  have ifs: "preserves I m \<Longrightarrow> preserves I n \<Longrightarrow> preserves I (\<lambda>s. if c s then m s else n s)"
    for I :: "'a engine \<Rightarrow> bool" and m n :: "('a engine, unit) op" and c
    by (simp add: triple_def)
  show ?thesis
    unfolding dispatch_def [abs_def] by (intro ifs all preserves_simple)
qed

end
