(* ===== verification/Engine_Frame.thy ===== *)
theory Engine_Frame
  imports Engine_Inv
begin

text \<open>
  What the handlers leave alone. One locale states what a property of the state must survive
  (sending, and the fields the handlers write), and derives that every handler but NEWKEYS and
  DISCONNECT keeps it. It is instantiated twice: on the receive and pending ciphers, and on the
  history of events.
\<close>

text \<open>The two events after which the session is closed.\<close>

definition terminal :: "event \<Rightarrow> bool" where
  "terminal e \<longleftrightarrow> (case e of Disconnected _ _ \<Rightarrow> True | Unrecoverable _ \<Rightarrow> True | _ \<Rightarrow> False)"

lemma terminal_simps [simp]:
  "\<not> terminal (HostKeyVerify a f b)" "\<not> terminal ReadyForAuth" "\<not> terminal (AuthFailure ms)"
  "\<not> terminal AuthSuccess" "\<not> terminal (ChannelOpened c)" "\<not> terminal (ChannelOpenFailed c n d)"
  "\<not> terminal (ChannelData c st d)" "\<not> terminal (ChannelWindowFull c)"
  "\<not> terminal (ChannelExitStatus c co si)" "\<not> terminal (ChannelEof c)"
  "\<not> terminal (ChannelClosed c)" "terminal (Disconnected n d)" "terminal (Unrecoverable e)"
  by (simp_all add: terminal_def)

lemma handle_message_events:
  "partial (\<lambda>_. True) (handle_message t) (\<lambda>(evs, out) _. \<forall>e \<in> set evs. \<not> terminal e) (\<lambda>_. True)"
proof -
  have any: "partial (\<lambda>_. True) m (\<lambda>_ _. True) (\<lambda>_. True)" for m :: "('s, 'a) op"
    by (simp add: triple_def split: prod.split result.split)
  have step: "(\<And>a. partial (\<lambda>_. True) (f a) Q (\<lambda>_. True)) \<Longrightarrow>
      partial (\<lambda>_. True) (and_then m f) Q (\<lambda>_. True)" for m :: "('s, 'a) op" and f and Q :: "'b \<Rightarrow> 's \<Rightarrow> bool"
    by (rule triple_and_then [OF any])
  show ?thesis
    unfolding handle_message_def handle_channel_request_def data_reaction_def
    by (intro step triple_if) (simp_all add: triple_def)
qed

lemma table_handle_events:
  "table_handle t p tab = (Ok (evs, out), tab') \<Longrightarrow> \<forall>e \<in> set evs. \<not> terminal e"
  using triple_Ok [OF handle_message_events, where s = "(reader_new p, tab)" and a = "(evs, out)"]
  by (auto simp: table_handle_def split: prod.splits)

section \<open>The interface of a property\<close>

locale handler_property =
  fixes I :: "'r engine \<Rightarrow> bool"
  assumes sending: "sendable I"
    and upd_event: "I s \<Longrightarrow> \<not> terminal e \<Longrightarrow> I (s\<lparr>events := events s @ [e]\<rparr>)"
    and upd_phase: "I s \<Longrightarrow> p \<noteq> Closed \<Longrightarrow> I (s\<lparr>phase := p\<rparr>)"
    and upd_kexinit: "I s \<Longrightarrow> I (s\<lparr>own_kexinit_payload := i\<rparr>)" "I s \<Longrightarrow> I (s\<lparr>peer_kexinit_payload := i\<rparr>)"
    and upd_kex: "I s \<Longrightarrow> I (s\<lparr>active_kex := k\<rparr>)" "I s \<Longrightarrow> I (s\<lparr>negotiated := n\<rparr>)"
      "I s \<Longrightarrow> I (s\<lparr>session_id := sid\<rparr>)" "I s \<Longrightarrow> I (s\<lparr>pending_host_key := h\<rparr>)"
      "I s \<Longrightarrow> I (s\<lparr>pending_ciphers := c\<rparr>)"
    and upd_auth: "I s \<Longrightarrow> I (s\<lparr>pending_auth := a\<rparr>)"
    and upd_channels: "I s \<Longrightarrow> I (s\<lparr>channels := t\<rparr>)" "I s \<Longrightarrow> I (s\<lparr>channel_setup := cs\<rparr>)"
      "I s \<Longrightarrow> I (s\<lparr>pending_exec := pe\<rparr>)" "I s \<Longrightarrow> I (s\<lparr>pending_pty := pp\<rparr>)"
begin

lemmas send = preserves_send [OF sending]

lemma push: "\<not> terminal e \<Longrightarrow> preserves I (push_event e)"
  unfolding push_event_def by (intro preserves_update upd_event)

lemma phase: "p \<noteq> Closed \<Longrightarrow> preserves I (set_phase p)"
  unfolding set_phase_def by (intro preserves_update upd_phase)

lemma with_rng: "preserves I (with_rng g)"
  by (auto simp: triple_def with_rng_def sendable_rng [OF sending] split: prod.split result.split)

lemma peer_kexinit: "preserves I (handle_peer_kexinit E p)"
  unfolding handle_peer_kexinit_def
  by (intro preserves_rules send with_rng upd_kexinit upd_kex)

lemma kex_result: "preserves I (on_kex_result E k h ss)"
proof -
  have "I s \<Longrightarrow> I (s\<lparr>pending_ciphers := c, session_id := i, pending_host_key := pk,
      phase := AwaitingHostKeyDecision\<rparr>)" for s c i pk
    using upd_kex upd_phase by simp
  then show ?thesis
    unfolding on_kex_result_def by (intro preserves_rules push) simp_all
qed

lemma curve25519_reply: "preserves I (handle_curve25519_reply E p)"
  unfolding handle_curve25519_reply_def by (intro preserves_rules kex_result upd_kex)

lemma dh_group14_reply: "preserves I (handle_dh_group14_reply E p)"
  unfolding handle_dh_group14_reply_def by (intro preserves_rules kex_result upd_kex)

lemma service_accept: "preserves I (handle_service_accept p)"
  unfolding handle_service_accept_def by (intro preserves_rules push phase) simp_all

lemma userauth:
  "preserves I (handle_userauth_failure p)" "preserves I handle_userauth_success"
  unfolding handle_userauth_failure_def handle_userauth_success_def
  by (intro preserves_rules push phase upd_auth; simp)+

lemma userauth_pk_ok: "preserves I (handle_userauth_pk_ok E p)"
proof -
  have c: "preserves I a \<Longrightarrow> preserves I c \<Longrightarrow> (\<And>x y. preserves I (b x y)) \<Longrightarrow>
      preserves I (case o' of Password \<Rightarrow> a | PublicKeyQuery x y \<Rightarrow> b x y | PublicKeySigned \<Rightarrow> c)"
    for a c :: "('r engine, unit) op" and b and o'
    by (cases o') auto
  show ?thesis
    unfolding handle_userauth_pk_ok_def by (intro preserves_rules c upd_auth send)
qed

lemma channel_setup: "preserves I (continue_channel_setup E cid reply)"
proof -
  have c: "preserves I a \<Longrightarrow> preserves I b \<Longrightarrow> preserves I c \<Longrightarrow> preserves I
      (case st of AwaitingExecReply \<Rightarrow> a | AwaitingPtyReply \<Rightarrow> b | AwaitingShellReply \<Rightarrow> c)"
    for a b c :: "('r engine, unit) op" and st
    by (cases st) auto
  show ?thesis
    unfolding continue_channel_setup_def remove_setup_def
    by (intro preserves_rules c upd_channels send push) simp_all
qed

lemma channel_message: "preserves I (handle_channel_message E t p)"
proof -
  have s: "preserves I (case ev of ChannelOpened cid \<Rightarrow> continue_channel_setup E cid None | _ \<Rightarrow> ret ())"
    for ev by (cases ev) (simp_all add: preserves_simple channel_setup)
  have m: "partial I (on_channels (table_handle t p)) (\<lambda>(evs, _) s. I s \<and> (\<forall>e \<in> set evs. \<not> terminal e)) I"
    using table_handle_events [of t p] upd_channels(1)
    by (fastforce simp: triple_def on_channels_def split: prod.splits result.splits)
  show ?thesis
    unfolding handle_channel_message_def
  proof (rule triple_and_then [OF m], clarify, goal_cases)
    case (1 evs out)
    show ?case
    proof (cases "\<forall>e \<in> set evs. \<not> terminal e")
      case True
      then show ?thesis
        by (simp, intro preserves_and_then triple_for_each s send push) simp_all
    next
      case False
      then show ?thesis by (auto simp: triple_def)
    qed
  qed
qed

lemma replies:
  "preserves I (handle_channel_success E p)" "preserves I (handle_channel_failure E p)"
  "preserves I (handle_global_request E p)"
  unfolding handle_channel_success_def handle_channel_failure_def handle_global_request_def
  by (intro preserves_rules channel_setup send)+

lemma dispatch_keeps:
  assumes "t \<noteq> 1" and "t \<noteq> MSG_NEWKEYS"
  shows "preserves I (dispatch E t p)"
proof -
  have ifs: "(c \<Longrightarrow> preserves I m) \<Longrightarrow> preserves I n \<Longrightarrow> preserves I (\<lambda>s. if c then m s else n s)"
    for m n :: "('r engine, unit) op" and c
    by (simp add: triple_def)
  have ifs': "preserves I m \<Longrightarrow> preserves I n \<Longrightarrow> preserves I (\<lambda>s. if c s then m s else n s)"
    for m n :: "('r engine, unit) op" and c
    by (simp add: triple_def)
  show ?thesis
    unfolding dispatch_def [abs_def]
    by (intro ifs ifs' peer_kexinit curve25519_reply dh_group14_reply service_accept userauth userauth_pk_ok
        channel_message replies preserves_simple) (simp_all add: assms)
qed

end

section \<open>First instance: the keys\<close>

text \<open>Whether there is a send cipher, and the two receive ciphers.\<close>

definition keys_of :: "'r engine \<Rightarrow> bool \<times> packet_cipher option \<times> packet_cipher option" where
  "keys_of s = (cs_cipher s \<noteq> None, sc_cipher s, pending_sc_cipher s)"

interpretation keys: handler_property "\<lambda>s. keys_of s = k" for k
  by unfold_locales (auto simp: sendable_def keys_of_def)

section \<open>Second instance: the history of events\<close>

text \<open>
  Relative to the queue at some point: the session is open and has only added events that are not
  terminal, or it is closed and the last event it added says why, the only terminal one.
\<close>

definition continues :: "event list \<Rightarrow> 'r engine \<Rightarrow> bool" where
  "continues old s \<longleftrightarrow>
     phase s \<noteq> Closed \<and> (\<exists>new. events s = old @ new \<and> (\<forall>e \<in> set new. \<not> terminal e))"

definition closes :: "event list \<Rightarrow> 'r engine \<Rightarrow> bool" where
  "closes old s \<longleftrightarrow>
     phase s = Closed \<and>
     (\<exists>new e. events s = old @ new @ [e] \<and> terminal e \<and> (\<forall>x \<in> set new. \<not> terminal x))"

lemma continues_push:
  "continues old s \<Longrightarrow> \<not> terminal e \<Longrightarrow> continues old (s\<lparr>events := events s @ [e]\<rparr>)"
  unfolding continues_def by (auto intro: exI [of _ "_ @ [e]"])

interpretation history: handler_property "continues old" for old
proof unfold_locales
  show "sendable (continues old)" by (auto simp: sendable_def continues_def)
qed (simp_all add: continues_push, simp_all add: continues_def)

lemma fail_closes: "continues old s \<Longrightarrow> closes old (fail e s)"
  by (auto simp: continues_def closes_def fail_def)

lemma disconnect_closes:
  "partial (continues old) (handle_disconnect p) (\<lambda>_. closes old) (continues old)"
  unfolding handle_disconnect_def case_prod_beta set_phase_def push_event_def
  by (intro triple_lift_then) (auto simp: triple_def continues_def closes_def)

lemma newkeys_continues: "preserves (continues old) handle_newkeys"
  unfolding handle_newkeys_def
  by (intro triple_update_then [where P' = "continues old"] triple_look_then)
    (auto simp: continues_def triple_def)

lemma dispatch_history:
  "partial (continues old) (dispatch E t p) (\<lambda>_ s. continues old s \<or> closes old s) (continues old)"
proof -
  consider "t = 1" | "t = MSG_NEWKEYS" | "t \<noteq> 1" "t \<noteq> MSG_NEWKEYS" by blast
  then show ?thesis
  proof cases
    case 1
    then have "dispatch E t p = handle_disconnect p" by (rule_tac ext) (simp add: dispatch_def)
    then show ?thesis by (simp add: triple_weaken [OF disconnect_closes])
  next
    case 2
    then have "dispatch E t p = handle_newkeys"
      by (rule_tac ext) (simp add: dispatch_def MSG_NEWKEYS_def MSG_KEXINIT_def MSG_KEXDH_REPLY_def
          MSG_KEX_ECDH_REPLY_def)
    then show ?thesis by (simp add: triple_weaken [OF newkeys_continues])
  next
    case 3
    show ?thesis by (rule triple_weaken [OF history.dispatch_keeps [OF 3]]) simp_all
  qed
qed

end
