(* ===== verification/Session_Inv.thy ===== *)
theory Session_Inv
  imports Session_Feed Engine_Frame
begin

text \<open>
  Whole sessions: a host that makes any calls in any order, and what holds in every state it can
  reach.
\<close>

section \<open>Calls and runs\<close>

datatype host_call =
    Feed bytes
  | TransportIsClosed
  | HostKeyDecision bool
  | AuthPassword str str
  | AuthPublicKey str bytes
  | OpenExec str
  | OpenShell pty_options
  | ChannelSend u32 bytes
  | ResizePty u32 u32 u32
  | CloseChannel u32
  | PollEvent
  | TakeOutgoing

definition drop_value :: "('s, 'a) op \<Rightarrow> ('s, unit) op" where
  "drop_value m = and_then m (\<lambda>_. ret ())"

fun call :: "'r crates \<Rightarrow> host_call \<Rightarrow> ('r session, unit) op" where
  "call E (Feed data) = feed_incoming E data"
| "call E TransportIsClosed = notify_transport_closed"
| "call E (HostKeyDecision accept) = provide_host_key_decision E accept"
| "call E (AuthPassword u p) = on_core (authenticate_password E u p)"
| "call E (AuthPublicKey u k) = on_core (authenticate_publickey E u k)"
| "call E (OpenExec c) = on_core (drop_value (open_exec E c))"
| "call E (OpenShell p) = on_core (drop_value (open_shell E p))"
| "call E (ChannelSend cid d) = on_core (drop_value (channel_send E cid d))"
| "call E (ResizePty cid c r) = on_core (resize_pty E cid c r)"
| "call E (CloseChannel cid) = on_core (close_channel E cid)"
| "call E PollEvent = update (\<lambda>s. snd (poll_event s))"
| "call E TakeOutgoing = update (\<lambda>s. snd (take_outgoing [] s))"

text \<open>A call that returned, with or without an error value.\<close>

inductive host_step :: "'r crates \<Rightarrow> host_call \<Rightarrow> 'r session \<Rightarrow> 'r session \<Rightarrow> bool"
  for E :: "'r crates" where
  returns: "call E c s = (r, s') \<Longrightarrow> r \<noteq> Panic \<Longrightarrow> host_step E c s s'"

inductive_cases host_stepE: "host_step E c s s'"
inductive_simps host_step_simps: "host_step E c s s'"

inductive runs :: "'r crates \<Rightarrow> 'r session \<Rightarrow> host_call list \<Rightarrow> 'r session \<Rightarrow> bool"
  for E :: "'r crates" and s0 :: "'r session" where
  none: "runs E s0 [] s0"
| more: "runs E s0 cs s \<Longrightarrow> host_step E c s s' \<Longrightarrow> runs E s0 (cs @ [c]) s'"

definition reachable :: "'r crates \<Rightarrow> 'r session \<Rightarrow> bool" where
  "reachable E s \<longleftrightarrow> (\<exists>r cs. runs E (session_new r) cs s)"

section \<open>Lifting a property of the engine\<close>

lemma triple_on_core:
  "triple N P m Q R \<Longrightarrow>
     triple N (\<lambda>s. P (core s)) (on_core m) (\<lambda>a s. Q a (core s)) (\<lambda>s. R (core s))"
  by (fastforce simp: triple_def on_core_def split: prod.splits result.splits)

lemma triple_drop_value: "triple N P m (\<lambda>_. Q) R \<Longrightarrow> triple N P (drop_value m) (\<lambda>_. Q) R"
  unfolding drop_value_def by (erule triple_and_then) (simp add: triple_def)

text \<open>
  A property of the engine that survives a packet and the end of the identification (where they
  fail, once the failure is recorded), and the progress of the scan, survives the loop. The loop
  only runs while the session is not paused.
\<close>

locale engine_property =
  fixes E :: "'r crates" and I :: "'r engine \<Rightarrow> bool"
  assumes packet: "partial (\<lambda>s. I s \<and> \<not> paused s) (handle_packet E w) (\<lambda>_. I) (\<lambda>s. \<forall>e. I (fail e s))"
    and identified: "partial (\<lambda>s. I s \<and> \<not> paused s) (ident_complete E) (\<lambda>_. I) (\<lambda>s. \<forall>e. I (fail e s))"
    and failed: "I s \<Longrightarrow> \<not> paused s \<Longrightarrow> I (fail e s)"
    and scanned: "I s \<Longrightarrow> I (s\<lparr>ident := ex\<rparr>)"
begin

definition running :: "'r session \<Rightarrow> bool" where
  "running s \<longleftrightarrow> I (core s) \<and> \<not> paused (core s)"

definition failing :: "'r session \<Rightarrow> bool" where
  "failing s \<longleftrightarrow> (\<forall>e. I (fail e (core s)))"

lemma scanned_running: "running s \<Longrightarrow> running (s\<lparr>core := (core s)\<lparr>ident := ex\<rparr>, incoming := i\<rparr>)"
  by (simp add: running_def scanned paused_def)

lemma running_failing: "running s \<Longrightarrow> failing s"
  by (simp add: running_def failing_def failed)

lemma feed_ident: "partial running feed_ident (\<lambda>_. running) failing"
proof -
  have "running (s\<lparr>core := (core s)\<lparr>ident := ex\<rparr>\<rparr>)" if "running s" for s ex
    using scanned_running [OF that, where ex = ex and i = "incoming s"] by simp
  then show ?thesis
    by (auto simp: triple_def feed_ident_def scanned_running running_failing
        split: prod.split result.split)
qed

lemma version_exchange: "partial running (drive_version_exchange E) (\<lambda>_ s. I (core s)) failing"
proof -
  have c: "partial running (on_core (ident_complete E)) (\<lambda>_ s. I (core s)) failing"
    using triple_on_core [OF identified] by (simp add: running_def [abs_def] failing_def [abs_def])
  have c': "partial running (and_then (on_core (ident_complete E)) (\<lambda>_. ret True))
      (\<lambda>_ s. I (core s)) failing"
    by (rule triple_and_then [OF c]) (simp add: triple_def)
  have r: "partial running (ret v) (\<lambda>_ s. I (core s)) failing" for v :: bool
    by (simp add: triple_def running_def)
  have "partial running (and_then feed_ident (\<lambda>_.
           and_then (look (\<lambda>s. ident_done (ident (core s)))) (\<lambda>d.
             if \<not> d then ret False
             else and_then (on_core (ident_complete E)) (\<lambda>_. ret True)))) (\<lambda>_ s. I (core s)) failing"
    by (rule triple_and_then [OF feed_ident], rule triple_and_then [where M = "\<lambda>_. running"],
        simp add: triple_def, intro triple_if r c')
  then show ?thesis by (auto simp: triple_def drive_version_exchange_def running_def)
qed

lemma packet_phase: "partial running (drive_packet_phase E) (\<lambda>_ s. I (core s)) failing"
proof -
  have p: "partial running (on_core (handle_packet E w)) (\<lambda>_ s. I (core s)) failing" for w
    using triple_on_core [OF packet] by (simp add: running_def [abs_def] failing_def [abs_def])
  have "running (s\<lparr>incoming := i\<rparr>)" if "running s" for s i
    using that by (simp add: running_def)
  then show ?thesis
    using p running_failing
    by (fastforce simp: triple_def drive_packet_phase_def running_def
        split: result.splits prod.splits)
qed

lemma step: "partial running (drive_step E) (\<lambda>_ s. I (core s)) failing"
  using version_exchange packet_phase by (simp add: triple_def drive_step_def)

lemma loop: "I (core s) \<Longrightarrow> drive E s = (Ok (), s') \<Longrightarrow> I (core s')"
proof (induction "length (incoming s)" arbitrary: s rule: less_induct)
  case less
  from less(3) show ?case
  proof (cases rule: drive_cases)
    case paused
    with less(2) show ?thesis by simp
  next
    case (progress s1)
    then have "running s" using less(2) by (simp add: running_def)
    with progress triple_Ok [OF step] less(1) drive_step_progress show ?thesis by blast
  next
    case waits
    then have "running s" using less(2) by (simp add: running_def)
    with waits triple_Ok [OF step] show ?thesis by blast
  next
    case (error e s1)
    then have "running s" using less(2) by (simp add: running_def)
    with error triple_Err [OF step] show ?thesis by (auto simp: fail_session_def failing_def)
  qed
qed

lemma feed: "I (core s) \<Longrightarrow> feed_incoming E d s = (Ok (), s') \<Longrightarrow> I (core s')"
  using loop [of "s\<lparr>incoming := incoming s @ d\<rparr>" s'] by (simp add: feed_incoming_def)

end

section \<open>The invariant holds in every reachable state\<close>

lemma ok_handle_packet: "preserves (engine_ok E) (handle_packet E w)"
proof -
  have o: "preserves (engine_ok E) (open_packet E w)"
    by (auto simp: triple_def open_packet_def engine_ok_def kex_verified_def exchange_ready_def
        split: option.split prod.split result.split)
  have "preserves (engine_ok E) (case p of [] \<Rightarrow> fail_with err
       | t # _ \<Rightarrow> and_then (dispatch E t p) (\<lambda>_. ret True))" for p err
    by (cases p) (auto intro!: preserves_rules ok_dispatch)
  then show ?thesis
    unfolding handle_packet_def by (intro preserves_and_then o)
qed

lemma ok_ident_complete: "preserves (engine_ok E) (ident_complete E)"
proof -
  have k: "engine_ok E s \<Longrightarrow> engine_ok E (s\<lparr>peer_ident_line := l, phase := KexInProgress\<rparr>)" for s l
    by (simp add: engine_ok_simps)
  show ?thesis
    unfolding ident_complete_def by (intro preserves_rules ok_send_own_kexinit k)
qed

lemma ok_fail: "engine_ok E s \<Longrightarrow> engine_ok E (fail e s)"
  by (simp add: fail_def engine_ok_simps)

interpretation inv: engine_property E "engine_ok E" for E :: "'r crates"
  by unfold_locales
    (auto intro: triple_weaken [OF ok_handle_packet] triple_weaken [OF ok_ident_complete]
      ok_fail engine_ok_simps)

text \<open>The calls on the engine.\<close>

lemma ok_pending_then_send:
  "preserves (engine_ok E)
     (and_then (update (\<lambda>s. s\<lparr>pending_auth := Some a\<rparr>)) (\<lambda>_. send_ciphered E m))"
  unfolding triple_def
proof (intro allI impI)
  fix s
  assume ok: "engine_ok E s"
  obtain r s' where e: "send_ciphered E m (s\<lparr>pending_auth := Some a\<rparr>) = (r, s')" by fastforce
  then show "case and_then (update (\<lambda>s. s\<lparr>pending_auth := Some a\<rparr>)) (\<lambda>_. send_ciphered E m) s of
      (Ok a, s') \<Rightarrow> engine_ok E s' | (Err e, s') \<Rightarrow> engine_ok E s' | (Panic, s') \<Rightarrow> True"
    by (cases rule: send_ciphered_effect)
      (use ok e in \<open>auto simp: engine_ok_def kex_verified_def exchange_ready_def\<close>)
qed

lemma ok_authenticate:
  "preserves (engine_ok E) (authenticate_password E u p)"
  "preserves (engine_ok E) (authenticate_publickey E u k)"
proof -
  have n: "preserves (engine_ok E) (update (\<lambda>s. s\<lparr>username := Some u\<rparr>))"
    by (intro preserves_update engine_ok_simps)
  have "authenticate_password E u p = (\<lambda>s. if phase s \<noteq> UserAuth then ret () s
      else and_then (update (\<lambda>s. s\<lparr>username := Some u\<rparr>)) (\<lambda>_.
        and_then (update (\<lambda>s. s\<lparr>pending_auth := Some Password\<rparr>)) (\<lambda>_.
          send_ciphered E (password_build_request u p))) s)"
    by (rule ext) (simp add: authenticate_password_def)
  moreover have "preserves (engine_ok E) (and_then (update (\<lambda>s. s\<lparr>username := Some u\<rparr>)) (\<lambda>_.
      and_then (update (\<lambda>s. s\<lparr>pending_auth := Some Password\<rparr>)) (\<lambda>_.
          send_ciphered E (password_build_request u p))))"
    by (intro preserves_and_then [OF n] ok_pending_then_send)
  ultimately show "preserves (engine_ok E) (authenticate_password E u p)"
    by (simp add: triple_def)
  have "preserves (engine_ok E) (and_then (update (\<lambda>s. s\<lparr>username := Some u\<rparr>)) (\<lambda>_.
           and_then (lift_r (public_key_auth_new E u k)) (\<lambda>a.
           and_then (update (\<lambda>s. s\<lparr>pending_auth := Some (PublicKeyQuery a k)\<rparr>)) (\<lambda>_.
             send_ciphered E (build_query a)))))"
    by (intro preserves_and_then [OF n] preserves_and_then [OF preserves_simple(4)]
        ok_pending_then_send)
  then show "preserves (engine_ok E) (authenticate_publickey E u k)"
    by (simp add: triple_def authenticate_publickey_def)
qed

lemma ok_open: "preserves (engine_ok E) (open_exec E c)" "preserves (engine_ok E) (open_shell E p)"
proof -
  have t: "preserves (engine_ok E) (on_channels (\<lambda>t. case table_open k t of (r, t') \<Rightarrow> (Ok r, t')))"
    for k by (intro ok_on_channels) (simp add: table_open_ok case_prod_beta)
  show "preserves (engine_ok E) (open_exec E c)"
    unfolding open_exec_def case_prod_beta
    by (intro preserves_rules t [unfolded case_prod_beta] ok_send) (simp add: engine_ok_simps)
  show "preserves (engine_ok E) (open_shell E p)"
    unfolding open_shell_def case_prod_beta
    by (intro preserves_rules t [unfolded case_prod_beta] ok_send) (simp add: engine_ok_simps)
qed

text \<open>The sending loop changes nothing of a channel but the remote window.\<close>

lemma data_loop_frame: "\<exists>w. snd (data_loop data c ms ch) = ch\<lparr>remote_window := w\<rparr>"
proof (induction data c ms ch rule: data_loop.induct)
  case (1 data c ms ch)
  let ?n = "min (min (length data - c) (unat (remote_max_packet ch))) (unat (remote_window ch))"
  have stop: "snd (data_loop data c ms ch) = ch \<Longrightarrow> ?case"
    by (intro exI [of _ "remote_window ch"]) simp
  show ?case
  proof (cases "(c < length data \<and> remote_window ch > 0) \<and> ?n \<noteq> 0 \<and> remote_id ch \<noteq> None")
    case True
    then obtain rid where rid: "remote_id_or_panic ch = Ok rid"
      by (auto simp: remote_id_or_panic_def)
    with 1 [OF conjunct1 [OF True] refl _ refl rid] True
    obtain w where "snd (data_loop data (c + ?n)
        (ms @ [MSG_CHANNEL_DATA # write_u32 rid @ write_string (take ?n (drop c data))])
        (ch\<lparr>remote_window := remote_window ch - word_of_nat ?n\<rparr>)) =
      ch\<lparr>remote_window := remote_window ch - word_of_nat ?n, remote_window := w\<rparr>"
      by blast
    with True rid show ?thesis by (auto simp: data_loop.simps [of data c ms ch] Let_def)
  next
    case False
    then show ?thesis
      by (intro stop) (auto simp: data_loop.simps [of data c ms ch] Let_def remote_id_or_panic_def)
  qed
qed

lemma table_ok_send: "table_ok t \<Longrightarrow> table_ok (snd (channel_mut cid (build_data_messages d) t))"
proof (cases "ct_channels t cid")
  case (Some ch)
  assume t: "table_ok t"
  obtain w where "snd (build_data_messages d ch) = ch\<lparr>remote_window := w\<rparr>"
    using data_loop_frame [of d 0 "[]" ch] unfolding build_data_messages_def by blast
  moreover have "channel_ok (ch\<lparr>remote_window := w\<rparr>)" using t Some
    by (auto simp: channel_ok_def table_ok_def)
  ultimately show ?thesis
    using t Some by (auto simp: channel_mut_def table_ok_def case_prod_beta)
qed (simp add: channel_mut_def)

lemma ok_channel_calls:
  "preserves (engine_ok E) (channel_send E cid d)" "preserves (engine_ok E) (resize_pty E cid co ro)"
  "preserves (engine_ok E) (close_channel E cid)"
proof -
  have t: "preserves (engine_ok E) (on_channels (channel_mut cid (build_data_messages d)))"
    by (intro ok_on_channels table_ok_send)
  have "preserves (engine_ok E) (and_then (on_channels (channel_mut cid (build_data_messages d))) (\<lambda>(consumed, messages).
           and_then (for_each (send_ciphered E) messages) (\<lambda>_.
           and_then (if consumed < length d then push_event (ChannelWindowFull cid) else ret ()) (\<lambda>_.
             ret consumed))))"
    unfolding case_prod_beta by (intro preserves_rules t ok_send ok_push_event)
  then show "preserves (engine_ok E) (channel_send E cid d)"
    by (simp add: triple_def channel_send_def)
  have s: "preserves (engine_ok E) (and_then (lift_r (build_close_message ch)) (send_ciphered E))"
    "preserves (engine_ok E) (send_ciphered E m)" for ch m
    by (intro preserves_rules ok_send)+
  from s(2) show "preserves (engine_ok E) (resize_pty E cid co ro)"
    by (simp add: triple_def resize_pty_def split: option.split)
  from s(1) show "preserves (engine_ok E) (close_channel E cid)"
    by (simp add: triple_def close_channel_def split: option.split)
qed

text \<open>
  Accepting the host key leaves the waiting phase; in between, the invariant holds but for the
  phase.
\<close>

definition ok_but_phase :: "'r crates \<Rightarrow> 'r engine \<Rightarrow> bool" where
  "ok_but_phase E s \<longleftrightarrow> engine_ok E (s\<lparr>phase := ServiceRequest\<rparr>)"

lemma sendable_ok_but_phase: "sendable (ok_but_phase E)"
  by (auto simp: sendable_def ok_but_phase_def engine_ok_def kex_verified_def exchange_ready_def)

lemma ok_accept_host_key:
  "partial (engine_ok E) (accept_host_key E) (\<lambda>_. engine_ok E) (\<lambda>_. True)"
  unfolding accept_host_key_def
proof (rule triple_update_then [where P' = "ok_but_phase E"], goal_cases)
  case (1 s)
  then show ?case by (auto simp: ok_but_phase_def engine_ok_def kex_verified_def exchange_ready_def)
next
  case 2
  have keys: "ok_but_phase E (case pending_ciphers s of
         Some ciphers \<Rightarrow> s\<lparr>pending_ciphers := None, cs_cipher := Some (dc_cs ciphers),
                          pending_sc_cipher := Some (dc_sc ciphers)\<rparr>
       | None \<Rightarrow> s)" if "ok_but_phase E s" for s
    using that by (auto simp: ok_but_phase_def engine_ok_def kex_verified_def exchange_ready_def split: option.split)
  have w: "partial P m Q I \<Longrightarrow> partial P m Q (\<lambda>_. True)" for P I and m :: "('a engine, unit) op" and Q
    by (erule triple_weaken) auto
  show ?case
    by (rule triple_and_then [OF w [OF preserves_send_plaintext [OF sendable_ok_but_phase]]],
        rule triple_update_then [where P' = "ok_but_phase E"], erule keys,
        unfold set_phase_def, rule triple_update_then [where P' = "engine_ok E"])
      (auto simp: ok_but_phase_def intro: w ok_send)
qed

lemma drive_result: "drive E s = (r, s') \<Longrightarrow> r \<noteq> Panic \<Longrightarrow> r = Ok ()"
  using drive_not_Err [of E s] by (cases r) auto

lemma on_core_cases:
  assumes "on_core m s = (r, s')" and "r \<noteq> Panic" and "preserves I m" and "I (core s)"
  shows "I (core s')"
  using triple_on_core [OF assms(3)] assms
  by (cases r) (fastforce simp: triple_def split: prod.splits)+

lemma engine_ok_accept:
  assumes "engine_ok E (core s)" and "and_then (on_core (accept_host_key E)) (\<lambda>_. drive E) s = (r, s')"
    and "r \<noteq> Panic"
  shows "engine_ok E (core s')"
proof -
  obtain q s1 where a: "on_core (accept_host_key E) s = (q, s1)" by fastforce
  have ne: "fst (accept_host_key E c) \<noteq> Err e" for c e
  proof
    assume "fst (accept_host_key E c) = Err e"
    then obtain c' where "accept_host_key E c = (Err e, c')" by (metis prod.collapse)
    then show False
      by (auto simp: accept_host_key_def and_then_eq_Err set_phase_def send_plaintext_def
          split: prod.splits elim!: send_ciphered_effect)
  qed
  show ?thesis
  proof (cases q)
    case (Ok u)
    have "engine_ok E (core s1)"
      using triple_Ok [OF triple_on_core [OF ok_accept_host_key] assms(1), of u] a Ok by simp
    moreover have "drive E s1 = (r, s')" using assms(2) a Ok by (simp add: and_then_def)
    ultimately show ?thesis using inv.loop [of E s1 s'] drive_result assms(3) by metis
  next
    case (Err e)
    with a ne [of "core s" e] show ?thesis by (auto simp: on_core_def split: prod.splits)
  next
    case Panic
    with a assms(2,3) show ?thesis by (simp add: and_then_def)
  qed
qed

lemma call_keeps_ok:
  assumes "host_step E c s s'" and "engine_ok E (core s)"
  shows "engine_ok E (core s')"
proof -
  obtain r where c: "call E c s = (r, s')" "r \<noteq> Panic" using assms(1) by (auto elim: host_stepE)
  show ?thesis
  proof (cases c)
    case (Feed d)
    then show ?thesis
      using c assms(2) inv.feed drive_result by (metis call.simps(1) feed_incoming_def)
  next
    case TransportIsClosed
    then show ?thesis
      using c assms(2) by (auto simp: notify_transport_closed_def fail_session_def ok_fail)
  next
    case (HostKeyDecision a)
    then show ?thesis
      using c assms(2) engine_ok_accept [OF assms(2)]
      by (auto simp: provide_host_key_decision_def fail_session_def ok_fail split: if_splits)
  next
    case PollEvent
    then show ?thesis
      using c assms(2) by (auto simp: poll_event_def engine_ok_simps split: list.splits)
  next
    case TakeOutgoing
    then show ?thesis using c assms(2) by (auto simp: take_outgoing_def engine_ok_simps)
  qed (use c assms(2) in \<open>auto elim!: on_core_cases intro!: ok_authenticate ok_channel_calls
        ok_open triple_drop_value\<close>)
qed

theorem reachable_ok: "reachable E s \<Longrightarrow> engine_ok E (core s)"
proof -
  have "engine_ok E (core s)" if "runs E (session_new r) cs s" for r cs
    using that
    by (induction rule: runs.induct) (auto simp: session_new_def engine_new_ok call_keeps_ok)
  then show "reachable E s \<Longrightarrow> engine_ok E (core s)" by (auto simp: reachable_def)
qed

end
