(* ===== verification/Session_Safety.thy ===== *)
theory Session_Safety
  imports Session_Inv
begin

text \<open>
  What a host can rely on whatever the server sends: no cipher before it has accepted a verified
  host key, and one terminal event, last, exactly when the session closes.
\<close>

section \<open>No cipher without an accepted host key\<close>

definition unkeyed :: "'r engine \<Rightarrow> bool" where
  "unkeyed s \<longleftrightarrow> keys_of s = (False, None, None)"

lemma unkeyed_iff: "engine_ok E s \<Longrightarrow> unkeyed s \<longleftrightarrow> cs_cipher s = None"
  by (auto simp: unkeyed_def keys_of_def engine_ok_def)

lemma unkeyed_fail [simp]: "unkeyed (fail e s) = unkeyed s"
  by (simp add: unkeyed_def keys_of_def fail_def)

lemma dispatch_unkeyed: "preserves unkeyed (dispatch E t p)"
proof -
  consider "t = 1" | "t = MSG_NEWKEYS" | "t \<noteq> 1" "t \<noteq> MSG_NEWKEYS" by blast
  then show ?thesis
  proof cases
    case 1
    then have "dispatch E t p = handle_disconnect p" by (intro ext) (simp add: dispatch_def)
    moreover have "preserves unkeyed (handle_disconnect p)"
      unfolding handle_disconnect_def case_prod_beta set_phase_def push_event_def
      by (intro preserves_rules) (simp_all add: unkeyed_def keys_of_def)
    ultimately show ?thesis by simp
  next
    case 2
    then have "dispatch E t p = handle_newkeys"
      by (intro ext) (simp add: dispatch_def MSG_NEWKEYS_def MSG_KEXINIT_def MSG_KEXDH_REPLY_def
          MSG_KEX_ECDH_REPLY_def)
    moreover have "preserves unkeyed handle_newkeys"
      unfolding handle_newkeys_def
      by (intro triple_update_then [where P' = unkeyed] triple_look_then)
        (auto simp: unkeyed_def keys_of_def triple_def)
    ultimately show ?thesis by simp
  next
    case 3
    then show ?thesis unfolding unkeyed_def by (rule keys.dispatch_keeps)
  qed
qed

lemma handle_packet_unkeyed: "preserves unkeyed (handle_packet E w)"
proof -
  have "preserves unkeyed (open_packet E w)"
    by (auto simp: triple_def open_packet_def unkeyed_def keys_of_def
        split: option.split prod.split result.split)
  moreover have "preserves unkeyed (case p of [] \<Rightarrow> fail_with err
       | t # _ \<Rightarrow> and_then (dispatch E t p) (\<lambda>_. ret True))" for p err
    by (cases p) (auto intro!: preserves_rules dispatch_unkeyed)
  ultimately show ?thesis unfolding handle_packet_def by (intro preserves_and_then)
qed

lemma sendable_unkeyed: "sendable unkeyed"
  by (auto simp: sendable_def unkeyed_def keys_of_def)

lemma send_own_kexinit_keeps:
  assumes "sendable I" and "\<And>s i. I s \<Longrightarrow> I (s\<lparr>own_kexinit_payload := i\<rparr>)"
  shows "preserves I (send_own_kexinit E)"
proof -
  have k: "preserves I (and_then (lift_r (kexinit_to_payload E kex)) (\<lambda>p.
      and_then (update (\<lambda>s. s\<lparr>own_kexinit_payload := p\<rparr>)) (\<lambda>_. send_plaintext E p)))" for kex
    by (intro preserves_rules preserves_send [OF assms(1)] assms(2))
  note kept = this [unfolded triple_def, rule_format]
  show ?thesis
    unfolding triple_def
  proof (intro allI impI)
    fix s
    assume "I s"
    obtain kex r where k: "kexinit_ours (fill_buf E) (rng s) = (kex, r)" by fastforce
    from kept [OF sendable_rng [OF assms(1) \<open>I s\<close>], of kex r]
    show "case send_own_kexinit E s of (Ok a, s') \<Rightarrow> I s' | (Err e, s') \<Rightarrow> I s' | (Panic, s') \<Rightarrow> True"
      by (simp only: send_own_kexinit_def k Let_def prod.case)
  qed
qed

lemma ident_complete_keeps:
  assumes "sendable I" and "\<And>s i. I s \<Longrightarrow> I (s\<lparr>own_kexinit_payload := i\<rparr>)"
    and "\<And>s l. I s \<Longrightarrow> I (s\<lparr>peer_ident_line := l, phase := KexInProgress\<rparr>)"
  shows "preserves I (ident_complete E)"
  unfolding ident_complete_def
  by (intro preserves_rules send_own_kexinit_keeps assms)

interpretation unkeyed: engine_property E unkeyed for E :: "'r crates"
proof unfold_locales
  fix w
  show "partial (\<lambda>s. unkeyed s \<and> \<not> paused s) (handle_packet E w) (\<lambda>_. unkeyed)
      (\<lambda>s. \<forall>e. unkeyed (fail e s))"
    by (rule triple_weaken [OF handle_packet_unkeyed]) simp_all
next
  have "preserves unkeyed (ident_complete E)"
    by (intro ident_complete_keeps sendable_unkeyed) (simp_all add: unkeyed_def keys_of_def)
  then show "partial (\<lambda>s. unkeyed s \<and> \<not> paused s) (ident_complete E) (\<lambda>_. unkeyed)
      (\<lambda>s. \<forall>e. unkeyed (fail e s))"
    by (rule triple_weaken) simp_all
qed (simp_all, simp_all add: unkeyed_def keys_of_def)

text \<open>The calls that go through the engine only: what they keep, given the fields they write.\<close>

lemma engine_calls_keep:
  assumes snd: "sendable I"
    and upd: "\<And>s u. I s \<Longrightarrow> I (s\<lparr>username := u\<rparr>)" "\<And>s a. I s \<Longrightarrow> I (s\<lparr>pending_auth := a\<rparr>)"
      "\<And>s t. I s \<Longrightarrow> I (s\<lparr>channels := t\<rparr>)" "\<And>s cs. I s \<Longrightarrow> I (s\<lparr>channel_setup := cs\<rparr>)"
      "\<And>s pe. I s \<Longrightarrow> I (s\<lparr>pending_exec := pe\<rparr>)" "\<And>s pp. I s \<Longrightarrow> I (s\<lparr>pending_pty := pp\<rparr>)"
      "\<And>s c. I s \<Longrightarrow> I (s\<lparr>events := events s @ [ChannelWindowFull c]\<rparr>)"
    and step: "call E c s = (r, s')" "r \<noteq> Panic" "I (core s)"
    and c: "c \<notin> {TransportIsClosed, PollEvent, TakeOutgoing}" "\<forall>d. c \<noteq> Feed d"
      "\<forall>a. c \<noteq> HostKeyDecision a"
  shows "I (core s')"
proof -
  note send = preserves_send [OF snd]
  have on: "preserves I (on_channels m)" for m :: "(channel_table, 'b) op"
    using upd(3) by (fastforce simp: triple_def on_channels_def split: prod.splits result.splits)
  have "authenticate_password E u p = (\<lambda>s. if phase s \<noteq> UserAuth then ret () s
      else and_then (update (\<lambda>s. s\<lparr>username := Some u\<rparr>)) (\<lambda>_.
        and_then (update (\<lambda>s. s\<lparr>pending_auth := Some Password\<rparr>)) (\<lambda>_.
          send_ciphered E (password_build_request u p))) s)" for u p
    by (rule ext) (simp add: authenticate_password_def)
  moreover have "preserves I (and_then (update (\<lambda>s. s\<lparr>username := Some u\<rparr>)) (\<lambda>_.
      and_then (update (\<lambda>s. s\<lparr>pending_auth := Some Password\<rparr>)) (\<lambda>_.
          send_ciphered E (password_build_request u p))))" for u p
    by (intro preserves_rules send upd)
  ultimately have pw: "preserves I (authenticate_password E u p)" for u p
    by (simp add: triple_def)
  have "preserves I (and_then (update (\<lambda>s. s\<lparr>username := Some u\<rparr>)) (\<lambda>_.
           and_then (lift_r (public_key_auth_new E u k)) (\<lambda>a.
           and_then (update (\<lambda>s. s\<lparr>pending_auth := Some (PublicKeyQuery a k)\<rparr>)) (\<lambda>_.
             send_ciphered E (build_query a)))))" for u k
    by (intro preserves_rules send upd)
  then have pk: "preserves I (authenticate_publickey E u k)" for u k
    by (simp add: triple_def authenticate_publickey_def)
  have ex: "preserves I (open_exec E cmd)" for cmd
    unfolding open_exec_def case_prod_beta by (intro preserves_rules on send) (simp add: upd)
  have sh: "preserves I (open_shell E pty)" for pty
    unfolding open_shell_def case_prod_beta by (intro preserves_rules on send) (simp add: upd)
  have "preserves I (and_then (on_channels (channel_mut cid (build_data_messages d))) (\<lambda>(consumed, messages).
           and_then (for_each (send_ciphered E) messages) (\<lambda>_.
           and_then (if consumed < length d then push_event (ChannelWindowFull cid) else ret ()) (\<lambda>_.
             ret consumed))))" for cid d
    unfolding case_prod_beta push_event_def by (intro preserves_rules on send upd)
  then have cs: "preserves I (channel_send E cid d)" for cid d
    by (simp add: triple_def channel_send_def)
  have s: "preserves I (and_then (lift_r (build_close_message ch)) (send_ciphered E))"
    "preserves I (send_ciphered E m)" for ch m
    by (intro preserves_rules send)+
  from s(2) have rs: "preserves I (resize_pty E cid co ro)" for cid co ro
    by (simp add: triple_def resize_pty_def split: option.split)
  from s(1) have cl: "preserves I (close_channel E cid)" for cid
    by (simp add: triple_def close_channel_def split: option.split)
  show ?thesis
    using step c
    by (cases c) (auto elim!: on_core_cases intro!: pw pk ex sh cs rs cl triple_drop_value)
qed

lemma call_unkeyed:
  assumes "host_step E c s s'" and "unkeyed (core s)"
    and "c = HostKeyDecision True \<longrightarrow> phase (core s) \<noteq> AwaitingHostKeyDecision"
  shows "unkeyed (core s')"
proof -
  obtain r where c: "call E c s = (r, s')" "r \<noteq> Panic" using assms(1) by (auto elim: host_stepE)
  show ?thesis
  proof (cases c)
    case (Feed d)
    then show ?thesis
      using c assms(2) unkeyed.feed drive_result by (metis call.simps(1) feed_incoming_def)
  next
    case TransportIsClosed
    then show ?thesis
      using c assms(2) by (auto simp: notify_transport_closed_def fail_session_def)
  next
    case (HostKeyDecision a)
    then show ?thesis
      using c assms(2,3) by (auto simp: provide_host_key_decision_def fail_session_def split: if_splits)
  next
    case PollEvent
    then show ?thesis
      using c assms(2) by (auto simp: poll_event_def unkeyed_def keys_of_def split: list.splits)
  next
    case TakeOutgoing
    then show ?thesis using c assms(2) by (auto simp: take_outgoing_def unkeyed_def keys_of_def)
  qed (rule engine_calls_keep [OF sendable_unkeyed _ _ _ _ _ _ _ c assms(2)];
      simp add: unkeyed_def keys_of_def)+
qed

lemma accepted_key:
  assumes "runs E (session_new r) cs s" and "cs_cipher (core s) \<noteq> None"
  shows "\<exists>pre post t. cs = pre @ HostKeyDecision True # post \<and> runs E (session_new r) pre t \<and>
    phase (core t) = AwaitingHostKeyDecision \<and> kex_verified E (core t)"
  using assms
proof (induction rule: runs.induct)
  case none
  then show ?case by (simp add: session_new_def engine_new_def)
next
  case (more cs s c s')
  show ?case
  proof (cases "cs_cipher (core s) = None")
    case True
    have "reachable E s" using more.hyps(1) by (auto simp: reachable_def)
    then have ok: "engine_ok E (core s)" by (rule reachable_ok)
    then have "unkeyed (core s)" using True by (simp add: unkeyed_iff)
    moreover have "\<not> unkeyed (core s')" using more.prems by (auto simp: unkeyed_def keys_of_def)
    ultimately have "c = HostKeyDecision True" and w: "phase (core s) = AwaitingHostKeyDecision"
      using call_unkeyed [OF more.hyps(2)] by blast+
    moreover have "kex_verified E (core s)" using ok w by (simp add: engine_ok_def)
    ultimately show ?thesis using more.hyps(1) by blast
  next
    case False
    with more.IH obtain pre post t where "cs = pre @ HostKeyDecision True # post"
      "runs E (session_new r) pre t" "phase (core t) = AwaitingHostKeyDecision"
      "kex_verified E (core t)" by blast
    then show ?thesis by (intro exI [of _ pre] exI [of _ "post @ [c]"] exI [of _ t]) simp
  qed
qed

section \<open>One terminal event\<close>

lemma closes_continues: "closes old s \<Longrightarrow> \<not> continues old s"
  by (simp add: closes_def continues_def)

lemma handle_packet_history:
  "partial (continues old) (handle_packet E w) (\<lambda>_ s. continues old s \<or> closes old s) (continues old)"
proof -
  have o: "preserves (continues old) (open_packet E w)"
    by (auto simp: triple_def open_packet_def continues_def
        split: option.split prod.split result.split)
  have "partial (continues old) (case p of [] \<Rightarrow> fail_with err
       | t # _ \<Rightarrow> and_then (dispatch E t p) (\<lambda>_. ret True))
       (\<lambda>_ s. continues old s \<or> closes old s) (continues old)" for p err
    by (cases p) (auto intro!: triple_and_then [OF dispatch_history] triple_ret triple_fail)
  then show ?thesis unfolding handle_packet_def by (rule triple_and_then [OF o])
qed

lemma history_fail:
  "(continues old s \<or> closes old s) \<and> \<not> paused s \<Longrightarrow> continues old (fail e s) \<or> closes old (fail e s)"
  using fail_closes [of old s e] by (auto simp: closes_def [of old s] paused_def)

lemma history_running: "(continues old s \<or> closes old s) \<and> \<not> paused s \<Longrightarrow> continues old s"
  by (auto simp: closes_def paused_def)

interpretation history_loop: engine_property E "\<lambda>s. continues old s \<or> closes old s"
  for E :: "'r crates" and old
proof unfold_locales
  fix w
  show "partial (\<lambda>s. (continues old s \<or> closes old s) \<and> \<not> paused s) (handle_packet E w)
      (\<lambda>_ s. continues old s \<or> closes old s)
      (\<lambda>s. \<forall>e. continues old (fail e s) \<or> closes old (fail e s))"
    by (rule triple_weaken [OF handle_packet_history history_running])
      (auto intro: fail_closes)
next
  have "preserves (continues old) (ident_complete E)"
    by (intro ident_complete_keeps history.sending) (simp_all add: continues_def)
  then show "partial (\<lambda>s. (continues old s \<or> closes old s) \<and> \<not> paused s) (ident_complete E)
      (\<lambda>_ s. continues old s \<or> closes old s)
      (\<lambda>s. \<forall>e. continues old (fail e s) \<or> closes old (fail e s))"
    by (rule triple_weaken [OF _ history_running]) (auto intro: fail_closes)
next
  fix s e
  assume "continues old s \<or> closes old s" and "\<not> paused s"
  then show "continues old (fail e s) \<or> closes old (fail e s)" by (intro history_fail) simp
next
  fix s ex
  assume "continues old s \<or> closes old s"
  then show "continues old (s\<lparr>ident := ex\<rparr>) \<or> closes old (s\<lparr>ident := ex\<rparr>)"
    by (simp add: continues_def closes_def)
qed

lemma accept_continues:
  "preserves (continues old) (accept_host_key E)"
proof -
  have k: "continues old s \<Longrightarrow> continues old (case pending_ciphers s of
         Some ciphers \<Rightarrow> s\<lparr>pending_ciphers := None, cs_cipher := Some (dc_cs ciphers),
                          pending_sc_cipher := Some (dc_sc ciphers)\<rparr>
       | None \<Rightarrow> s)" for s
    by (simp add: continues_def split: option.split)
  show ?thesis
    unfolding accept_host_key_def
    by (intro preserves_rules history.send history.phase k) (simp_all add: continues_def)
qed

lemma call_history:
  assumes "host_step E c s s'" and "phase (core s) \<noteq> Closed" and "c \<noteq> PollEvent"
  shows "continues (events (core s)) (core s') \<or> closes (events (core s)) (core s')"
proof -
  let ?old = "events (core s)"
  have start: "continues ?old (core s)" using assms(2) by (simp add: continues_def)
  obtain r where c: "call E c s = (r, s')" "r \<noteq> Panic" using assms(1) by (auto elim: host_stepE)
  show ?thesis
  proof (cases c)
    case (Feed d)
    then show ?thesis
      using c start history_loop.feed [of ?old s E d s'] drive_result
      by (metis call.simps(1) feed_incoming_def)
  next
    case TransportIsClosed
    then show ?thesis
      using c start assms(2) by (auto simp: notify_transport_closed_def fail_session_def fail_closes)
  next
    case (HostKeyDecision a)
    show ?thesis
    proof (cases "phase (core s) = AwaitingHostKeyDecision \<and> a")
      case True
      obtain q s1 where o: "on_core (accept_host_key E) s = (q, s1)" by fastforce
      with c HostKeyDecision True have rest: "and_then (lift_r q) (\<lambda>_. drive E) s1 = (r, s')"
        by (cases q) (auto simp: provide_host_key_decision_def and_then_def)
      then have q: "q \<noteq> Panic" using c(2) by auto
      have s1: "continues ?old (core s1)" by (rule on_core_cases [OF o q accept_continues start])
      show ?thesis
      proof (cases q)
        case (Ok u)
        with rest have "drive E s1 = (r, s')" by simp
        then show ?thesis using history_loop.loop [of ?old s1 E s'] s1 drive_result c(2) by metis
      qed (use rest s1 q in auto)
    qed (use c HostKeyDecision start in \<open>auto simp: provide_host_key_decision_def fail_session_def
        fail_closes split: if_splits\<close>)
  next
    case PollEvent
    then show ?thesis using assms(3) by simp
  next
    case TakeOutgoing
    then show ?thesis using c start by (auto simp: take_outgoing_def continues_def)
  qed (rule disjI1 [OF engine_calls_keep [OF history.sending _ _ _ _ _ _
        continues_push [OF _ terminal_simps(8)] c start]]; simp add: continues_def)+
qed

section \<open>Closed is final\<close>

lemma call_closed:
  assumes "host_step E c s s'" and "phase (core s) = Closed"
  shows "phase (core s') = Closed \<and> (\<forall>e \<in> set (events (core s')). terminal e \<longrightarrow> e \<in> set (events (core s)))"
proof -
  let ?I = "\<lambda>t. phase t = Closed \<and> (\<forall>e \<in> set (events t). terminal e \<longrightarrow> e \<in> set (events (core s)))"
  have start: "?I (core s)" using assms(2) by simp
  have snd: "sendable ?I" by (auto simp: sendable_def)
  obtain r where c: "call E c s = (r, s')" "r \<noteq> Panic" using assms(1) by (auto elim: host_stepE)
  show ?thesis
  proof (cases c)
    case (Feed d)
    then show ?thesis
      using c assms(2) by (auto simp: feed_incoming_def paused_def drive_paused)
  next
    case PollEvent
    then show ?thesis using c assms(2) by (auto simp: poll_event_def split: list.splits)
  next
    case TransportIsClosed
    then show ?thesis using c assms(2) by (auto simp: notify_transport_closed_def)
  next
    case (HostKeyDecision a)
    then show ?thesis using c assms(2) by (auto simp: provide_host_key_decision_def)
  next
    case TakeOutgoing
    then show ?thesis using c assms(2) by (auto simp: take_outgoing_def)
  qed (rule engine_calls_keep [OF snd _ _ _ _ _ _ _ c start]; auto)+
qed

end
