(* ===== verification/Sample_Crates.thy ===== *)
theory Sample_Crates
  imports Session_Safety
begin

text \<open>
  A concrete instance of the crates: every operation computes, and the documented laws hold of
  it. It has no cryptographic strength; it shows that the hypotheses of the theorems can hold, and
  the theorems are run on it.
\<close>

unbundle bit_operations_syntax

definition toy_xor :: "bytes \<Rightarrow> bytes \<Rightarrow> bytes" where
  "toy_xor k = map (\<lambda>b. b XOR (case k of [] \<Rightarrow> 0 | x # _ \<Rightarrow> x))"

definition toy_tag :: "bytes \<Rightarrow> bytes \<Rightarrow> bytes" where
  "toy_tag n a = take 16 (n @ a @ replicate 16 0)"

definition toy_seal :: "bytes \<Rightarrow> bytes \<Rightarrow> bytes \<Rightarrow> bytes \<Rightarrow> (bytes \<times> bytes) option" where
  "toy_seal k n a m = Some (toy_xor k m, toy_tag n a)"

definition toy_open :: "bytes \<Rightarrow> bytes \<Rightarrow> bytes \<Rightarrow> bytes \<Rightarrow> bytes \<Rightarrow> bytes option" where
  "toy_open k n a c t = (if t = toy_tag n a then Some (toy_xor k c) else None)"

definition toy_mpint :: "bytes \<Rightarrow> bytes" where
  "toy_mpint bs =
     (let stripped = dropWhile (\<lambda>b. b = 0) bs;
          body = (if stripped \<noteq> [] \<and> hd stripped \<ge> 128 then 0 # stripped else stripped)
      in write_string body)"

definition toy_decode_read :: "nat \<Rightarrow> bytes \<Rightarrow> str + bytes \<times> bytes" where
  "toy_decode_read n b =
     (if n \<le> length b then Inr (take n b, drop n b) else Inl (lit ''unexpected end''))"

definition toy_decode_u8 :: "bytes \<Rightarrow> str + byte \<times> bytes" where
  "toy_decode_u8 b = (case b of [] \<Rightarrow> Inl (lit ''unexpected end'') | x # r \<Rightarrow> Inr (x, r))"

definition toy_decode_str :: "bytes \<Rightarrow> str + str \<times> bytes" where
  "toy_decode_str b =
     (if length b < 4 then Inl (lit ''unexpected end'')
      else toy_decode_read (unat (be_to_u32 (take 4 b))) (drop 4 b))"

definition toy_decode_bool :: "bytes \<Rightarrow> str + bool \<times> bytes" where
  "toy_decode_bool b = (case b of [] \<Rightarrow> Inl (lit ''unexpected end'') | x # r \<Rightarrow> Inr (x \<noteq> 0, r))"

text \<open>The crates over any random source: its \<open>fill\<close>, and the two draws of the key exchanges.\<close>

definition toy_over ::
    "(nat \<Rightarrow> 'r \<Rightarrow> (nat \<Rightarrow> byte) \<times> 'r) \<Rightarrow> ('r \<Rightarrow> bytes \<times> 'r) \<Rightarrow> (nat \<Rightarrow> 'r \<Rightarrow> nat \<times> 'r) \<Rightarrow> 'r crates" where
  "toy_over source draw_key draw_number =
     \<lparr>rng_fill = source,
      sha256 = (\<lambda>m i. word_of_nat (length m + i)),
      base64_unpadded = map (\<lambda>b. 65 + b mod 26),
      chacha_xor = (\<lambda>k n. toy_xor k),
      chachapoly_seal = toy_seal, chachapoly_open = toy_open,
      aesgcm_seal = toy_seal, aesgcm_open = toy_open,
      x25519_random = draw_key,
      x25519_public = (\<lambda>s. s),
      x25519_dh = (\<lambda>s p. map2 (XOR) s p),
      x25519_contributory = (\<lambda>s. s \<noteq> replicate 32 0),
      biguint_random = draw_number,
      biguint_from_be = (\<lambda>bs bits. if 8 * length bs \<le> bits then Some (be_val bs) else None),
      biguint_pow_mod = (\<lambda>b e m. b ^ e mod m),
      biguint_to_be = (\<lambda>n bits. be_bytes (bits div 8) n),
      mpint_encode = (\<lambda>bs. Some (toy_mpint bs)),
      encode_str = (\<lambda>s. Some (write_string s)),
      encode_bool = (\<lambda>b. Some (write_bool b)),
      decode_u8 = toy_decode_u8, decode_read = toy_decode_read,
      decode_str = toy_decode_str, decode_bool = toy_decode_bool,
      pubkey_from_bytes = Inr, pubkey_to_bytes = Inr,
      pubkey_algorithm = (\<lambda>k. lit ''ssh-ed25519''),
      signature_from_bytes = Inr, signature_to_bytes = Inr,
      verify_sig = (\<lambda>pk m s. s = pk @ m),
      privkey_algorithm = (\<lambda>k. Ed25519), privkey_public = (\<lambda>k. k),
      privkey_try_sign = (\<lambda>k m. Some (k @ m)), privkey_rsa = (\<lambda>k. None),
      rsa_biguint = (\<lambda>b. Some (be_val b)), rsa_from_components = (\<lambda>n e d ps. None),
      rsa_sign_sha512 = (\<lambda>k m. None), signature_new_rsa512 = Some\<rparr>"

declare toy_over_def [simp]

definition toy_crates :: "nat crates" where
  "toy_crates = toy_over (\<lambda>n r. (\<lambda>i. word_of_nat (r + i), Suc r))
     (\<lambda>r. (replicate 32 (word_of_nat r), Suc r)) (\<lambda>bits r. (r + 2, Suc r))"

lemmas toy_simps = toy_crates_def toy_over_def crates.simps

lemma toy_xor_twice [simp]: "toy_xor k (toy_xor k b) = b"
proof -
  have "(x XOR c) XOR c = x" for x c :: byte by (simp add: xor.assoc)
  then show ?thesis by (induction b) (simp_all add: toy_xor_def)
qed

lemma length_toy_xor [simp]: "length (toy_xor k b) = length b"
  by (simp add: toy_xor_def)

lemma length_toy_tag [simp]: "length (toy_tag n a) = 16"
  by (simp add: toy_tag_def)

lemma toy_over_ciphers_ok: "ciphers_ok (toy_over f g h)"
  by (simp add: ciphers_ok_def stream_cipher_ok_def aead_ok_def toy_simps toy_seal_def toy_open_def)

lemma toy_over_encoding_ok: "encoding_ok (toy_over f g h)"
proof -
  have s: "toy_decode_str (write_string s @ rest) = Inr (s, rest)" if "length s \<le> 0xFFFFF" for s rest
  proof -
    have "unat (word_of_nat (length s) :: u32) = length s" using that by (simp add: unat_of_nat)
    then show ?thesis
      by (simp add: toy_decode_str_def toy_decode_read_def write_string_def write_u32_def)
  qed
  have b: "toy_decode_bool (write_bool b @ rest) = Inr (b, rest)" for b rest
    by (simp add: toy_decode_bool_def write_bool_def)
  have r: "toy_decode_read (length d) (d @ rest) = Inr (d, rest)" for d rest
    by (simp add: toy_decode_read_def)
  have u: "toy_decode_u8 (x # rest) = Inr (x, rest)" for x rest by (simp add: toy_decode_u8_def)
  show ?thesis
    unfolding encoding_ok_def by (simp add: toy_simps s b r u)
qed

lemma toy_ciphers_ok: "ciphers_ok toy_crates"
  unfolding toy_crates_def by (rule toy_over_ciphers_ok)

lemma toy_encoding_ok: "encoding_ok toy_crates"
  unfolding toy_crates_def by (rule toy_over_encoding_ok)

lemma toy_biguint_ok: "biguint_ok toy_crates"
  by (simp add: biguint_ok_def toy_simps)

end
