(* ===== verification/Sample_Run.thy ===== *)
theory Sample_Run
  imports Sample_Crates
begin

text \<open>
  A whole run on a concrete instance of the crates, up to the first encrypted message: the
  identification line, a KEXINIT, an ECDH reply, and the host's acceptance of the key. Name-lists
  are coded in one byte each and the digest is constant, so that every step is small; the theorems
  with hypotheses on reached states are applied to it.
\<close>

definition demo_crates :: "nat crates" where
  "demo_crates = toy_crates\<lparr>rng_fill := (\<lambda>n r. (\<lambda>i. 0, r)), sha256 := (\<lambda>m i. 0),
     x25519_random := (\<lambda>r. ([5], r)), x25519_contributory := (\<lambda>s. True), x25519_dh := (\<lambda>s p. s),
     mpint_encode := Some, 
     encode_str := (\<lambda>s. Some [if s = join_with 44 KEX_ALGORITHMS then 0 else 1]),
     decode_str := (\<lambda>b. case b of [] \<Rightarrow> Inl [] | x # r \<Rightarrow>
        Inr (if x = 0 then lit ''curve25519-sha256'' else lit ''aes256-gcm@openssh.com'', r)),
     verify_sig := (\<lambda>pk m s. True)\<rparr>"

definition demo_ident :: bytes where "demo_ident = lit ''SSH-2.0-x'' @ [13, 10]"

definition demo_kexinit_payload :: bytes where
 "demo_kexinit_payload = [20, 0,0,0,0,0,0,0,0,0,0,0,0,0,0,0,0, 0,1,1,1,1,1,1,1,1,1,0,0,0,0,0]"

lemmas ident_eval = ident_feed_def ident_done_def ident_new_def demo_ident_def lit_def
    feed_loop.simps MAX_SCAN_BYTES_def Let_def line_of_def starts_with_def validate_version_def
    strip_prefix_def and_then_def

lemma demo_ident_fed: "ident_feed demo_ident ident_new = (Ok 11, \<lparr>scan_buf = [], total_scanned = 11, server_ident = Some (lit ''SSH-2.0-x'')\<rparr>)"
  by (simp add: ident_eval)

definition demo_kex :: kex_init where
  "demo_kex = (let k = [lit ''curve25519-sha256'']; ns = [lit ''aes256-gcm@openssh.com''] in
     \<lparr>cookie = [0,0,0,0,0,0,0,0,0,0,0,0,0,0,0,0], kex_algorithms = k, server_host_key_algorithms = ns,
      encryption_client_to_server = ns, encryption_server_to_client = ns,
      mac_client_to_server = ns, mac_server_to_client = ns, compression_client_to_server = ns,
      compression_server_to_client = ns, languages_client_to_server = ns,
      languages_server_to_client = ns, first_kex_packet_follows = False\<rparr>)"

lemma demo_parse: "kexinit_parse demo_crates demo_kexinit_payload = Ok demo_kex"
  by (simp add: kexinit_parse_def kexinit_parse_op_def decode_op_def read_name_list_def
      demo_crates_def toy_crates_def and_then_def demo_kex_def MSG_KEXINIT_def Let_def
      demo_kexinit_payload_def toy_decode_u8_def toy_decode_read_def toy_decode_bool_def
      lit_def)

lemma demo_negotiate: "negotiate_all demo_kex demo_kex = Ok \<lparr>neg_kex = lit ''curve25519-sha256'', neg_server_host_key = lit ''aes256-gcm@openssh.com'', neg_encryption_client_to_server = lit ''aes256-gcm@openssh.com'', neg_encryption_server_to_client = lit ''aes256-gcm@openssh.com''\<rparr>"
  by (simp add: negotiate_all_def negotiate_def demo_kex_def Let_def)

lemma demo_ours: "kexinit_ours (fill_buf demo_crates) r = (ours, r') \<Longrightarrow> kexinit_to_payload demo_crates ours = Ok demo_kexinit_payload"
  apply (clarsimp simp add: kexinit_ours_def kexinit_to_payload_def write_name_list_def
      demo_crates_def toy_crates_def fill_buf_def demo_kexinit_payload_def
      SERVER_HOST_KEY_ALGORITHMS_def KEX_ALGORITHMS_def ENCRYPTION_ALGORITHMS_def
      MAC_ALGORITHMS_def COMPRESSION_ALGORITHMS_def lit_def Let_def MSG_KEXINIT_def be_simps
      write_bool_def upt_rec)
  done


definition demo_seal :: "bytes \<Rightarrow> bytes" where
  "demo_seal p = fst (seal_plaintext (fill_buf demo_crates) p 0)"

lemma demo_fill: "snd (fill_buf demo_crates n r) = r"
  by (simp add: fill_buf_def demo_crates_def toy_crates_def)

lemma demo_plain: "seal_plaintext (fill_buf demo_crates) p 0 = (demo_seal p, 0)"
  using demo_fill by (simp add: demo_seal_def seal_plaintext_def pad_payload_with_prefix_def
      Let_def case_prod_beta)

definition demo1 :: "nat session" where
  "demo1 = \<lparr>core = (engine_new 0)\<lparr>phase := KexInProgress,
      ident := \<lparr>scan_buf = [], total_scanned = 11, server_ident = Some (lit ''SSH-2.0-x'')\<rparr>,
      peer_ident_line := lit ''SSH-2.0-x'', own_kexinit_payload := demo_kexinit_payload,
      outgoing := client_ident_line @ demo_seal demo_kexinit_payload\<rparr>, incoming = []\<rparr>"

lemma demo_own: "send_own_kexinit demo_crates s = (Ok (), s\<lparr>own_kexinit_payload := demo_kexinit_payload, outgoing := outgoing s @ demo_seal demo_kexinit_payload\<rparr>)" if "rng s = 0"
proof -
  obtain k r where k: "kexinit_ours (fill_buf demo_crates) (rng s) = (k, r)" by fastforce
  then have "r = rng s" using demo_fill by (auto simp: kexinit_ours_def case_prod_beta)
  then show ?thesis using that demo_ours [OF k] k by (simp add: send_own_kexinit_def
      send_plaintext_def demo_plain and_then_def)
qed

lemma demo_feed_ident: "feed_incoming demo_crates demo_ident (session_new 0) = (Ok (), demo1)"
proof -
  have d: "drive_step demo_crates ((session_new 0)\<lparr>incoming := demo_ident\<rparr>) = (Ok True, demo1)"
    by (simp add: drive_step_def session_new_def engine_new_def drive_version_exchange_def
        feed_ident_def demo_ident_fed [unfolded ident_new_def] ident_new_def ident_complete_def
        on_core_def and_then_def demo_own ident_done_def)
     (simp add: demo1_def engine_new_def demo_ident_def)
  have w: "drive_step demo_crates demo1 = (Ok False, demo1)"
    by (simp add: demo1_def drive_step_def drive_packet_phase_def)
  have "\<not> paused (core ((session_new 0)\<lparr>incoming := demo_ident\<rparr>))" "\<not> paused (core demo1)"
    by (simp_all add: paused_def session_new_def engine_new_def demo1_def)
  with drive_progress [OF _ d] drive_waits [OF _ w] show ?thesis
    by (simp add: feed_incoming_def session_new_def)
qed

section \<open>The key exchange\<close>

definition demo_kp :: ephemeral_keypair where
  "demo_kp = \<lparr>kp_secret = [5], kp_public_bytes = [5]\<rparr>"

definition demo_neg :: negotiated_algorithms where
  "demo_neg = \<lparr>neg_kex = lit ''curve25519-sha256'', neg_server_host_key = lit ''aes256-gcm@openssh.com'', neg_encryption_client_to_server = lit ''aes256-gcm@openssh.com'', neg_encryption_server_to_client = lit ''aes256-gcm@openssh.com''\<rparr>"

definition demo2 :: "nat session" where
  "demo2 = demo1\<lparr>core := (core demo1)\<lparr>peer_kexinit_payload := demo_kexinit_payload, active_kex := Some (Curve25519 demo_kp),
      negotiated := Some demo_neg,
      outgoing := outgoing (core demo1) @ demo_seal (ecdh_build_init_message demo_kp)\<rparr>\<rparr>"

definition demo_packet :: "bytes \<Rightarrow> bytes" where
  "demo_packet p = u32_to_be (word_of_nat (Suc (length p))) @ 0 # p"

lemma demo_packet_open: "length p < 1000 \<Longrightarrow> open_plaintext (demo_packet p) = Ok p"
  "length p < 1000 \<Longrightarrow> peek_plaintext_length (take 4 (demo_packet p)) = Ok (length (demo_packet p))"
  by (simp_all add: demo_packet_def open_plaintext_def peek_plaintext_length_def Let_def
      unat_of_nat strip_padding_def MAX_PACKET_LENGTH_def del: of_nat_Suc)

lemma demo_feed_packet:
  assumes "incoming s = []" and "sc_cipher (core s) = None" and "length p < 1000"
    and "phase (core s) \<noteq> VersionExchange" and "\<not> paused (core s)" and "p = t # ps"
    and "dispatch demo_crates t p (core s) = (Ok (), c)"
    and "phase c \<noteq> VersionExchange"
  shows "feed_incoming demo_crates (demo_packet p) s = (Ok (), s\<lparr>core := c\<rparr>)"
proof -
  let ?s = "s\<lparr>incoming := demo_packet p\<rparr>"
  have "4 \<le> length (demo_packet p)" by (simp add: demo_packet_def)
  then have d: "drive_step demo_crates ?s = (Ok True, s\<lparr>core := c\<rparr>)"
    using assms demo_packet_open [OF assms(3)]
    by (simp add: drive_step_def drive_packet_phase_def expected_len_def handle_packet_def
        open_packet_def and_then_def on_core_def)
  have w: "drive_step demo_crates (s\<lparr>core := c\<rparr>) = (Ok False, s\<lparr>core := c\<rparr>)"
    using assms by (simp add: drive_step_def drive_packet_phase_def)
  have "drive demo_crates (s\<lparr>core := c\<rparr>) = (Ok (), s\<lparr>core := c\<rparr>)"
    using drive_waits [OF _ w] by (cases "paused c") (simp_all add: drive.simps)
  then show ?thesis
    using drive_progress [OF _ d] assms(1,5) by (simp add: feed_incoming_def)
qed

lemma demo_feed_kexinit: "feed_incoming demo_crates (demo_packet demo_kexinit_payload) demo1 = (Ok (), demo2)"
proof -
  have k: "keypair_generate demo_crates r = (demo_kp, r)" for r
    by (simp add: keypair_generate_def demo_crates_def toy_crates_def demo_kp_def)
  have "dispatch demo_crates 20 demo_kexinit_payload (core demo1) = (Ok (), core demo2)"
    by (simp add: dispatch_def MSG_KEXINIT_def handle_peer_kexinit_def demo1_def demo2_def
        demo_parse demo_negotiate and_then_def with_rng_def k send_plaintext_or_ciphered_def
        engine_new_def send_plaintext_def demo_plain demo_neg_def)
  moreover have "demo_kexinit_payload = 20 # tl demo_kexinit_payload" "length demo_kexinit_payload < 1000"
    by (simp_all add: demo_kexinit_payload_def)
  moreover have "incoming demo1 = []" "sc_cipher (core demo1) = None" "phase (core demo1) = KexInProgress" "phase (core demo2) = KexInProgress"
    by (simp_all add: demo1_def demo2_def engine_new_def)
  ultimately show ?thesis
    using demo_feed_packet [of demo1 demo_kexinit_payload 20 "tl demo_kexinit_payload" "core demo2"]
    by (simp add: paused_def demo2_def)
qed


definition demo_reply :: bytes where
  "demo_reply = MSG_KEX_ECDH_REPLY # write_string [] @ write_string (replicate 32 0) @ write_string []"

definition demo_hash :: bytes where
  "demo_hash = replicate 32 0"

lemma demo_digest: "sha256_digest demo_crates m = demo_hash"
  by (rule nth_equalityI) (simp_all add: sha256_digest_def demo_crates_def demo_hash_def)

definition demo_ciphers :: derived_ciphers where
  "demo_ciphers = (let d = (\<lambda>t n. derive demo_crates [5] demo_hash demo_hash t n) in
     \<lparr>dc_cs = \<lparr>pc_alg = Aes256GcmOpenSsh, pc_keys = KeysGcm (d TAG_ENC_KEY_CLIENT_TO_SERVER 32) (d TAG_IV_CLIENT_TO_SERVER 12), pc_seq = 3\<rparr>,
      dc_sc = \<lparr>pc_alg = Aes256GcmOpenSsh, pc_keys = KeysGcm (d TAG_ENC_KEY_SERVER_TO_CLIENT 32) (d TAG_IV_SERVER_TO_CLIENT 12), pc_seq = 3\<rparr>\<rparr>)"

lemma demo_derive: "derive_ciphers demo_crates Aes256GcmOpenSsh [5] demo_hash demo_hash = Ok demo_ciphers"
  by (simp add: derive_ciphers_def with_initial_seq_def demo_ciphers_def Let_def
      PLAINTEXT_PACKETS_BEFORE_NEWKEYS_def)

definition demo3 :: "nat session" where
  "demo3 = demo2\<lparr>core := (core demo2)\<lparr>active_kex := None, session_id := Some demo_hash,
     pending_host_key := Some (\<lparr>hk_public = [], hk_blob = []\<rparr>, demo_hash, [5]),
     pending_ciphers := Some demo_ciphers, phase := AwaitingHostKeyDecision,
     events := [HostKeyVerify (lit ''ssh-ed25519'') (fingerprint_sha256 demo_crates \<lparr>hk_public = [], hk_blob = []\<rparr>) []]\<rparr>\<rparr>"

lemma demo_handle_reply:
  "handle_curve25519_reply demo_crates demo_reply (core demo2) = (Ok (), core demo3)"
proof -
  have p: "ecdh_parse_reply demo_reply = Ok \<lparr>er_host_key_blob = [], er_server_public = replicate 32 0, er_signature_blob = []\<rparr>"
    using ecdh_parse_reply_round_trip [of "[]" "replicate 32 0" "[]" "[]"]
    by (simp add: demo_reply_def fits_u32_def)
  have dh: "ecdh_diffie_hellman demo_crates demo_kp q = Ok [5]" for q
    by (simp add: ecdh_diffie_hellman_def demo_kp_def demo_crates_def)
  have mp: "encode_mpint demo_crates b = Ok b" for b
    by (simp add: encode_mpint_def demo_crates_def)
  have h: "ecdh_exchange_hash demo_crates a b c d e f g k = Ok demo_hash" for a b c d e f g k
    by (simp add: ecdh_exchange_hash_def ecdh_transcript_def mp demo_digest)
  have v: "verify_reply demo_crates [] [] demo_hash = Ok \<lparr>hk_public = [], hk_blob = []\<rparr>"
    by (simp add: verify_reply_def hostkey_parse_def verify_signature_def key_result_def
        demo_crates_def toy_crates_def)
  have c: "cipher_from_name (neg_encryption_client_to_server demo_neg) = Some Aes256GcmOpenSsh"
    by (simp add: demo_neg_def cipher_from_name_def)
  have n: "algorithm_name demo_crates k = lit ''ssh-ed25519''" for k
    by (simp add: algorithm_name_def demo_crates_def toy_crates_def)
  show ?thesis
    by (simp add: handle_curve25519_reply_def demo3_def demo2_def demo1_def engine_new_def p dh h v c mp n
        demo_derive ecdh_verify_reply_signature_def on_kex_result_def push_event_def)
qed

lemma demo_feed_reply: "feed_incoming demo_crates (demo_packet demo_reply) demo2 = (Ok (), demo3)"
proof -
  have "active_kex_is_curve25519 (core demo2)"
    by (simp add: active_kex_is_curve25519_def demo2_def)
  then have "dispatch demo_crates 31 demo_reply (core demo2) = (Ok (), core demo3)"
    by (simp add: dispatch_def MSG_KEXINIT_def MSG_KEX_ECDH_REPLY_def demo_handle_reply)
  moreover have "demo_reply = 31 # tl demo_reply" "length demo_reply < 1000"
    by (simp_all add: demo_reply_def MSG_KEX_ECDH_REPLY_def)
  moreover have "incoming demo2 = []" "sc_cipher (core demo2) = None" "phase (core demo2) = KexInProgress" "phase (core demo3) = AwaitingHostKeyDecision"
    by (simp_all add: demo1_def demo2_def demo3_def engine_new_def)
  ultimately show ?thesis
    using demo_feed_packet [of demo2 demo_reply 31 "tl demo_reply" "core demo3"]
    by (simp add: paused_def demo3_def)
qed

lemma demo_ciphers_ok: "ciphers_ok demo_crates"
  by (simp add: ciphers_ok_def stream_cipher_ok_def aead_ok_def demo_crates_def toy_simps
      toy_seal_def toy_open_def)

lemma demo_accept: "\<exists>s. provide_host_key_decision demo_crates True demo3 = (Ok (), s) \<and> cs_cipher (core s) \<noteq> None \<and> phase (core s) = ServiceRequest"
proof -
  have f: "payload_fits (build_service_request SERVICE_USERAUTH)"
    by (simp add: payload_fits_def build_service_request_def SERVICE_USERAUTH_def
        MAX_PACKET_LENGTH_def)
  obtain w c' r where s: "cipher_seal demo_crates (build_service_request SERVICE_USERAUTH) (dc_cs demo_ciphers, 0) = (Ok w, (c', r))"
    using cipher_link [OF demo_ciphers_ok f] by blast
  let ?c = "(core demo3)\<lparr>pending_host_key := None, pending_ciphers := None, pending_sc_cipher := Some (dc_sc demo_ciphers),
    cs_cipher := Some c', rng := r, outgoing := (outgoing (core demo3) @ demo_seal [MSG_NEWKEYS]) @ w, phase := ServiceRequest\<rparr>"
  have a: "accept_host_key demo_crates (core demo3) = (Ok (), ?c)"
    by (simp add: accept_host_key_def demo3_def demo2_def demo1_def engine_new_def and_then_def
        send_plaintext_def demo_plain set_phase_def send_ciphered_def s)
  have "drive_step demo_crates (demo3\<lparr>core := ?c\<rparr>) = (Ok False, demo3\<lparr>core := ?c\<rparr>)"
    by (simp add: drive_step_def drive_packet_phase_def demo3_def demo2_def demo1_def)
  from drive_waits [OF _ this] have "drive demo_crates (demo3\<lparr>core := ?c\<rparr>) = (Ok (), demo3\<lparr>core := ?c\<rparr>)"
    by (simp add: paused_def)
  with a have "provide_host_key_decision demo_crates True demo3 = (Ok (), demo3\<lparr>core := ?c\<rparr>)"
    by (simp add: provide_host_key_decision_def and_then_def on_core_def) (simp add: demo3_def)
  then show ?thesis by auto
qed


lemma demo_run:
  "runs demo_crates (session_new 0)
     [Feed demo_ident, Feed (demo_packet demo_kexinit_payload), Feed (demo_packet demo_reply)] demo3"
proof -
  have "runs demo_crates (session_new 0) ([] @ [Feed demo_ident]) demo1"
    by (rule runs.more [OF runs.none]) (simp add: host_step_simps demo_feed_ident)
  then have "runs demo_crates (session_new 0) (([] @ [Feed demo_ident]) @ [Feed (demo_packet demo_kexinit_payload)]) demo2"
    by (rule runs.more) (simp add: host_step_simps demo_feed_kexinit)
  then have "runs demo_crates (session_new 0) ((([] @ [Feed demo_ident]) @ [Feed (demo_packet demo_kexinit_payload)]) @ [Feed (demo_packet demo_reply)]) demo3"
    by (rule runs.more) (simp add: host_step_simps demo_feed_reply)
  then show ?thesis by simp
qed

end
