(* ===== verification/Engine_Panic.thy ===== *)
theory Engine_Panic
  imports Engine_Inv
begin

text \<open>
  Where the handlers can panic. With the send cipher in place, a message can only do it through a
  channel that the server has not confirmed; without one, any handler that sends does.
\<close>

text \<open>
  The crates' fallible calls that the source wraps in \<open>expect\<close>: they fail only on inputs far
  beyond the packet limit.
\<close>

definition crates_total :: "'r crates \<Rightarrow> bool" where
  "crates_total E \<longleftrightarrow>
     (\<forall>k n a m. chachapoly_seal E k n a m \<noteq> None) \<and> (\<forall>k n a m. aesgcm_seal E k n a m \<noteq> None) \<and>
     (\<forall>b. mpint_encode E b \<noteq> None) \<and> biguint_from_be E [2] GROUP14_BITS \<noteq> None"

definition keyed :: "'r engine \<Rightarrow> bool" where
  "keyed s \<longleftrightarrow> cs_cipher s \<noteq> None"

lemma sendable_keyed: "sendable keyed"
  by (simp add: sendable_def keyed_def)

section \<open>The parts do not panic\<close>

lemma cipher_seal_total: "crates_total E \<Longrightarrow> fst (cipher_seal E p x) \<noteq> Panic"
proof -
  assume "crates_total E"
  then have t: "chachapoly_seal E k n a m \<noteq> None" "aesgcm_seal E k n a m \<noteq> None" for k n a m
    unfolding crates_total_def by blast+
  show ?thesis
    by (auto simp: t cipher_seal_def seal_chacha20poly1305_def seal_aes256gcm_def Let_def
        try_r_Panic simp del: not_None_eq
        split: prod.splits direction_keys.splits result.splits option.splits)
qed

lemma hoare_send_ciphered:
  assumes "crates_total E" and "sendable P" and "\<And>s. P s \<Longrightarrow> cs_cipher s \<noteq> None"
  shows "hoare P (send_ciphered E p) (\<lambda>_. P) R"
  unfolding triple_def
proof (intro allI impI)
  fix s
  assume P: "P s"
  obtain r s' where e: "send_ciphered E p s = (r, s')" by fastforce
  then show "case send_ciphered E p s of (Ok a, s') \<Rightarrow> P s' | (Err e, s') \<Rightarrow> R s' | (Panic, s') \<Rightarrow> False"
  proof (cases rule: send_ciphered_effect)
    case no_cipher
    with assms(3) [OF P] show ?thesis by simp
  next
    case (sent c wire c' x)
    with e show ?thesis by (simp add: sendableD(2) [OF assms(2) P])
  next
    case (too_long c c' x)
    with cipher_seal_total [OF assms(1), of p "(c, rng s)"] show ?thesis by simp
  qed
qed

lemmas send_keyed = hoare_send_ciphered [OF _ sendable_keyed]

lemma hoare_send_either:
  "crates_total E \<Longrightarrow> hoare keyed (send_plaintext_or_ciphered E p) (\<lambda>_. keyed) R"
  using hoare_send_ciphered [OF _ sendable_keyed, of E p R]
  by (auto simp: triple_def send_plaintext_or_ciphered_def keyed_def split: option.splits)

lemma encode_mpint_total: "crates_total E \<Longrightarrow> encode_mpint E b \<noteq> Panic"
  by (simp add: crates_total_def encode_mpint_def)

lemma no_panic_decode [intro]: "no_panic (decode_op d)"
  by (simp add: no_panic_def decode_op_def split: sum.split prod.split)

lemma kexinit_parse_no_panic [simp]: "kexinit_parse E p \<noteq> Panic"
proof -
  have "no_panic (read_name_list E)"
    unfolding read_name_list_def by (intro no_panic_and_then no_panic_if) auto
  then have "no_panic (kexinit_parse_op E)"
    unfolding kexinit_parse_op_def by (intro no_panic_and_then no_panic_if) auto
  then show ?thesis by (simp add: no_panic_def kexinit_parse_def)
qed

lemma derive_ciphers_no_panic [simp]: "derive_ciphers E alg km h sid \<noteq> Panic"
  by (cases alg) (simp_all add: derive_ciphers_def with_initial_seq_def try_r_Panic Let_def)

lemma on_kex_result_no_panic:
  assumes "crates_total E"
  shows "hoare (\<lambda>s. negotiated s \<noteq> None) (on_kex_result E k h ss) (\<lambda>_ _. True) (\<lambda>_. True)"
  unfolding on_kex_result_def push_event_def
  by (rule triple_look_then, rule triple_assume)
    (auto simp: triple_def and_then_def encode_mpint_total [OF assms] split: result.split)

section \<open>The handlers\<close>

lemma curve25519_reply_no_panic:
  assumes "crates_total E"
  shows "hoare (\<lambda>s. negotiated s \<noteq> None \<and> active_kex_is_curve25519 s)
    (handle_curve25519_reply E p) (\<lambda>_ _. True) (\<lambda>_. True)"
proof -
  have h: "ecdh_exchange_hash E a b c d e f g ss \<noteq> Panic" for a b c d e f g ss
    by (simp add: ecdh_exchange_hash_def ecdh_transcript_def try_r_Panic encode_mpint_total [OF assms])
  have d: "ecdh_diffie_hellman E kp q \<noteq> Panic" for kp q by (simp add: ecdh_diffie_hellman_def Let_def)
  have v: "ecdh_verify_reply_signature E r hh \<noteq> Panic" for r hh
    by (simp add: ecdh_verify_reply_signature_def)
  show ?thesis
    unfolding handle_curve25519_reply_def
  proof (rule triple_lift_then, simp, simp, rule triple_look_then, goal_cases)
    case (1 reply taken)
    show ?case
    proof (cases "\<exists>kp. taken = Some (Curve25519 kp)")
      case True
      then show ?thesis
        by (intro triple_update_then [where P' = "\<lambda>s. negotiated s \<noteq> None"] triple_lift_then
            triple_look_then triple_weaken [OF on_kex_result_no_panic [OF assms]]) (auto simp: h d v)
    next
      case False
      then show ?thesis
        by (auto simp: triple_def active_kex_is_curve25519_def split: option.splits active_kex.splits)
    qed
  qed
qed

lemma dh_group14_reply_no_panic:
  assumes "crates_total E"
  shows "hoare (\<lambda>s. negotiated s \<noteq> None \<and> active_kex_is_dh_group14 s)
    (handle_dh_group14_reply E p) (\<lambda>_ _. True) (\<lambda>_. True)"
proof -
  have h: "dh_exchange_hash E a b c d e f g ss \<noteq> Panic" for a b c d e f g ss
    by (simp add: dh_exchange_hash_def try_r_Panic encode_mpint_total [OF assms])
  have d: "dh_diffie_hellman E kex q \<noteq> Panic" for kex q
    by (simp add: dh_diffie_hellman_def validate_public_value_def try_r_Panic)
  have v: "dh_verify_reply_signature E r hh \<noteq> Panic" for r hh
    by (simp add: dh_verify_reply_signature_def)
  show ?thesis
    unfolding handle_dh_group14_reply_def
  proof (rule triple_lift_then, simp, simp, rule triple_look_then, goal_cases)
    case (1 reply taken)
    show ?case
    proof (cases "\<exists>kex. taken = Some (DhGroup14 kex)")
      case True
      then show ?thesis
        by (intro triple_update_then [where P' = "\<lambda>s. negotiated s \<noteq> None"] triple_lift_then
            triple_look_then triple_weaken [OF on_kex_result_no_panic [OF assms]]) (auto simp: h d v)
    next
      case False
      then show ?thesis
        by (auto simp: triple_def active_kex_is_dh_group14_def split: option.splits active_kex.splits)
    qed
  qed
qed

lemma peer_kexinit_no_panic:
  assumes "crates_total E"
  shows "hoare keyed (handle_peer_kexinit E p) (\<lambda>_ _. True) (\<lambda>_. True)"
proof -
  have g: "hoare keyed (with_rng (dh_generate E)) (\<lambda>_. keyed) (\<lambda>_. True)"
    using assms
    by (auto simp: triple_def with_rng_def dh_generate_def keyed_def crates_total_def try_r_Panic
        group_generator_def split: prod.split result.split)
  have k: "hoare keyed (with_rng (\<lambda>r. case keypair_generate E r of (k, r') \<Rightarrow> (Ok k, r')))
      (\<lambda>_. keyed) (\<lambda>_. True)"
    by (auto simp: triple_def with_rng_def keyed_def split: prod.split)
  have m: "dh_build_init_message E kex \<noteq> Panic" for kex
    by (simp add: dh_build_init_message_def try_r_Panic encode_mpint_total [OF assms])
  have s: "hoare keyed (send_plaintext_or_ciphered E x) (\<lambda>_. keyed) (\<lambda>_. True)" for x
    by (rule hoare_send_either [OF assms])
  have u: "hoare keyed (update (\<lambda>s. s\<lparr>active_kex := a\<rparr>)) (\<lambda>_. keyed) (\<lambda>_. True)" for a
    by (rule triple_update) (simp add: keyed_def)
  show ?thesis
    unfolding handle_peer_kexinit_def
    apply (rule triple_update_then [where P' = keyed], simp add: keyed_def)
    apply (rule triple_and_then [where M = "\<lambda>_. keyed"], simp add: triple_def)
    apply (rule triple_lift_then, simp, simp)+
    apply (rule triple_and_then [where M = "\<lambda>_. keyed"])
     apply (intro triple_if triple_and_then [OF g] triple_and_then [OF k] triple_lift_then
        triple_and_then [OF u] s triple_fail)
        apply (simp_all add: m triple_def)
    done
qed

lemma userauth_pk_ok_no_panic:
  assumes "crates_total E"
  shows "hoare (\<lambda>s. keyed s \<and> session_id s \<noteq> None) (handle_userauth_pk_ok E p) (\<lambda>_ _. True) (\<lambda>_. True)"
proof -
  have s: "hoare keyed (send_ciphered E x) (\<lambda>_ _. True) (\<lambda>_. True)" for x
    by (rule triple_weaken [OF send_keyed [OF assms]]) (simp_all add: keyed_def)
  show ?thesis
    unfolding handle_userauth_pk_ok_def
  proof (rule triple_look_then, rule triple_update_then
      [where P' = "\<lambda>s. keyed s \<and> session_id s \<noteq> None"], simp add: keyed_def, goal_cases)
    case (1 taken)
    let ?P = "\<lambda>s. keyed s \<and> session_id s \<noteq> None"
    have q: "hoare ?P (and_then (lift_r (parse_pk_ok p)) (\<lambda>_.
           and_then (look session_id) (\<lambda>sid_opt.
           and_then (lift_r (expect sid_opt)) (\<lambda>sid.
           and_then (lift_r (build_signed_request E a sid key)) (\<lambda>signed.
           and_then (update (\<lambda>s. s\<lparr>pending_auth := Some PublicKeySigned\<rparr>)) (\<lambda>_.
             send_ciphered E signed)))))) (\<lambda>_ _. True) (\<lambda>_. True)" for a key
    proof (rule triple_lift_then, simp, simp, rule triple_look_then, rule triple_assume, goal_cases)
      case (1 r v s0)
      then obtain sid where "v = Some sid" and "keyed s0" by auto
      then show ?case
        by (intro triple_lift_then triple_update_then [where P' = keyed] s) (auto simp: keyed_def)
    qed
    have f: "hoare ?P (and_then (update (\<lambda>s. s\<lparr>pending_auth := x\<rparr>)) (\<lambda>_. fail_with e))
        (\<lambda>_ _. True) (\<lambda>_. True)" for x e
      by (simp add: triple_def)
    show ?case
    proof (cases taken)
      case None
      then show ?thesis by (simp only: option.case f)
    next
      case (Some a)
      then show ?thesis by (cases a) (simp_all only: option.case pending_auth.case f q)
    qed
  qed
qed

text \<open>
  The setup of a channel continues without a panic where the channel, if it has a setup, is
  confirmed; a failure reply is harmless in any case.
\<close>

definition setup_confirmed :: "u32 \<Rightarrow> 'r engine \<Rightarrow> bool" where
  "setup_confirmed cid s \<longleftrightarrow> (channel_setup s cid \<noteq> None \<longrightarrow> remote_id_of cid s \<noteq> None)"

text \<open>What the handlers of channel replies are made of keeps the send cipher in place.\<close>

lemma keyed_simple:
  "hoare keyed (ret u) (\<lambda>_. keyed) (\<lambda>_. True)"
  "hoare keyed (push_event e) (\<lambda>_. keyed) (\<lambda>_. True)"
  "hoare keyed (remove_setup cid) (\<lambda>_. keyed) (\<lambda>_. True)"
  by (simp_all add: triple_def push_event_def remove_setup_def keyed_def)

lemma keyed_sends: "crates_total E \<Longrightarrow> hoare keyed (send_ciphered E x) (\<lambda>_. keyed) (\<lambda>_. True)"
  by (rule send_keyed) (simp_all add: keyed_def)

lemma keyed_update_then:
  "hoare keyed (f ()) Q R \<Longrightarrow> (\<And>t. keyed t \<Longrightarrow> keyed (g t)) \<Longrightarrow> hoare keyed (and_then (update g) f) Q R"
  by (rule triple_update_then)

lemma keyed_look_then: "(\<And>v. hoare keyed (f v) Q R) \<Longrightarrow> hoare keyed (and_then (look h) f) Q R"
  by (rule triple_look_then) (auto simp: triple_def)

lemmas keyed_rules = keyed_look_then keyed_update_then keyed_simple triple_if triple_option

lemma setup_refused_keyed:
  assumes "crates_total E"
  shows "hoare keyed (continue_channel_setup E cid (Some False)) (\<lambda>_. keyed) (\<lambda>_. True)"
proof -
  have "hoare keyed (and_then (remove_setup cid) (\<lambda>_.
         and_then (look (remote_id_of cid)) (\<lambda>rid_opt.
         and_then (update (\<lambda>s. s\<lparr>channels := table_remove cid (channels s)\<rparr>)) (\<lambda>_.
         and_then (case rid_opt of
             Some rid \<Rightarrow> send_ciphered E (MSG_CHANNEL_CLOSE # write_u32 rid)
           | None \<Rightarrow> ret ()) (\<lambda>_.
           push_event (ChannelOpenFailed cid 0 (lit ''channel setup request failed'')))))))
         (\<lambda>_. keyed) (\<lambda>_. True)"
    by (intro triple_and_then [OF keyed_simple(3)] keyed_rules triple_and_then [where M = "\<lambda>_. keyed"]
        keyed_sends [OF assms]) (simp add: keyed_def)
  then show ?thesis
    unfolding continue_channel_setup_def if_P [OF refl]
    by (intro keyed_look_then triple_option keyed_simple)
qed

lemma setup_advanced_keyed:
  assumes E: "crates_total E" and "reply \<noteq> Some False"
  shows "hoare (\<lambda>s. keyed s \<and> setup_confirmed cid s) (continue_channel_setup E cid reply)
    (\<lambda>_. keyed) (\<lambda>_. True)"
  unfolding continue_channel_setup_def if_not_P [OF assms(2)]
proof (rule triple_look_then, goal_cases)
  case (1 step_opt)
  show ?case
  proof (cases step_opt)
    case None
    then show ?thesis by (simp add: triple_def)
  next
    case (Some step)
    have body: "hoare keyed (case step of
         AwaitingExecReply \<Rightarrow> m1 | AwaitingPtyReply \<Rightarrow> m2 | AwaitingShellReply \<Rightarrow> m3) (\<lambda>_. keyed) (\<lambda>_. True)"
      if "hoare keyed m1 (\<lambda>_. keyed) (\<lambda>_. True)" "hoare keyed m2 (\<lambda>_. keyed) (\<lambda>_. True)"
        "hoare keyed m3 (\<lambda>_. keyed) (\<lambda>_. True)" for m1 m2 m3 :: "('a engine, unit) op"
      using that by (cases step) simp_all
    show ?thesis
      unfolding Some option.case
    proof (rule triple_look_then, rule triple_assume, rule triple_weaken
        [where P' = keyed and Q' = "\<lambda>_. keyed" and R' = "\<lambda>_. True"], rule triple_lift_then, goal_cases)
      case (1 v s0)
      with Some show ?case by (auto simp: setup_confirmed_def)
    next
      case (3 v s0 rid)
      show ?case
        by (intro body keyed_rules keyed_sends [OF E]) (simp_all add: keyed_def)
    qed (simp_all)
  qed
qed

lemma channel_setup_no_panic:
  assumes "crates_total E"
  shows "hoare (\<lambda>s. keyed s \<and> (reply \<noteq> Some False \<longrightarrow> setup_confirmed cid s))
    (continue_channel_setup E cid reply) (\<lambda>_. keyed) (\<lambda>_. True)"
  using triple_weaken [OF setup_refused_keyed [OF assms, of cid]]
    triple_weaken [OF setup_advanced_keyed [OF assms, of reply cid]]
  by (cases "reply = Some False") auto

section \<open>Messages about channels\<close>

text \<open>The messages that can make the table panic are those three.\<close>

definition needs_confirmed :: "byte \<Rightarrow> bool" where
  "needs_confirmed t \<longleftrightarrow> t \<in> {MSG_CHANNEL_DATA, MSG_CHANNEL_EXTENDED_DATA, MSG_CHANNEL_REQUEST}"

lemma no_panic_lifts:
  "no_panic m \<Longrightarrow> no_panic (on_fst m)" "no_panic n \<Longrightarrow> no_panic (on_snd n)"
  by (simp_all add: no_panic_def on_fst_def on_snd_def case_prod_beta)

lemma no_panic_channel_mut: "no_panic m \<Longrightarrow> no_panic (channel_mut cid m)"
  by (simp add: no_panic_def channel_mut_def case_prod_beta split: option.split)

lemma handle_message_plain_no_panic:
  assumes "\<not> needs_confirmed t"
  shows "no_panic (handle_message t)"
proof -
  have "no_panic (if b then m else n)"
    if "\<not> b" "no_panic n" for b and m n :: "(reader \<times> channel_table, reaction) op"
    using that by simp
  then show ?thesis
    using assms unfolding handle_message_def needs_confirmed_def
    by (simp, intro conjI impI no_panic_and_then no_panic_if no_panic_lifts no_panic_channel_mut
        no_panic_reads no_panic_read_utf8_string no_panic_read_string no_panic_or_empty
        no_panic_simple)
qed

lemma table_handle_safe:
  assumes "needs_confirmed t \<longrightarrow> confirmed (recipient_of p) tab"
  shows "fst (table_handle t p tab) \<noteq> Panic"
proof (cases "needs_confirmed t")
  case True
  with assms show ?thesis by (intro table_handle_no_panic) simp
next
  case False
  from handle_message_plain_no_panic [OF this] show ?thesis
    by (simp add: no_panic_def table_handle_def case_prod_beta)
qed

text \<open>A channel reported open is one whose remote identifier is known.\<close>

definition opened_known :: "reaction \<Rightarrow> channel_table \<Rightarrow> bool" where
  "opened_known r t \<longleftrightarrow>
     (fst r = [] \<or>
      (\<exists>e. fst r = [e] \<and>
        (\<forall>cid. e = ChannelOpened cid \<longrightarrow> Option.bind (ct_channels t cid) remote_id \<noteq> None)))"

lemma handle_message_opened:
  "partial (\<lambda>_. True) (handle_message t) (\<lambda>r st. opened_known r (snd st)) (\<lambda>_. True)"
proof -
  have any: "partial (\<lambda>_. True) m (\<lambda>_ _. True) (\<lambda>_. True)" for m :: "('s, 'a) op"
    by (simp add: triple_def split: prod.split result.split)
  have step: "(\<And>a. partial (\<lambda>_. True) (f a) Q (\<lambda>_. True)) \<Longrightarrow>
      partial (\<lambda>_. True) (and_then m f) Q (\<lambda>_. True)" for m :: "('s, 'a) op" and f and Q :: "'b \<Rightarrow> 's \<Rightarrow> bool"
    by (rule triple_and_then [OF any])
  have "partial (\<lambda>_. True) (on_snd (channel_mut c (update (on_open_confirmation s w p))))
      (\<lambda>_ st. Option.bind (ct_channels (snd st) c) remote_id \<noteq> None) (\<lambda>_. True)"
    for c s w p
    by (auto simp: triple_def on_snd_def channel_mut_def on_open_confirmation_def
        split: option.split)
  then have c: "partial (\<lambda>_. True) (and_then (on_snd (channel_mut c
        (update (on_open_confirmation s w p)))) (\<lambda>_. ret ([ChannelOpened c], [])))
      (\<lambda>r st. opened_known r (snd st)) (\<lambda>_. True)" for c s w p
    by (rule triple_and_then) (simp add: triple_def opened_known_def)
  have r: "opened_known ([], out) tab" "opened_known ([ChannelOpenFailed a b d], out) tab"
    "opened_known (data_reaction a st dd adj) tab" "opened_known ([ChannelEof a], out) tab"
    "opened_known ([ChannelClosed a], out) tab" "opened_known ([ChannelExitStatus a co si], out) tab"
    for out tab a b d st dd adj co si
    by (simp_all add: opened_known_def data_reaction_def)
  show ?thesis
    unfolding handle_message_def handle_channel_request_def
    by (intro c step triple_if) (simp_all add: triple_def r)
qed

lemma table_handle_opened:
  assumes "table_handle t p tab = (Ok r, tab')"
  shows "opened_known r tab'"
  using triple_Ok [OF handle_message_opened, where s = "(reader_new p, tab)" and a = r] assms
  by (auto simp: table_handle_def split: prod.splits)

lemma table_message_keyed:
  "hoare (\<lambda>s. keyed s \<and> (needs_confirmed t \<longrightarrow> confirmed (recipient_of p) (channels s)))
    (on_channels (table_handle t p)) (\<lambda>r s. keyed s \<and> opened_known r (channels s)) (\<lambda>_. True)"
  unfolding triple_def
proof (intro allI impI)
  fix st :: "'r engine"
  assume a: "keyed st \<and> (needs_confirmed t \<longrightarrow> confirmed (recipient_of p) (channels st))"
  obtain r tab where h: "table_handle t p (channels st) = (r, tab)" by fastforce
  have "r \<noteq> Panic" using table_handle_safe [of t p "channels st"] a h by simp
  with h a show "case on_channels (table_handle t p) st of
      (Ok r, s') \<Rightarrow> keyed s' \<and> opened_known r (channels s') | (Err e, s') \<Rightarrow> True | (Panic, s') \<Rightarrow> False"
    by (cases r) (auto simp: on_channels_def keyed_def dest: table_handle_opened)
qed

lemma opened_setup_keyed:
  assumes "crates_total E"
  shows "hoare (\<lambda>s. keyed s \<and> opened_known (evs, out) (channels s))
    (for_each (\<lambda>ev. case ev of ChannelOpened cid \<Rightarrow> continue_channel_setup E cid None | _ \<Rightarrow> ret ()) evs)
    (\<lambda>_. keyed) (\<lambda>_. True)"
proof -
  consider (none) "evs = []" | (opened) cid where "evs = [ChannelOpened cid]"
    | (other) e where "evs = [e]" "\<forall>cid. e \<noteq> ChannelOpened cid" | (many) e e' es where "evs = e # e' # es"
    by (metis neq_Nil_conv)
  then show ?thesis
  proof cases
    case none
    then show ?thesis by (simp add: triple_def)
  next
    case (opened cid)
    then have "hoare (\<lambda>s. keyed s \<and> opened_known (evs, out) (channels s))
        (continue_channel_setup E cid None) (\<lambda>_. keyed) (\<lambda>_. True)"
      by (intro triple_weaken [OF channel_setup_no_panic [OF assms, where reply = None and cid = cid]])
        (auto simp: opened_known_def setup_confirmed_def remote_id_of_def table_get_def)
    then show ?thesis
      unfolding opened for_each.simps event.case
      by (rule triple_and_then) (simp add: triple_def)
  next
    case (other e)
    then show ?thesis by (cases e) (simp_all add: triple_def)
  next
    case (many e e' es)
    then show ?thesis by (simp add: triple_def opened_known_def del: for_each.simps)
  qed
qed

lemma channel_message_no_panic:
  assumes E: "crates_total E"
  shows "hoare (\<lambda>s. keyed s \<and> (needs_confirmed t \<longrightarrow> confirmed (recipient_of p) (channels s)))
    (handle_channel_message E t p) (\<lambda>_ _. True) (\<lambda>_. True)"
  unfolding handle_channel_message_def
proof (rule triple_and_then [OF table_message_keyed], clarify, goal_cases)
  case (1 evs out)
  show ?case
    by (rule triple_and_then [OF opened_setup_keyed [OF E, of evs out]],
        rule triple_and_then [where M = "\<lambda>_. keyed"])
      (auto intro: triple_for_each keyed_simple triple_weaken [OF triple_for_each [OF keyed_sends [OF E]]])
qed

section \<open>Dispatch\<close>

text \<open>
  A message that cannot make the client panic once the send cipher is active: data, extended data
  and requests name confirmed channels only, and a success reply a channel whose setup, if it has
  one, follows a confirmation.
\<close>

definition orderly :: "byte \<Rightarrow> bytes \<Rightarrow> 'r engine \<Rightarrow> bool" where
  "orderly t p s \<longleftrightarrow>
     (needs_confirmed t \<longrightarrow> confirmed (recipient_of p) (channels s)) \<and>
     (t = MSG_CHANNEL_SUCCESS \<longrightarrow> setup_confirmed (recipient_of p) s)"

lemma channel_id_of_reply_recipient:
  "parse_with channel_id_of_reply p = Ok cid \<Longrightarrow> cid = recipient_of p"
  by (auto simp: parse_with_def channel_id_of_reply_def and_then_def read_u8_def read_u32_def
      reader_new_def recipient_of_def Let_def split: if_splits)

lemma channel_replies_no_panic:
  assumes "crates_total E"
  shows "hoare (\<lambda>s. keyed s \<and> setup_confirmed (recipient_of p) s) (handle_channel_success E p)
      (\<lambda>_ _. True) (\<lambda>_. True)"
    and "hoare keyed (handle_channel_failure E p) (\<lambda>_ _. True) (\<lambda>_. True)"
proof -
  have "no_panic channel_id_of_reply"
    unfolding channel_id_of_reply_def by (intro no_panic_and_then no_panic_reads)
  then have n: "parse_with channel_id_of_reply p \<noteq> Panic" by (rule no_panic_parse)
  note s = channel_setup_no_panic [OF assms]
  show "hoare (\<lambda>s. keyed s \<and> setup_confirmed (recipient_of p) s) (handle_channel_success E p)
      (\<lambda>_ _. True) (\<lambda>_. True)"
    unfolding handle_channel_success_def
    by (rule triple_lift_then, simp add: n, simp, rule triple_weaken [OF s])
      (auto dest: channel_id_of_reply_recipient)
  show "hoare keyed (handle_channel_failure E p) (\<lambda>_ _. True) (\<lambda>_. True)"
    unfolding handle_channel_failure_def
    by (rule triple_lift_then, simp add: n, simp, rule triple_weaken [OF s]) auto
qed

lemma global_request_no_panic:
  assumes "crates_total E"
  shows "hoare keyed (handle_global_request E p) (\<lambda>_ _. True) (\<lambda>_. True)"
proof -
  have "no_panic (and_then read_u8 (\<lambda>_. and_then read_string (\<lambda>_. read_bool)))"
    by (intro no_panic_and_then no_panic_reads no_panic_read_string no_panic_read_bool)
  then have n: "parse_with (and_then read_u8 (\<lambda>_. and_then read_string (\<lambda>_. read_bool))) p \<noteq> Panic"
    by (rule no_panic_parse)
  show ?thesis
    unfolding handle_global_request_def
    by (rule triple_lift_then, simp add: n, simp)
      (auto intro!: triple_if triple_ret triple_weaken [OF send_keyed [OF assms]] simp: keyed_def)
qed

lemma dispatch_no_panic:
  assumes E: "crates_total E" and ok: "engine_ok E s" and k: "cs_cipher s \<noteq> None"
    and o: "orderly t p s"
  shows "fst (dispatch E t p s) \<noteq> Panic"
proof -
  have K: "keyed s" and sid: "session_id s \<noteq> None" and neg: "active_kex s \<noteq> None \<Longrightarrow> negotiated s \<noteq> None"
    using ok k by (auto simp: keyed_def engine_ok_def)
  have "no_panic (and_then read_u8 (\<lambda>_. and_then read_u32 (\<lambda>reason_code.
        and_then (or_empty read_utf8_string) (\<lambda>description. ret (reason_code, description)))))"
    by (intro no_panic_and_then no_panic_reads no_panic_or_empty no_panic_read_utf8_string no_panic_simple)
  then have d: "fst (handle_disconnect p s) \<noteq> Panic"
    unfolding handle_disconnect_def case_prod_beta set_phase_def push_event_def
    using no_panic_parse by (auto simp: and_then_def split: result.split)
  have simple: "fst (handle_newkeys s) \<noteq> Panic" "fst (handle_service_accept p s) \<noteq> Panic"
    "fst (handle_userauth_failure p s) \<noteq> Panic" "fst (handle_userauth_success s) \<noteq> Panic"
    by (auto simp: handle_newkeys_def handle_service_accept_def handle_userauth_failure_def
        handle_userauth_success_def set_phase_def push_event_def and_then_def split: result.split)
  have curve: "active_kex_is_curve25519 s \<Longrightarrow> fst (handle_curve25519_reply E p s) \<noteq> Panic"
    using hoare_no_panic [OF curve25519_reply_no_panic [OF E], of s p] neg
    by (auto simp: active_kex_is_curve25519_def split: option.splits)
  have dh: "active_kex_is_dh_group14 s \<Longrightarrow> fst (handle_dh_group14_reply E p s) \<noteq> Panic"
    using hoare_no_panic [OF dh_group14_reply_no_panic [OF E], of s p] neg
    by (auto simp: active_kex_is_dh_group14_def split: option.splits)
  note rest = hoare_no_panic [OF peer_kexinit_no_panic [OF E] K]
    hoare_no_panic [OF channel_replies_no_panic(2) [OF E] K]
    hoare_no_panic [OF global_request_no_panic [OF E] K]
  have pk: "fst (handle_userauth_pk_ok E p s) \<noteq> Panic"
    by (rule hoare_no_panic [OF userauth_pk_ok_no_panic [OF E]]) (simp add: K sid)
  have ch: "fst (handle_channel_message E t p s) \<noteq> Panic"
    by (rule hoare_no_panic [OF channel_message_no_panic [OF E]]) (use K o in \<open>simp add: orderly_def\<close>)
  have su: "t = MSG_CHANNEL_SUCCESS \<Longrightarrow> fst (handle_channel_success E p s) \<noteq> Panic"
    by (rule hoare_no_panic [OF channel_replies_no_panic(1) [OF E]]) (use K o in \<open>simp add: orderly_def\<close>)
  show ?thesis
    unfolding dispatch_def using d simple curve dh rest pk ch su by auto
qed

end
