(* ===== verification/Session_Properties.thy ===== *)
theory Session_Properties
  imports Sample_Run Engine_Panic
begin

text \<open>
  The properties of the session: its handlers on every branch that matters, and the whole
  session under any server and any host. Each is followed by its instance on the sample run.
\<close>

section \<open>One plaintext packet\<close>

text \<open>Feeding exactly one packet, before any receive cipher is active.\<close>

lemma feed_plain_packet:
  assumes p: "payload_fits p" "p = t # ps" and w: "fst (seal_plaintext (fill_buf F) p r) = wire"
    and s: "incoming s = []" "sc_cipher (core s) = None" "\<not> paused (core s)"
      "phase (core s) \<noteq> VersionExchange"
    and d: "dispatch E t p (core s) = (q, c)"
  shows "q = Ok () \<Longrightarrow> phase c \<noteq> VersionExchange \<Longrightarrow> feed_incoming E wire s = (Ok (), s\<lparr>core := c\<rparr>)"
    and "q = Err e \<Longrightarrow> feed_incoming E wire s = (Ok (), s\<lparr>core := fail e c\<rparr>)"
    and "q = Panic \<Longrightarrow> fst (feed_incoming E wire s) = Panic"
proof -
  obtain r' where "seal_plaintext (fill_buf F) p r = (wire, r')" using w by (metis prod.collapse)
  note l = plaintext_link [OF p(1) this]
  let ?s = "s\<lparr>incoming := wire\<rparr>"
  have step: "drive_step E ?s = (case q of Ok _ \<Rightarrow> Ok True | Err e \<Rightarrow> Err e | Panic \<Rightarrow> Panic, s\<lparr>core := c\<rparr>)"
    using l s p(2) d
    by (cases q) (simp_all add: drive_step_def drive_packet_phase_def expected_len_def
        handle_packet_def open_packet_def and_then_def on_core_def)
  have f: "feed_incoming E wire s = drive E ?s" using s by (simp add: feed_incoming_def)
  show "feed_incoming E wire s = (Ok (), s\<lparr>core := c\<rparr>)" if q: "q = Ok ()" "phase c \<noteq> VersionExchange"
  proof -
    have "drive E ?s = drive E (s\<lparr>core := c\<rparr>)" using step q s by (intro drive_progress) simp_all
    moreover have "drive E (s\<lparr>core := c\<rparr>) = (Ok (), s\<lparr>core := c\<rparr>)"
    proof (cases "paused c")
      case True
      then show ?thesis by (intro drive_paused) simp
    next
      case False
      then show ?thesis
        using q s by (intro drive_waits) (simp_all add: drive_step_def drive_packet_phase_def)
    qed
    ultimately show ?thesis using f by simp
  qed
  show "feed_incoming E wire s = (Ok (), s\<lparr>core := fail e c\<rparr>)" if "q = Err e"
    using step that s f by (simp add: drive.simps [of E ?s] fail_session_def)
  show "fst (feed_incoming E wire s) = Panic" if "q = Panic"
    using step that s f by (simp add: drive.simps [of E ?s])
qed

section \<open>The host key\<close>

lemma on_kex_result_Ok:
  assumes "on_kex_result E k h ss s = (Ok (), s')"
  obtains neg alg km ciphers where "negotiated s = Some neg"
    and "cipher_from_name (neg_encryption_client_to_server neg) = Some alg"
    and "encode_mpint E ss = Ok km"
    and "derive_ciphers E alg km h (case session_id s of Some i \<Rightarrow> i | None \<Rightarrow> h) = Ok ciphers"
    and "s' = s\<lparr>pending_ciphers := Some ciphers,
      session_id := (case session_id s of Some i \<Rightarrow> Some i | None \<Rightarrow> Some h),
      pending_host_key := Some (k, h, ss), phase := AwaitingHostKeyDecision,
      events := events s @ [HostKeyVerify (algorithm_name E k) (fingerprint_sha256 E k) (hk_blob k)]\<rparr>"
  using assms
  by (auto simp: on_kex_result_def push_event_def and_then_eq_Ok)

text \<open>
  C7: A key exchange reply over curve25519 is accepted only if the server's public value gives a
  contributory shared secret and its signature verifies, under the host key it sent, over the
  exchange hash of this session's own record of the transcript (both identification lines, both
  KEXINIT payloads, both public values). Then the session pauses on exactly that key, with the
  ciphers derived from that secret and hash, and the first exchange hash as session identifier.
\<close>

theorem curve25519_reply_verified:
  assumes "handle_curve25519_reply E payload s = (Ok (), s')"
  shows "\<exists>reply kp K H k. ecdh_parse_reply payload = Ok reply \<and> active_kex s = Some (Curve25519 kp) \<and>
    K = x25519_dh E (kp_secret kp) (er_server_public reply) \<and> x25519_contributory E K \<and>
    ecdh_exchange_hash E (own_ident_line s) (peer_ident_line s) (own_kexinit_payload s)
      (peer_kexinit_payload s) (er_host_key_blob reply) (kp_public_bytes kp) (er_server_public reply) K
      = Ok H \<and>
    sig_valid E (er_host_key_blob reply) H (er_signature_blob reply) \<and>
    hk_blob k = er_host_key_blob reply \<and>
    phase s' = AwaitingHostKeyDecision \<and> active_kex s' = None \<and>
    pending_host_key s' = Some (k, H, K) \<and>
    session_id s' = Some (case session_id s of Some i \<Rightarrow> i | None \<Rightarrow> H) \<and>
    (\<exists>neg alg km ciphers. negotiated s = Some neg \<and>
       cipher_from_name (neg_encryption_client_to_server neg) = Some alg \<and>
       encode_mpint E K = Ok km \<and> pending_ciphers s' = Some ciphers \<and>
       derive_ciphers E alg km H (the (session_id s')) = Ok ciphers) \<and>
    events s' = events s @
      [HostKeyVerify (algorithm_name E k) (fingerprint_sha256 E k) (er_host_key_blob reply)]"
proof -
  let ?s = "s\<lparr>active_kex := None\<rparr>"
  from assms obtain reply kp K H k where r: "ecdh_parse_reply payload = Ok reply"
    and kp: "active_kex s = Some (Curve25519 kp)"
    and K: "ecdh_diffie_hellman E kp (er_server_public reply) = Ok K"
    and H: "ecdh_exchange_hash E (own_ident_line s) (peer_ident_line s) (own_kexinit_payload s)
      (peer_kexinit_payload s) (er_host_key_blob reply) (kp_public_bytes kp) (er_server_public reply) K
      = Ok H"
    and v: "verify_reply E (er_host_key_blob reply) (er_signature_blob reply) H = Ok k"
    and res: "on_kex_result E k H K ?s = (Ok (), s')"
    by (auto simp: handle_curve25519_reply_def and_then_eq_Ok ecdh_verify_reply_signature_def
        split: option.splits active_kex.splits)
  from K have "K = x25519_dh E (kp_secret kp) (er_server_public reply)" "x25519_contributory E K"
    by (auto simp: ecdh_diffie_hellman_def Let_def split: if_splits)
  with r kp H verify_reply_Ok [OF v] res show ?thesis
    by (elim on_kex_result_Ok) (fastforce split: option.splits)
qed

theorem curve25519_reply_verified_witness:
  "\<exists>k H K. pending_host_key (core demo3) = Some (k, H, K) \<and> phase (core demo3) = AwaitingHostKeyDecision"
  using curve25519_reply_verified [OF demo_handle_reply] by blast

text \<open>
  C8: A group14 reply is accepted only if the server's value is in range, and its signature
  verifies under the host key it sent over the hash of this session's transcript; then the session
  pauses on that key with the ciphers derived from the shared secret.
\<close>

theorem dh_group14_reply_verified:
  assumes "handle_dh_group14_reply E payload s = (Ok (), s')"
  shows "\<exists>reply kex f K H k. dh_parse_reply payload = Ok reply \<and> active_kex s = Some (DhGroup14 kex) \<and>
    biguint_from_be E (dhr_f_bytes reply) GROUP14_BITS = Some f \<and> 1 < f \<and> f < GROUP14_PRIME - 1 \<and>
    K = biguint_to_be E (biguint_pow_mod E f (dh_x kex) (dh_params kex)) GROUP14_BITS \<and>
    dh_exchange_hash E (own_ident_line s) (peer_ident_line s) (own_kexinit_payload s)
      (peer_kexinit_payload s) (dhr_host_key_blob reply) (dh_e_bytes kex) (dhr_f_bytes reply) K = Ok H \<and>
    sig_valid E (dhr_host_key_blob reply) H (dhr_signature_blob reply) \<and>
    hk_blob k = dhr_host_key_blob reply \<and>
    phase s' = AwaitingHostKeyDecision \<and> active_kex s' = None \<and>
    pending_host_key s' = Some (k, H, K) \<and>
    session_id s' = Some (case session_id s of Some i \<Rightarrow> i | None \<Rightarrow> H) \<and>
    (\<exists>neg alg km ciphers. negotiated s = Some neg \<and>
       cipher_from_name (neg_encryption_client_to_server neg) = Some alg \<and>
       encode_mpint E K = Ok km \<and> pending_ciphers s' = Some ciphers \<and>
       derive_ciphers E alg km H (the (session_id s')) = Ok ciphers) \<and>
    events s' = events s @
      [HostKeyVerify (algorithm_name E k) (fingerprint_sha256 E k) (dhr_host_key_blob reply)]"
proof -
  let ?s = "s\<lparr>active_kex := None\<rparr>"
  from assms obtain reply kex K H k where r: "dh_parse_reply payload = Ok reply"
    and kex: "active_kex s = Some (DhGroup14 kex)"
    and K: "dh_diffie_hellman E kex (dhr_f_bytes reply) = Ok K"
    and H: "dh_exchange_hash E (own_ident_line s) (peer_ident_line s) (own_kexinit_payload s)
      (peer_kexinit_payload s) (dhr_host_key_blob reply) (dh_e_bytes kex) (dhr_f_bytes reply) K = Ok H"
    and v: "verify_reply E (dhr_host_key_blob reply) (dhr_signature_blob reply) H = Ok k"
    and res: "on_kex_result E k H K ?s = (Ok (), s')"
    by (auto simp: handle_dh_group14_reply_def and_then_eq_Ok dh_verify_reply_signature_def
        split: option.splits active_kex.splits)
  from K obtain f where "biguint_from_be E (dhr_f_bytes reply) GROUP14_BITS = Some f"
    and "1 < f \<and> f < GROUP14_PRIME - 1"
    and "K = biguint_to_be E (biguint_pow_mod E f (dh_x kex) (dh_params kex)) GROUP14_BITS"
    by (auto simp: dh_diffie_hellman_def validate_public_value_def split: if_splits)
  with r kex H verify_reply_Ok [OF v] res show ?thesis
    by (elim on_kex_result_Ok) (fastforce split: option.splits)
qed

definition demo_dh_state :: "nat engine" where
  "demo_dh_state = (core demo2)\<lparr>active_kex :=
     Some (DhGroup14 \<lparr>dh_params = GROUP14_PRIME, dh_x = 3, dh_e_bytes = [8]\<rparr>)\<rparr>"

definition demo_dh_reply :: bytes where
  "demo_dh_reply = MSG_KEXDH_REPLY # write_string [] @ write_string [5] @ write_string []"

lemma demo_dh_handled: "\<exists>s'. handle_dh_group14_reply demo_crates demo_dh_reply demo_dh_state = (Ok (), s')"
proof -
  have p: "dh_parse_reply demo_dh_reply =
      Ok \<lparr>dhr_host_key_blob = [], dhr_f_bytes = [5], dhr_signature_blob = []\<rparr>"
  proof -
    have "reads (and_then read_string (\<lambda>a. and_then read_string (\<lambda>b. and_then read_string (\<lambda>c.
        ret \<lparr>dhr_host_key_blob = a, dhr_f_bytes = b, dhr_signature_blob = c\<rparr>))))
      (write_string [] @ write_string [5] @ write_string [] @ [])
      \<lparr>dhr_host_key_blob = [], dhr_f_bytes = [5], dhr_signature_blob = []\<rparr> []"
      by (rule reads_and_then reads_string reads_ret | simp add: fits_u32_def)+
    then have "reads (and_then read_u8 (\<lambda>msg_type.
      if msg_type \<noteq> MSG_KEXDH_REPLY then fail_with (UnexpectedMessage (lit ''KexDhReply'') msg_type)
      else and_then read_string (\<lambda>a. and_then read_string (\<lambda>b. and_then read_string (\<lambda>c.
        ret \<lparr>dhr_host_key_blob = a, dhr_f_bytes = b, dhr_signature_blob = c\<rparr>)))))
      demo_dh_reply \<lparr>dhr_host_key_blob = [], dhr_f_bytes = [5], dhr_signature_blob = []\<rparr> []"
      unfolding demo_dh_reply_def by (intro reads_and_then [OF reads_u8] reads_guard) simp_all
    then show ?thesis unfolding dh_parse_reply_def by (rule reads_parse_with)
  qed
  have mp: "encode_mpint demo_crates b = Ok b" for b
    by (simp add: encode_mpint_def demo_crates_def)
  have dh: "\<exists>K. dh_diffie_hellman demo_crates \<lparr>dh_params = GROUP14_PRIME, dh_x = 3, dh_e_bytes = [8]\<rparr> [5] = Ok K"
    by (simp add: dh_diffie_hellman_def demo_crates_def toy_simps GROUP14_BITS_def
        validate_public_value_def GROUP14_PRIME_def be_val_def)
  have h: "dh_exchange_hash demo_crates a b c d e f g k = Ok demo_hash" for a b c d e f g k
    by (simp add: dh_exchange_hash_def mp demo_digest)
  have v: "verify_reply demo_crates [] [] demo_hash = Ok \<lparr>hk_public = [], hk_blob = []\<rparr>"
    by (simp add: verify_reply_def hostkey_parse_def verify_signature_def key_result_def
        demo_crates_def toy_crates_def)
  have c: "cipher_from_name (neg_encryption_client_to_server demo_neg) = Some Aes256GcmOpenSsh"
    by (simp add: demo_neg_def cipher_from_name_def)
  have dc: "\<exists>cc. derive_ciphers demo_crates Aes256GcmOpenSsh km hh sid = Ok cc" for km hh sid
    by (simp add: derive_ciphers_def with_initial_seq_def Let_def)
  from dh obtain K where K: "dh_diffie_hellman demo_crates
      \<lparr>dh_params = GROUP14_PRIME, dh_x = 3, dh_e_bytes = [8]\<rparr> [5] = Ok K" ..
  from dc obtain cc where "derive_ciphers demo_crates Aes256GcmOpenSsh K demo_hash demo_hash = Ok cc"
    by blast
  with K show ?thesis
    by (simp add: handle_dh_group14_reply_def demo_dh_state_def demo2_def demo1_def engine_new_def p h v c
        mp dh_verify_reply_signature_def on_kex_result_def push_event_def)
qed

theorem dh_group14_reply_verified_witness:
  "\<exists>s' k H K. pending_host_key s' = Some (k, H, K) \<and> phase s' = AwaitingHostKeyDecision \<and>
     handle_dh_group14_reply demo_crates demo_dh_reply demo_dh_state = (Ok (), s')"
proof -
  obtain s' where h: "handle_dh_group14_reply demo_crates demo_dh_reply demo_dh_state = (Ok (), s')"
    using demo_dh_handled ..
  from dh_group14_reply_verified [OF h] h show ?thesis by blast
qed

text \<open>
  C9: In every state any host can reach with any server, the session pauses for the host only on a
  host key whose signature over the hash of its exchange verified, with the ciphers derived from that
  exchange's secret and hash under the recorded session identifier ready; a receive cipher exists only beside a send cipher, a send
  cipher only with a session identifier, and an authentication request is outstanding only where a
  send cipher is.
\<close>

theorem reachable_key_state:
  assumes "reachable E s"
  shows "(phase (core s) = AwaitingHostKeyDecision \<longrightarrow>
      (\<exists>k H K sig k_mpint alg sid ciphers.
         pending_host_key (core s) = Some (k, H, K) \<and> sig_valid E (hk_blob k) H sig \<and>
         encode_mpint E K = Ok k_mpint \<and> session_id (core s) = Some sid \<and>
         derive_ciphers E alg k_mpint H sid = Ok ciphers \<and>
         pending_ciphers (core s) = Some ciphers)) \<and>
    (sc_cipher (core s) \<noteq> None \<longrightarrow> cs_cipher (core s) \<noteq> None) \<and>
    (cs_cipher (core s) \<noteq> None \<longrightarrow> session_id (core s) \<noteq> None) \<and>
    (pending_auth (core s) \<noteq> None \<longrightarrow> cs_cipher (core s) \<noteq> None)"
  using reachable_ok [OF assms] by (auto simp: engine_ok_def kex_verified_def exchange_ready_def)

theorem reachable_key_state_witness:
  "\<exists>k H K sig. pending_host_key (core demo3) = Some (k, H, K) \<and> sig_valid demo_crates (hk_blob k) H sig"
proof -
  have "reachable demo_crates demo3" using demo_run by (auto simp: reachable_def)
  from reachable_key_state [OF this] show ?thesis by (simp add: demo3_def)
qed

text \<open>
  C1: Whatever the server sends and in whatever order the host calls, the client encrypts only
  after the host has accepted a host key: a send cipher exists only if some earlier call was an
  acceptance, made while the session was paused on a key whose signature verified.
\<close>

theorem encryption_needs_accepted_key:
  assumes "runs E (session_new r) cs s" and "cs_cipher (core s) \<noteq> None"
  shows "\<exists>pre post t. cs = pre @ HostKeyDecision True # post \<and> runs E (session_new r) pre t \<and>
    phase (core t) = AwaitingHostKeyDecision \<and>
    (\<exists>k H K sig. pending_host_key (core t) = Some (k, H, K) \<and> sig_valid E (hk_blob k) H sig)"
  using accepted_key [OF assms] unfolding kex_verified_def .

theorem encryption_needs_accepted_key_witness:
  "\<exists>cs s. runs demo_crates (session_new 0) cs s \<and> cs_cipher (core s) \<noteq> None \<and>
     HostKeyDecision True \<in> set cs"
proof -
  obtain s where a: "provide_host_key_decision demo_crates True demo3 = (Ok (), s)"
    and k: "cs_cipher (core s) \<noteq> None"
    using demo_accept by blast
  have r: "runs demo_crates (session_new 0) ([Feed demo_ident, Feed (demo_packet demo_kexinit_payload),
      Feed (demo_packet demo_reply)] @ [HostKeyDecision True]) s"
    by (rule runs.more [OF demo_run]) (simp add: host_step_simps a)
  from encryption_needs_accepted_key [OF r k] r k show ?thesis
    by (metis append_is_Nil_conv in_set_conv_decomp)
qed

section \<open>The life of a session\<close>

text \<open>
  C12: As long as the host does not poll, the queue of a session that was open only grows, and a
  terminal event (Disconnected or Unrecoverable) enters it exactly when the session closes: once,
  as the last event of the call.
\<close>

theorem one_terminal_event:
  assumes "host_step E c s s'" and "phase (core s) \<noteq> Closed" and "c \<noteq> PollEvent"
  shows "\<exists>new. events (core s') = events (core s) @ new \<and>
    (phase (core s') \<noteq> Closed \<longrightarrow> (\<forall>e \<in> set new. \<not> terminal e)) \<and>
    (phase (core s') = Closed \<longrightarrow>
       (\<exists>before last. new = before @ [last] \<and> terminal last \<and> (\<forall>e \<in> set before. \<not> terminal e)))"
  using call_history [OF assms] by (auto simp: continues_def closes_def)

theorem one_terminal_event_witness:
  "\<exists>s'. host_step toy_crates TransportIsClosed (session_new 0) s' \<and>
     events (core s') = [Unrecoverable TransportClosed]"
proof -
  let ?s = "fail_session TransportClosed (session_new (0::nat))"
  have h: "host_step toy_crates TransportIsClosed (session_new 0) ?s"
    by (simp add: host_step_simps notify_transport_closed_def session_new_def engine_new_def)
  from one_terminal_event [OF h] h show ?thesis
    by (auto simp: session_new_def engine_new_def fail_session_def fail_def)
qed

text \<open>
  C13: A closed session stays closed whatever is called, reports no further terminal event, and
  never looks at its input again: feeding it changes nothing but the buffer.
\<close>

theorem closed_is_final:
  assumes "host_step E c s s'" and "phase (core s) = Closed"
  shows "phase (core s') = Closed \<and>
    (\<forall>e \<in> set (events (core s')). terminal e \<longrightarrow> e \<in> set (events (core s))) \<and>
    feed_incoming E d s = (Ok (), s\<lparr>incoming := incoming s @ d\<rparr>)"
  using call_closed [OF assms] drive_paused [of "s\<lparr>incoming := incoming s @ d\<rparr>" E] assms(2)
  by (simp add: feed_incoming_def paused_def)

theorem closed_is_final_witness:
  "\<exists>s'. host_step toy_crates (Feed [1]) (fail_session Mac (session_new 0)) s' \<and>
     phase (core s') = Closed"
proof -
  let ?s = "fail_session Mac (session_new (0::nat))"
  have c: "phase (core ?s) = Closed" by (simp add: fail_session_def fail_def)
  have "feed_incoming toy_crates [1] ?s = (Ok (), ?s\<lparr>incoming := incoming ?s @ [1]\<rparr>)"
    unfolding feed_incoming_def by (rule drive_paused) (simp add: paused_def c)
  then have h: "host_step toy_crates (Feed [1]) ?s (?s\<lparr>incoming := incoming ?s @ [1]\<rparr>)"
    by (simp add: host_step_simps)
  from closed_is_final [OF h c] h show ?thesis by blast
qed

text \<open>
  C14: Feeding always returns (the loop ends for every input), never with an error value, and when
  it has not panicked it has done all the buffer allows: the session is paused, or waits for more
  of the identification with everything scanned, or for the rest of a packet whose length it knows
  or whose first four bytes are not there.
\<close>

theorem feeding_finishes:
  "\<exists>r s'. feed_incoming E d s = (r, s') \<and> (r = Panic \<or> r = Ok () \<and> quiescent E s')"
proof -
  obtain r s' where f: "feed_incoming E d s = (r, s')" by fastforce
  then have dr: "drive E (s\<lparr>incoming := incoming s @ d\<rparr>) = (r, s')" by (simp add: feed_incoming_def)
  show ?thesis
  proof (cases r)
    case (Ok u)
    with dr have "quiescent E s'" by (intro drive_quiescent) simp
    with f Ok show ?thesis by simp
  next
    case (Err e)
    with drive_not_Err [of E "s\<lparr>incoming := incoming s @ d\<rparr>" e] dr show ?thesis by simp
  next
    case Panic
    with f show ?thesis by simp
  qed
qed

text \<open>
  C10: The transport may cut the server's bytes into any pieces: two cuttings of the same stream
  leave the same session (phase, keys, events, output, buffered input), or panic alike. The buffer
  of a closed session is the only thing not compared: it is never read.
\<close>

theorem cutting_is_irrelevant:
  assumes "concat xss = concat yss" and "xss \<noteq> []" and "yss \<noteq> []"
  shows "fold (feed_observed E) xss (Some s) = fold (feed_observed E) yss (Some s)"
  using assms by (intro session_stream.cutting_irrelevant) simp_all

theorem cutting_is_irrelevant_witness:
  "fold (feed_observed demo_crates) (map (\<lambda>b. [b]) demo_ident) (Some (session_new 0)) = Some demo1"
proof -
  have "fold (feed_observed demo_crates) (map (\<lambda>b. [b]) demo_ident) (Some (session_new 0)) =
      fold (feed_observed demo_crates) [demo_ident] (Some (session_new 0))"
    by (rule cutting_is_irrelevant) (simp_all add: demo_ident_def concat_map_singleton)
  also have "\<dots> = Some demo1"
    by (simp add: demo_feed_ident) (simp add: observe_def demo1_def)
  finally show ?thesis .
qed

section \<open>Panics\<close>

text \<open>
  C15: With the send cipher active, in a state that satisfies the session invariant, no message
  makes the handlers panic, if data, extended data and requests name channels the server has
  confirmed, and a success reply does not name a channel whose setup is still waiting for its
  confirmation (the crates' calls that the source expects to succeed being total).
\<close>

theorem no_panic_once_keyed:
  assumes "crates_total E" and "engine_ok E s" and "cs_cipher s \<noteq> None" and "orderly t p s"
  shows "fst (dispatch E t p s) \<noteq> Panic"
  using assms by (rule dispatch_no_panic)

lemma toy_total: "crates_total toy_crates"
  by (simp add: crates_total_def toy_simps toy_seal_def GROUP14_BITS_def)

theorem no_panic_once_keyed_witness:
  "fst (dispatch toy_crates MSG_GLOBAL_REQUEST [80, 0, 0, 0, 0, 1]
     ((engine_new 0)\<lparr>cs_cipher := Some (dc_cs demo_ciphers), session_id := Some []\<rparr>)) \<noteq> Panic"
proof -
  let ?s = "(engine_new (0::nat))\<lparr>cs_cipher := Some (dc_cs demo_ciphers), session_id := Some []\<rparr>"
  have "engine_ok toy_crates ?s" by (simp add: engine_ok_def engine_new_def)
  moreover have "orderly MSG_GLOBAL_REQUEST [80, 0, 0, 0, 0, 1] ?s"
    by (simp add: orderly_def needs_confirmed_def MSG_GLOBAL_REQUEST_def channel_msg_defs)
  ultimately show ?thesis by (intro no_panic_once_keyed toy_total) simp_all
qed

text \<open>
  Before the send cipher is active, one plaintext packet makes the client panic: a global
  request that wants a reply. The server can send it right after its identification line.
\<close>

lemma plaintext_global_request_panics:
  assumes "incoming s = []" and "sc_cipher (core s) = None" and "cs_cipher (core s) = None"
    and "\<not> paused (core s)" and "phase (core s) \<noteq> VersionExchange"
    and "fits_u32 name" and "payload_fits (MSG_GLOBAL_REQUEST # write_string name @ write_bool True)"
  shows "fst (feed_incoming E
    (fst (seal_plaintext (fill_buf F) (MSG_GLOBAL_REQUEST # write_string name @ write_bool True) r)) s)
    = Panic"
proof -
  let ?p = "MSG_GLOBAL_REQUEST # write_string name @ write_bool True"
  have "reads (and_then read_u8 (\<lambda>_. and_then read_string (\<lambda>_. read_bool)))
      (MSG_GLOBAL_REQUEST # write_string name @ write_bool True @ []) True []"
    by (rule reads_and_then reads_u8 reads_string reads_bool assms(6))+
  then have "parse_with (and_then read_u8 (\<lambda>_. and_then read_string (\<lambda>_. read_bool))) ?p = Ok True"
    by (intro reads_parse_with) simp
  then have "dispatch E MSG_GLOBAL_REQUEST ?p (core s) = (Panic, core s)"
    using assms(3)
    by (simp add: dispatch_def handle_global_request_def send_ciphered_def msg_codes)
  from feed_plain_packet(3) [OF assms(7) refl refl assms(1,2,4,5) this refl] show ?thesis .
qed

text \<open>
  A success reply for a channel that has a setup but no confirmation (still opening, or already
  closed by the server) makes the client panic.
\<close>

lemma unconfirmed_success_panics:
  assumes "channel_setup s cid \<noteq> None" and "remote_id_of cid s = None"
  shows "dispatch E MSG_CHANNEL_SUCCESS (MSG_CHANNEL_SUCCESS # write_u32 cid @ rest) s = (Panic, s)"
proof -
  have "reads channel_id_of_reply (MSG_CHANNEL_SUCCESS # write_u32 cid @ rest) cid rest"
    unfolding channel_id_of_reply_def by (rule reads_and_then [OF reads_u8 reads_u32])
  then have "parse_with channel_id_of_reply (MSG_CHANNEL_SUCCESS # write_u32 cid @ rest) = Ok cid"
    by (rule reads_parse_with)
  then have "handle_channel_success E (MSG_CHANNEL_SUCCESS # write_u32 cid @ rest) s = (Panic, s)"
    using assms by (auto simp: handle_channel_success_def continue_channel_setup_def)
  then show ?thesis
    by (simp add: dispatch_def msg_codes)
qed

text \<open>
  C16: A server can make the client panic with one message. Before the send cipher is active, a
  plaintext global request that wants a reply does it, right after the identification line; later, a
  success reply for a channel that has a setup but no confirmation (still opening, or already closed
  by the server) does.
\<close>

theorem one_message_panics_the_client:
  "(incoming s = [] \<and> sc_cipher (core s) = None \<and> cs_cipher (core s) = None \<and>
      \<not> paused (core s) \<and> phase (core s) \<noteq> VersionExchange \<and> fits_u32 name \<and>
      payload_fits (MSG_GLOBAL_REQUEST # write_string name @ write_bool True) \<longrightarrow>
    fst (feed_incoming E (fst (seal_plaintext (fill_buf F)
      (MSG_GLOBAL_REQUEST # write_string name @ write_bool True) r)) s) = Panic) \<and>
   (channel_setup c cid \<noteq> None \<and> remote_id_of cid c = None \<longrightarrow>
    dispatch G MSG_CHANNEL_SUCCESS (MSG_CHANNEL_SUCCESS # write_u32 cid @ rest) c = (Panic, c))"
  by (intro conjI impI; elim conjE)
    (blast intro: plaintext_global_request_panics, blast intro: unconfirmed_success_panics)

theorem one_message_panics_the_client_witness:
  "fst (feed_incoming demo_crates
    (fst (seal_plaintext (fill_buf demo_crates) (MSG_GLOBAL_REQUEST # write_string [] @ write_bool True) 0))
    demo1) = Panic \<and>
   fst (dispatch toy_crates MSG_CHANNEL_SUCCESS (MSG_CHANNEL_SUCCESS # write_u32 0)
     ((engine_new 0)\<lparr>channel_setup := [0 \<mapsto> AwaitingExecReply]\<rparr>)) = Panic"
proof -
  let ?c = "(engine_new (0::nat))\<lparr>channel_setup := [0 \<mapsto> AwaitingExecReply]\<rparr>"
  have "channel_setup ?c 0 \<noteq> None \<and> remote_id_of 0 ?c = None"
    by (simp add: remote_id_of_def engine_new_def table_get_def table_new_def)
  moreover have "incoming demo1 = [] \<and> sc_cipher (core demo1) = None \<and> cs_cipher (core demo1) = None \<and>
      \<not> paused (core demo1) \<and> phase (core demo1) \<noteq> VersionExchange \<and> fits_u32 [] \<and>
      payload_fits (MSG_GLOBAL_REQUEST # write_string [] @ write_bool True)"
    by (simp add: demo1_def engine_new_def paused_def fits_u32_def payload_fits_def
        MAX_PACKET_LENGTH_def write_bool_def)
  ultimately show ?thesis
    using one_message_panics_the_client [where s = demo1 and name = "[]" and E = demo_crates and F = demo_crates
        and r = 0 and c = ?c and cid = 0 and rest = "[]" and G = toy_crates]
    by simp
qed

section \<open>No check of the phase\<close>

text \<open>
  C17: The dispatcher does not look at the phase: as long as the receive cipher is not active, a
  plaintext USERAUTH_SUCCESS moves the session to Connected and reports AuthSuccess, with no key
  exchange, no accepted host key and no authentication request.
\<close>

theorem plaintext_auth_success_accepted:
  assumes "incoming s = []" and "sc_cipher (core s) = None" and "\<not> paused (core s)"
    and "phase (core s) \<noteq> VersionExchange"
  shows "feed_incoming E (fst (seal_plaintext (fill_buf F) [MSG_USERAUTH_SUCCESS] r)) s =
    (Ok (), s\<lparr>core := (core s)\<lparr>pending_auth := None, phase := Connected,
                             events := events (core s) @ [AuthSuccess]\<rparr>\<rparr>)"
proof (rule feed_plain_packet(1) [where t = MSG_USERAUTH_SUCCESS and ps = "[]" and q = "Ok ()"])
  show "dispatch E MSG_USERAUTH_SUCCESS [MSG_USERAUTH_SUCCESS] (core s) =
      (Ok (), (core s)\<lparr>pending_auth := None, phase := Connected, events := events (core s) @ [AuthSuccess]\<rparr>)"
    by (simp add: dispatch_def handle_userauth_success_def set_phase_def push_event_def msg_codes)
qed (use assms in \<open>simp_all add: payload_fits_def MAX_PACKET_LENGTH_def\<close>)

theorem plaintext_auth_success_accepted_witness:
  "\<exists>s. feed_incoming demo_crates (fst (seal_plaintext (fill_buf demo_crates) [MSG_USERAUTH_SUCCESS] 0))
     demo1 = (Ok (), s) \<and> phase (core s) = Connected \<and> cs_cipher (core s) = None"
  using plaintext_auth_success_accepted [of demo1 demo_crates demo_crates 0]
  by (simp add: demo1_def engine_new_def paused_def)

section \<open>Switching to the ciphers\<close>

lemma send_ciphered_sealed:
  "cs_cipher s = Some c \<Longrightarrow> cipher_seal E p (c, rng s) = (Ok w, (c', r)) \<Longrightarrow>
     send_ciphered E p s = (Ok (), s\<lparr>cs_cipher := Some c', rng := r, outgoing := outgoing s @ w\<rparr>)"
  by (simp add: send_ciphered_def)

text \<open>
  C18: Accepting the host key sends NEWKEYS as the last plaintext packet and the service request as
  the first packet under the new send cipher: a server with the same key material opens the first
  in plaintext and the second with that cipher. The receive cipher is only prepared.
\<close>

theorem acceptance_switches_sending:
  assumes E: "ciphers_ok E" and p: "pending_ciphers s = Some ciphers"
  shows "\<exists>nk wire s' c'. accept_host_key E s = (Ok (), s') \<and>
    outgoing s' = outgoing s @ nk @ wire \<and> phase s' = ServiceRequest \<and>
    open_plaintext nk = Ok [MSG_NEWKEYS] \<and>
    peek_plaintext_length (take 4 nk) = Ok (length nk) \<and>
    cipher_open E wire (dc_cs ciphers) = (Ok (build_service_request SERVICE_USERAUTH), c') \<and>
    cs_cipher s' = Some c' \<and> sc_cipher s' = sc_cipher s \<and> pending_sc_cipher s' = Some (dc_sc ciphers) \<and>
    pending_ciphers s' = None \<and> pending_host_key s' = None"
proof -
  obtain nk r where nk: "seal_plaintext (fill_buf E) [MSG_NEWKEYS] (rng s) = (nk, r)" by fastforce
  have "payload_fits [MSG_NEWKEYS]" by (simp add: payload_fits_def MAX_PACKET_LENGTH_def)
  note l = plaintext_link [OF this nk]
  obtain wire c' r' where w: "cipher_seal E (build_service_request SERVICE_USERAUTH) (dc_cs ciphers, r)
      = (Ok wire, (c', r'))"
    and o: "cipher_open E wire (dc_cs ciphers) = (Ok (build_service_request SERVICE_USERAUTH), c')"
    using cipher_link [OF E service_request_fits] by blast
  let ?t = "s\<lparr>pending_host_key := None, pending_ciphers := None,
      pending_sc_cipher := Some (dc_sc ciphers), cs_cipher := Some c', rng := r',
      outgoing := (outgoing s @ nk) @ wire, phase := ServiceRequest\<rparr>"
  have "accept_host_key E s = (Ok (), ?t)"
    by (simp add: accept_host_key_def send_plaintext_def nk p set_phase_def and_then_def
        send_ciphered_def w)
  with l o show ?thesis
    by (intro exI [of _ nk] exI [of _ wire] exI [of _ ?t] exI [of _ c']) simp
qed

theorem acceptance_switches_sending_witness:
  "\<exists>s'. accept_host_key demo_crates (core demo3) = (Ok (), s') \<and> phase s' = ServiceRequest"
proof -
  have "pending_ciphers (core demo3) = Some demo_ciphers" by (simp add: demo3_def)
  from acceptance_switches_sending [OF demo_ciphers_ok this] show ?thesis by blast
qed

text \<open>What NEWKEYS does, on every branch.\<close>

lemma newkeys_activates_prepared_cipher:
  "handle_newkeys s =
     (case pending_sc_cipher s of
        Some c \<Rightarrow> if cs_cipher s = None
          then (Err (UnexpectedMessage (lit ''NewKeys'') MSG_NEWKEYS),
                s\<lparr>sc_cipher := Some c, pending_sc_cipher := None\<rparr>)
          else (Ok (), s\<lparr>sc_cipher := Some c, pending_sc_cipher := None\<rparr>)
      | None \<Rightarrow> (Err (UnexpectedMessage (lit ''NewKeys'') MSG_NEWKEYS),
                s\<lparr>sc_cipher := None, pending_sc_cipher := None\<rparr>))"
  by (simp add: handle_newkeys_def split: option.split)

lemma others_keep_keys:
  assumes "dispatch E t p s = (r, s')" and "r \<noteq> Panic" and "t \<noteq> MSG_NEWKEYS"
  shows "keys_of s' = keys_of s"
proof -
  have d: "preserves (\<lambda>s. keys_of s = k) (handle_disconnect p)" for k
    unfolding handle_disconnect_def case_prod_beta set_phase_def push_event_def
    by (intro preserves_rules) (simp_all add: keys_of_def)
  have "preserves (\<lambda>s. keys_of s = k) (dispatch E t p)" for k
  proof (cases "t = 1")
    case True
    then have "dispatch E t p = handle_disconnect p" by (intro ext) (simp add: dispatch_def)
    then show ?thesis using d by simp
  next
    case False
    with assms(3) show ?thesis by (intro keys.dispatch_keeps)
  qed
  from this [of "keys_of s"] assms(1,2) show ?thesis
    by (cases r) (auto simp: triple_def split: prod.splits)
qed

text \<open>
  C19: Only NEWKEYS changes what the client receives with: any other message, on every branch that
  returns, leaves the receive cipher, the prepared one, and whether there is a send cipher, as they
  were. NEWKEYS installs the prepared cipher and uses it up, and is accepted exactly when there is
  one and the client already sends under its own: without an acceptance, or a second time, it fails.
\<close>

theorem only_newkeys_changes_receiving:
  assumes "dispatch E t p s = (r, s')" and "r \<noteq> Panic"
  shows "(cs_cipher s' = None) = (cs_cipher s = None) \<and>
    (if t = MSG_NEWKEYS
     then sc_cipher s' = pending_sc_cipher s \<and> pending_sc_cipher s' = None \<and>
       (r = Ok () \<longleftrightarrow> pending_sc_cipher s \<noteq> None \<and> cs_cipher s \<noteq> None)
     else sc_cipher s' = sc_cipher s \<and> pending_sc_cipher s' = pending_sc_cipher s)"
proof (cases "t = MSG_NEWKEYS")
  case True
  then have "dispatch E t p = handle_newkeys" by (intro ext) (simp add: dispatch_def msg_codes)
  with assms(1) True show ?thesis
    by (auto simp: newkeys_activates_prepared_cipher split: option.splits if_splits)
next
  case False
  with others_keep_keys [OF assms] show ?thesis by (auto simp: keys_of_def)
qed

theorem only_newkeys_changes_receiving_witness:
  "dispatch toy_crates 2 [2] (engine_new 0) = (Ok (), engine_new 0) \<and> sc_cipher (engine_new 0) = None"
  using only_newkeys_changes_receiving [of toy_crates 2 "[2]" "engine_new 0" "Ok ()" "engine_new 0"]
  by (simp add: dispatch_def MSG_NEWKEYS_def engine_new_def)

text \<open>
  C20: Both directions use the cipher negotiated for client to server: the one negotiated for server
  to client is never looked at.
\<close>

theorem both_directions_use_client_cipher:
  assumes "on_kex_result E k h ss s = (Ok (), s')" and "negotiated s = Some neg"
  shows "\<exists>ciphers. pending_ciphers s' = Some ciphers \<and>
    cipher_from_name (neg_encryption_client_to_server neg) = Some (pc_alg (dc_cs ciphers)) \<and>
    pc_alg (dc_sc ciphers) = pc_alg (dc_cs ciphers) \<and>
    on_kex_result E k h ss (s\<lparr>negotiated := Some (neg\<lparr>neg_encryption_server_to_client := other\<rparr>)\<rparr>) =
      (Ok (), s'\<lparr>negotiated := Some (neg\<lparr>neg_encryption_server_to_client := other\<rparr>)\<rparr>)"
proof -
  from assms(1) obtain alg km ciphers where c: "cipher_from_name (neg_encryption_client_to_server neg) = Some alg"
    and km: "encode_mpint E ss = Ok km"
    and d: "derive_ciphers E alg km h (case session_id s of Some i \<Rightarrow> i | None \<Rightarrow> h) = Ok ciphers"
    and s': "s' = s\<lparr>pending_ciphers := Some ciphers,
      session_id := (case session_id s of Some i \<Rightarrow> Some i | None \<Rightarrow> Some h),
      pending_host_key := Some (k, h, ss), phase := AwaitingHostKeyDecision,
      events := events s @ [HostKeyVerify (algorithm_name E k) (fingerprint_sha256 E k) (hk_blob k)]\<rparr>"
    using assms(2) by (elim on_kex_result_Ok) auto
  from d have "pc_alg (dc_cs ciphers) = alg" "pc_alg (dc_sc ciphers) = alg"
    by (cases alg; auto simp: derive_ciphers_def with_initial_seq_def Let_def)+
  with c km d s' show ?thesis by (simp add: on_kex_result_def push_event_def)
qed

theorem both_directions_use_client_cipher_witness:
  "\<exists>s' ciphers. on_kex_result demo_crates \<lparr>hk_public = [], hk_blob = []\<rparr> demo_hash [5] (core demo2) = (Ok (), s') \<and>
     pending_ciphers s' = Some ciphers \<and> pc_alg (dc_sc ciphers) = Aes256GcmOpenSsh"
proof -
  have "encode_mpint demo_crates [5] = Ok [5]" by (simp add: encode_mpint_def demo_crates_def)
  moreover have "cipher_from_name (neg_encryption_client_to_server demo_neg) = Some Aes256GcmOpenSsh"
    by (simp add: demo_neg_def cipher_from_name_def)
  ultimately obtain s' where h: "on_kex_result demo_crates \<lparr>hk_public = [], hk_blob = []\<rparr> demo_hash [5]
      (core demo2) = (Ok (), s')"
    by (simp add: on_kex_result_def push_event_def demo2_def demo1_def engine_new_def demo_derive)
  have "negotiated (core demo2) = Some demo_neg" by (simp add: demo2_def)
  from both_directions_use_client_cipher [OF h this, of "[]"] h
  show ?thesis by (auto simp: demo_neg_def cipher_from_name_def)
qed

section \<open>Authentication\<close>

text \<open>
  C21: When the server says the offered key is acceptable, the client answers with a request whose
  signature is over exactly this session's identifier followed by the request's own bytes up to
  and including the key, and nothing is sent if the signing fails.
\<close>

theorem pk_ok_signs_this_session:
  assumes "pending_auth s = Some (PublicKeyQuery a key)" and "session_id s = Some sid"
    and "parse_pk_ok p = Ok v"
  shows "(\<exists>raw sig. sign_message E key (write_string sid @ request_body_through_key_blob a True) = Ok raw \<and>
       signature_to_bytes E raw = Inr sig \<and>
       handle_userauth_pk_ok E p s =
         send_ciphered E (request_body_through_key_blob a True @ write_string sig)
           (s\<lparr>pending_auth := Some PublicKeySigned\<rparr>)) \<or>
    (\<exists>e. handle_userauth_pk_ok E p s = (Err e, s\<lparr>pending_auth := None\<rparr>))"
proof (cases "build_signed_request E a sid key")
  case (Ok m)
  then obtain raw sig where "sign_message E key (signed_data a sid) = Ok raw"
    and "signature_to_bytes E raw = Inr sig" and "m = request_body_through_key_blob a True @ write_string sig"
    by (auto simp: build_signed_request_def)
  with assms Ok show ?thesis
    by (auto simp: handle_userauth_pk_ok_def signed_data_def)
next
  case (Err e)
  with assms show ?thesis by (auto simp: handle_userauth_pk_ok_def)
qed simp

lemma demo_pk_ok: "parse_pk_ok (MSG_USERAUTH_PK_OK # write_string [] @ write_string []) = Ok ([], [])"
proof -
  have "reads (and_then read_utf8_string (\<lambda>a. and_then read_string (\<lambda>b. ret (a, b))))
      (write_string [] @ write_string [] @ []) ([], []) []"
    by (rule reads_and_then reads_utf8_string reads_string reads_ret | simp add: fits_u32_def)+
  then have "reads (and_then read_u8 (\<lambda>msg_type. if msg_type \<noteq> MSG_USERAUTH_PK_OK
      then fail_with (UnexpectedMessage (lit ''UserAuthPkOk'') msg_type)
      else and_then read_utf8_string (\<lambda>a. and_then read_string (\<lambda>b. ret (a, b)))))
      (MSG_USERAUTH_PK_OK # write_string [] @ write_string []) ([], []) []"
    by (intro reads_and_then [OF reads_u8] reads_guard) simp_all
  then show ?thesis unfolding parse_pk_ok_def by (rule reads_parse_with)
qed

theorem pk_ok_signs_this_session_witness:
  "\<exists>a key s s'. pending_auth s = Some (PublicKeyQuery a key) \<and>
     handle_userauth_pk_ok toy_crates (MSG_USERAUTH_PK_OK # write_string [] @ write_string []) s = (Ok (), s') \<and>
     pending_auth s' = Some PublicKeySigned"
proof -
  let ?a = "\<lparr>pka_username = [], pka_algorithm_name = [], pka_public_key_blob = []\<rparr>"
  let ?s = "(engine_new (0::nat))\<lparr>pending_auth := Some (PublicKeyQuery ?a [1]), session_id := Some [7],
    cs_cipher := Some (dc_cs demo_ciphers)\<rparr>"
  let ?b = "request_body_through_key_blob ?a True"
  let ?m = "?b @ write_string ([1] @ write_string [7] @ ?b)"
  have s: "sign_message toy_crates [1] m = Ok ([1] @ m)" and t: "signature_to_bytes toy_crates = Inr" for m
    by (simp_all add: sign_message_def toy_simps)
  have "payload_fits ?m"
    by (simp add: payload_fits_def request_body_through_key_blob_def write_request_prefix_def
        SERVICE_CONNECTION_def write_bool_def MAX_PACKET_LENGTH_def)
  then obtain w c' r where seal: "cipher_seal toy_crates ?m (dc_cs demo_ciphers, 0) = (Ok w, (c', r))"
    using cipher_link [OF toy_ciphers_ok] by blast
  let ?t = "?s\<lparr>pending_auth := Some PublicKeySigned, cs_cipher := Some c', rng := r,
              outgoing := outgoing ?s @ w\<rparr>"
  from seal have sent: "send_ciphered toy_crates ?m (?s\<lparr>pending_auth := Some PublicKeySigned\<rparr>) =
      (Ok (), ?t)"
    by (simp add: send_ciphered_def engine_new_def)
  have "pending_auth ?s = Some (PublicKeyQuery ?a [1])" "session_id ?s = Some [7]" by simp_all
  from pk_ok_signs_this_session [OF this demo_pk_ok, of toy_crates]
  show ?thesis
  proof
    assume "\<exists>raw sig. sign_message toy_crates [1] (write_string [7] @ ?b) = Ok raw \<and>
       signature_to_bytes toy_crates raw = Inr sig \<and>
       handle_userauth_pk_ok toy_crates (MSG_USERAUTH_PK_OK # write_string [] @ write_string []) ?s =
         send_ciphered toy_crates (?b @ write_string sig) (?s\<lparr>pending_auth := Some PublicKeySigned\<rparr>)"
    then have "handle_userauth_pk_ok toy_crates (MSG_USERAUTH_PK_OK # write_string [] @ write_string []) ?s =
        (Ok (), ?t)"
      using s t sent by simp
    moreover have "pending_auth ?s = Some (PublicKeyQuery ?a [1])"
      and "pending_auth ?t = Some PublicKeySigned" by simp_all
    ultimately show ?thesis by blast
  next
    assume "\<exists>e. handle_userauth_pk_ok toy_crates (MSG_USERAUTH_PK_OK # write_string [] @ write_string []) ?s =
        (Err e, ?s\<lparr>pending_auth := None\<rparr>)"
    then show ?thesis
      using s t sent by (auto simp: handle_userauth_pk_ok_def demo_pk_ok build_signed_request_def
          signed_data_def key_result_def)
  qed
qed

end
