(* ===== verification/Channel_Setup.thy ===== *)
theory Channel_Setup
  imports Session
begin

text \<open>
  What the session puts on the wire for a channel being set up: the confirmation of an \<open>exec\<close>
  channel makes it send the command that is pending, which is the empty one when none is.
\<close>

lemma sealed_send:
  assumes "ciphers_ok E" and "cs_cipher c = Some a" and "payload_fits m"
  obtains wire a' r where "cipher_seal E m (a, rng c) = (Ok wire, (a', r))" and "wire \<noteq> []"
    and "cipher_open E wire a = (Ok m, a')"
    and "send_ciphered E m c = (Ok (), c\<lparr>cs_cipher := Some a', rng := r, outgoing := outgoing c @ wire\<rparr>)"
proof -
  obtain wire a' r where "cipher_seal E m (a, rng c) = (Ok wire, (a', r))" "4 \<le> length wire"
    "cipher_open E wire a = (Ok m, a')"
    using cipher_link [OF assms(1,3), of a "rng c"] by metis
  then show thesis using assms(2) by (intro that) (auto simp: send_ciphered_def)
qed

lemma small_fits: "length m \<le> 200000 \<Longrightarrow> payload_fits m"
  by (simp add: payload_fits_def MAX_PACKET_LENGTH_def)

definition pending_command :: "'r engine \<Rightarrow> u32 \<Rightarrow> str" where
  "pending_command c cid = (case pending_exec c cid of Some command \<Rightarrow> command | None \<Rightarrow> [])"

lemma exec_confirmed:
  assumes E: "ciphers_ok E" and a: "cs_cipher c = Some a" and ch: "ct_channels (channels c) cid = Some ch"
    and su: "channel_setup c cid = Some AwaitingExecReply" and len: "length (pending_command c cid) \<le> 100000"
  shows "\<exists>wire a' r. cipher_seal E (exec_build_request sid (pending_command c cid)) (a, rng c) =
      (Ok wire, (a', r)) \<and> wire \<noteq> [] \<and>
    cipher_open E wire a = (Ok (exec_build_request sid (pending_command c cid)), a') \<and>
    dispatch E MSG_CHANNEL_OPEN_CONFIRMATION (MSG_CHANNEL_OPEN_CONFIRMATION # write_u32 cid @
        write_u32 sid @ write_u32 w @ write_u32 p) c =
      (Ok (), c\<lparr>channels := (channels c)\<lparr>ct_channels := (ct_channels (channels c))
         (cid \<mapsto> on_open_confirmation sid w p ch)\<rparr>,
        pending_exec := (pending_exec c)(cid := None), cs_cipher := Some a', rng := r,
        outgoing := outgoing c @ wire, events := events c @ [ChannelOpened cid]\<rparr>)"
proof -
  let ?m = "exec_build_request sid (pending_command c cid)"
  have fits: "payload_fits ?m"
    using len by (intro small_fits)
      (simp add: exec_build_request_def build_channel_request_def write_bool_def)
  let ?t = "(channels c)\<lparr>ct_channels := (ct_channels (channels c))(cid \<mapsto> on_open_confirmation sid w p ch)\<rparr>"
  let ?c = "c\<lparr>channels := ?t, pending_exec := (pending_exec c)(cid := None)\<rparr>"
  obtain wire a' r where seal: "cipher_seal E ?m (a, rng ?c) = (Ok wire, (a', r))" "wire \<noteq> []"
      "cipher_open E wire a = (Ok ?m, a')"
    and send: "send_ciphered E ?m ?c =
      (Ok (), ?c\<lparr>cs_cipher := Some a', rng := r, outgoing := outgoing ?c @ wire\<rparr>)"
    by (rule sealed_send [OF E _ fits, of ?c a]) (simp_all add: a)
  have "table_handle MSG_CHANNEL_OPEN_CONFIRMATION (MSG_CHANNEL_OPEN_CONFIRMATION # write_u32 cid @
        write_u32 sid @ write_u32 w @ write_u32 p) (channels c) = (Ok ([ChannelOpened cid], []), ?t)"
    using confirmation_effect [OF ch, of sid w p "[]"] by simp
  moreover have "remote_id_of cid (c\<lparr>channels := ?t\<rparr>) = Some sid"
    by (simp add: remote_id_of_def table_get_def on_open_confirmation_def)
  ultimately have "handle_channel_message E MSG_CHANNEL_OPEN_CONFIRMATION (MSG_CHANNEL_OPEN_CONFIRMATION #
        write_u32 cid @ write_u32 sid @ write_u32 w @ write_u32 p) c =
      (Ok (), ?c\<lparr>cs_cipher := Some a', rng := r, outgoing := outgoing c @ wire,
        events := events c @ [ChannelOpened cid]\<rparr>)"
    using su send
    by (simp add: handle_channel_message_def on_channels_def and_then_def continue_channel_setup_def
        push_event_def pending_command_def)
  with seal show ?thesis
    by (intro exI [of _ wire] exI [of _ a'] exI [of _ r]) (simp add: dispatch_def msg_codes)
qed

end
