(* ===== verification/Connection_Properties.thy ===== *)
theory Connection_Properties
  imports Session_Properties Channel_Setup
begin

text \<open>
  The properties of the channels: their table, their flow control, their setup, and what the
  session puts on the wire for them.
\<close>

section \<open>The table\<close>

definition ids_below :: "nat \<Rightarrow> channel_table \<Rightarrow> bool" where
  "ids_below n t \<longleftrightarrow>
     n < 4294967296 \<and> unat (ct_next_id t) = n \<and> (\<forall>cid \<in> dom (ct_channels t). unat cid < n)"

text \<open>
  A new channel gets an identifier no open channel has, as long as fewer than two to the power
  32 channels have been opened, and its entry waits for the confirmation with the initial window.
\<close>

lemma opened_id_is_fresh:
  assumes "ids_below n t"
  shows "table_get t (fst (fst (table_open k t))) = None \<and>
    table_get (snd (table_open k t)) (fst (fst (table_open k t))) =
      Some (channel_new (fst (fst (table_open k t))) k) \<and>
    (Suc n < 4294967296 \<longrightarrow> ids_below (Suc n) (snd (table_open k t)))"
proof -
  have f: "ct_channels t (ct_next_id t) = None"
    using assms by (auto simp: ids_below_def dom_def)
  have "unat (ct_next_id t + 1) = Suc n" if "Suc n < 4294967296"
    using assms that by (subst unat_add_lem [THEN iffD1]) (simp_all add: ids_below_def)
  with f assms show ?thesis
    by (auto simp: table_open_def Let_def table_get_def ids_below_def less_Suc_eq)
qed

text \<open>
  C22: The table stays well-formed: every entry carries its own identifier, an open channel has a
  positive packet limit, less than the adjustment threshold is ever held back, and the window
  left to the server together with what is held back never falls below the initial window. That
  holds whatever message about channels arrives, and whatever the handler makes of it (also an error
  or a panic), and after a channel is opened or removed. A new channel gets an identifier no open
  one has, as long as fewer than two to the power 32 have been opened, and waits for the
  confirmation with the initial window.
\<close>

theorem table_stays_well_formed:
  assumes "table_ok t"
  shows "table_ok (snd (table_handle msg_type payload t)) \<and> table_ok (snd (table_open k t)) \<and>
    table_ok (table_remove cid t) \<and>
    (ids_below n t \<longrightarrow>
       table_get t (fst (fst (table_open k t))) = None \<and>
       table_get (snd (table_open k t)) (fst (fst (table_open k t))) =
         Some (channel_new (fst (fst (table_open k t))) k) \<and>
       (Suc n < 4294967296 \<longrightarrow> ids_below (Suc n) (snd (table_open k t))))"
  using assms opened_id_is_fresh by (simp add: table_handle_ok table_open_ok table_remove_ok)

theorem table_stays_well_formed_witness:
  "table_ok (snd (table_handle MSG_CHANNEL_CLOSE [97, 0, 0, 0, 0] table_new)) \<and>
   ids_below 1 (snd (table_open Exec table_new)) \<and> table_get table_new 0 = None"
proof -
  have "ids_below 0 table_new" by (simp add: ids_below_def table_new_def)
  then show ?thesis
    using table_stays_well_formed [OF table_new_ok, of MSG_CHANNEL_CLOSE "[97, 0, 0, 0, 0]" Exec 0 0]
    by (simp add: table_open_def table_new_def Let_def)
qed

text \<open>
  C23: A message about channels only ever changes, or removes, the channel it names.
\<close>

theorem message_touches_one_channel:
  assumes "cid \<noteq> recipient_of payload"
  shows "table_get (snd (table_handle msg_type payload t)) cid = table_get t cid"
  using table_handle_isolated [of payload cid msg_type t] assms by (simp add: table_get_def)

theorem message_touches_one_channel_witness:
  "table_get (snd (table_handle MSG_CHANNEL_CLOSE [97, 0, 0, 0, 1] (snd (table_open Exec table_new)))) 0 =
    Some (channel_new 0 Exec)"
proof -
  have r: "recipient_of [97, 0, 0, 0, 1] = 1" by (simp add: recipient_of_def be_simps)
  have "table_get (snd (table_handle MSG_CHANNEL_CLOSE [97, 0, 0, 0, 1] (snd (table_open Exec table_new)))) 0 =
      table_get (snd (table_open Exec table_new)) 0"
    by (rule message_touches_one_channel) (simp add: r)
  then show ?thesis by (simp add: table_get_def table_open_def table_new_def Let_def)
qed

text \<open>
  C24: The handler can panic only on data, extended data or a request for a channel that has not
  been confirmed; every other input, malformed or not, is an event, a reply or an error value.
\<close>

theorem table_panics_only_unconfirmed:
  assumes "fst (table_handle t p tab) = Panic"
  shows "t \<in> {MSG_CHANNEL_DATA, MSG_CHANNEL_EXTENDED_DATA, MSG_CHANNEL_REQUEST} \<and>
    (\<exists>ch. table_get tab (recipient_of p) = Some ch \<and> remote_id ch = None)"
proof (rule ccontr)
  assume "\<not> ?thesis"
  then have "needs_confirmed t \<longrightarrow> confirmed (recipient_of p) tab"
    by (auto simp: needs_confirmed_def confirmed_def table_get_def)
  from table_handle_safe [OF this] assms show False by simp
qed

text \<open>An unsupported request that wants a reply, on a channel still being opened.\<close>

lemma unsupported_request_panics:
  "fst (table_handle MSG_CHANNEL_REQUEST
     (MSG_CHANNEL_REQUEST # write_u32 0 @ write_string [120] @ write_bool True)
     (snd (table_open Exec table_new))) = Panic"
proof -
  let ?t = "snd (table_open Exec table_new)"
  have ch: "ct_channels ?t 0 = Some (channel_new 0 Exec)"
    by (simp add: table_open_def table_new_def Let_def)
  have u: "utf8_valid [120]" by simp
  have ref: "and_then (on_snd (channel_ref 0)) f (r, ?t) = f (channel_new 0 Exec) (r, ?t)"
    for f :: "channel \<Rightarrow> (reader \<times> channel_table, reaction) op" and r
    using ch by (simp add: and_then_def on_snd_def channel_ref_def)
  have mut: "channel_mut 0 (ret ()) ?t = (Ok (), ?t)"
    using ch by (simp add: channel_mut_def fun_upd_idem)
  have last: "handles (and_then (on_snd (channel_ref 0)) (\<lambda>ch. and_then (lift_r (expect (remote_id ch)))
      (\<lambda>rid. ret ([], [MSG_CHANNEL_FAILURE # write_u32 rid]) :: (reader \<times> channel_table, reaction) op)))
      [] ?t Panic ?t"
    unfolding handles_def ref by (simp add: channel_new_def)
  have "handles handle_channel_request (write_u32 0 @ write_string [120] @ write_bool True @ []) ?t Panic ?t"
    unfolding handle_channel_request_def
    apply (rule handles_read, rule reads_u32)
    apply (rule handles_read, rule reads_utf8_string [OF _ u], simp add: fits_u32_def)
    apply (rule handles_read, rule reads_bool, rule handles_table, rule mut)
    apply (simp add: lit_def last)
    done
  then have "handles (handle_message MSG_CHANNEL_REQUEST)
      (MSG_CHANNEL_REQUEST # write_u32 0 @ write_string [120] @ write_bool True) ?t Panic ?t"
    unfolding handle_message_cases by (intro handles_read [OF reads_u8]) simp
  from handles_new [OF this] show ?thesis by simp
qed

theorem table_panics_only_unconfirmed_witness:
  "\<exists>ch. table_get (snd (table_open Exec table_new)) 0 = Some ch \<and> remote_id ch = None"
proof -
  have "recipient_of (MSG_CHANNEL_REQUEST # write_u32 0 @ write_string [120] @ write_bool True) = 0"
    by (simp add: recipient_of_def write_u32_def)
  with table_panics_only_unconfirmed [OF unsupported_request_panics] show ?thesis by simp
qed

section \<open>Flow control\<close>

text \<open>
  Receiving data on a confirmed channel gives the window back exactly: nothing is sent while
  less than the threshold is held back; then one WINDOW_ADJUST announces all of it. A server that
  stays inside its window always finds window plus held-back bytes equal to what it was.
\<close>

lemma received_window_is_given_back:
  assumes "channel_ok ch" and "remote_id ch = Some rid" and "unat n \<le> unat (local_window ch)"
    and "unat (local_window ch) + unat (local_window_unadvertised ch) < 4294967296"
  shows "\<exists>adjust ch'. on_data_consumed n ch = (Ok adjust, ch') \<and>
    unat (local_window ch') + unat (local_window_unadvertised ch') =
      unat (local_window ch) + unat (local_window_unadvertised ch) \<and>
    (if unat (local_window_unadvertised ch) + unat n < unat WINDOW_ADJUST_THRESHOLD
     then adjust = None \<and> unat (local_window_unadvertised ch') =
       unat (local_window_unadvertised ch) + unat n
     else adjust = Some (MSG_CHANNEL_WINDOW_ADJUST # write_u32 rid @
         write_u32 (local_window_unadvertised ch + n)) \<and> local_window_unadvertised ch' = 0)"
proof (cases "local_window_unadvertised ch + n < WINDOW_ADJUST_THRESHOLD")
  case True
  then show ?thesis
    using assms on_data_consumed_in_window [OF assms(2-4)] by (simp add: word_less_nat_alt)
next
  case False
  then show ?thesis
    using on_data_consumed_in_window [OF assms(2-4)] by (simp add: word_less_nat_alt)
qed

text \<open>
  C25: Sending on an open channel takes as much of the data as the remote window allows, in order
  and without loss, cut into nonempty pieces no longer than the remote packet limit, and charges
  the window by exactly the bytes sent.
\<close>

theorem data_is_cut_to_the_window:
  assumes "remote_id ch = Some rid" and "0 < remote_max_packet ch"
  shows "\<exists>chunks. build_data_messages data ch =
      (Ok (length (concat chunks), map (data_message rid) chunks),
       ch\<lparr>remote_window := remote_window ch - word_of_nat (length (concat chunks))\<rparr>) \<and>
    concat chunks = take (unat (remote_window ch)) data \<and>
    (\<forall>c \<in> set chunks. c \<noteq> [] \<and> length c \<le> unat (remote_max_packet ch))"
  using data_loop_spec [OF assms, of 0 data "[]"] by (simp add: build_data_messages_def)

theorem data_is_cut_to_the_window_witness:
  "\<exists>chunks. concat chunks = [1, 2, 3] \<and>
     fst (build_data_messages [1, 2, 3, 4] ((channel_new 0 Exec)\<lparr>remote_id := Some 9,
       remote_window := 3, remote_max_packet := 2\<rparr>)) = Ok (3, map (data_message 9) chunks)"
proof -
  let ?ch = "(channel_new 0 Exec)\<lparr>remote_id := Some 9, remote_window := 3, remote_max_packet := 2\<rparr>"
  have "remote_id ?ch = Some 9" "0 < remote_max_packet ?ch" by simp_all
  from data_is_cut_to_the_window [OF this, of "[1, 2, 3, 4]"] obtain chunks where
    b: "build_data_messages [1, 2, 3, 4] ?ch = (Ok (length (concat chunks), map (data_message 9) chunks),
       ?ch\<lparr>remote_window := remote_window ?ch - word_of_nat (length (concat chunks))\<rparr>)"
    and c: "concat chunks = take (unat (remote_window ?ch)) [1, 2, 3, 4]"
    by blast
  from c have "concat chunks = [1, 2, 3]" by simp
  with b show ?thesis by (intro exI [of _ chunks]) (simp del: length_concat)
qed

section \<open>The setup of a channel\<close>

text \<open>
  C26: The server decides what a confirmation starts: when the confirmation of an \<open>exec\<close> channel
  comes again before the reply to the command, the pending command is gone, and the session asks
  for the execution of the empty command, and reports the channel opened a second time.
\<close>

theorem repeated_confirmation_runs_nothing:
  assumes E: "ciphers_ok E" and a: "cs_cipher c = Some a" and ch: "ct_channels (channels c) cid = Some ch"
    and su: "channel_setup c cid = Some AwaitingExecReply" and none: "pending_exec c cid = None"
  shows "\<exists>wire a' c'. dispatch E MSG_CHANNEL_OPEN_CONFIRMATION (MSG_CHANNEL_OPEN_CONFIRMATION #
      write_u32 cid @ write_u32 sid @ write_u32 w @ write_u32 p) c = (Ok (), c') \<and>
    outgoing c' = outgoing c @ wire \<and> cipher_open E wire a = (Ok (exec_build_request sid []), a') \<and>
    events c' = events c @ [ChannelOpened cid]"
proof -
  have "pending_command c cid = []" using none by (simp add: pending_command_def)
  then show ?thesis using exec_confirmed [OF E a ch su, of sid w p] by fastforce
qed

theorem repeated_confirmation_runs_nothing_witness:
  "\<exists>c'. dispatch toy_crates MSG_CHANNEL_OPEN_CONFIRMATION (MSG_CHANNEL_OPEN_CONFIRMATION # write_u32 0 @
      write_u32 7 @ write_u32 100 @ write_u32 100)
      ((engine_new (0 :: nat))\<lparr>cs_cipher := Some \<lparr>pc_alg = ChaCha20Poly1305OpenSsh, pc_keys = KeysChaCha [1] [2],
         pc_seq = 3\<rparr>, channels := snd (table_open Exec table_new),
       channel_setup := [0 \<mapsto> AwaitingExecReply]\<rparr>) = (Ok (), c') \<and>
    events c' = [ChannelOpened 0]"
proof -
  let ?a = "\<lparr>pc_alg = ChaCha20Poly1305OpenSsh, pc_keys = KeysChaCha [1] [2], pc_seq = 3\<rparr>"
  let ?c = "(engine_new (0 :: nat))\<lparr>cs_cipher := Some ?a, channels := snd (table_open Exec table_new),
       channel_setup := [0 \<mapsto> AwaitingExecReply]\<rparr>"
  have "cs_cipher ?c = Some ?a" "ct_channels (channels ?c) 0 = Some (channel_new 0 Exec)"
    "channel_setup ?c 0 = Some AwaitingExecReply" "pending_exec ?c 0 = None" "events ?c = []"
    by (simp_all add: table_open_def table_new_def engine_new_def Let_def)
  with repeated_confirmation_runs_nothing [OF toy_ciphers_ok this(1-4), of 7 100 100] show ?thesis by auto
qed

end
