(* ===== verification/Simulation.thy ===== *)
theory Simulation
  imports Main
begin

text \<open>
  Labelled step relations, their runs, and the interface between a system and what it promises: a
  locale whose laws are that every step of the system keeps an invariant and is a step of the
  abstract system with the same label.
\<close>

inductive lts_runs :: "('s \<Rightarrow> 'l \<Rightarrow> 's \<Rightarrow> bool) \<Rightarrow> 's \<Rightarrow> 'l list \<Rightarrow> 's \<Rightarrow> bool"
  for step :: "'s \<Rightarrow> 'l \<Rightarrow> 's \<Rightarrow> bool" and s0 :: 's where
  stop: "lts_runs step s0 [] s0"
| step: "lts_runs step s0 ls s \<Longrightarrow> step s l s' \<Longrightarrow> lts_runs step s0 (ls @ [l]) s'"

lemma lts_runs_one: "step s l s' \<Longrightarrow> lts_runs step s [l] s'"
  using lts_runs.step [OF lts_runs.stop] by fastforce

lemma lts_runs_append:
  "lts_runs step s ls s' \<Longrightarrow> lts_runs step s' ms s'' \<Longrightarrow> lts_runs step s (ls @ ms) s''"
  by (rotate_tac, induction rule: lts_runs.induct)
    (simp_all flip: append_assoc add: lts_runs.step)

locale simulation =
  fixes conc :: "'s \<Rightarrow> 'l \<Rightarrow> 's \<Rightarrow> bool"
    and abst :: "'a \<Rightarrow> 'l \<Rightarrow> 'a \<Rightarrow> bool"
    and view :: "'s \<Rightarrow> 'a"
    and good :: "'s \<Rightarrow> bool"
  assumes keeps_good: "good s \<Longrightarrow> conc s l s' \<Longrightarrow> good s'"
    and simulates: "good s \<Longrightarrow> conc s l s' \<Longrightarrow> abst (view s) l (view s')"
begin

lemma run_keeps_good: "lts_runs conc s ls s' \<Longrightarrow> good s \<Longrightarrow> good s'"
  by (induction rule: lts_runs.induct) (auto intro: keeps_good)

lemma run_refines:
  "lts_runs conc s ls s' \<Longrightarrow> good s \<Longrightarrow> lts_runs abst (view s) ls (view s')"
proof (induction rule: lts_runs.induct)
  case (step ls s' l s'')
  then show ?case
    using run_keeps_good simulates by (blast intro: lts_runs.step)
qed (rule lts_runs.stop)

end

end
