(* ===== verification/Flow_Control.thy ===== *)
theory Flow_Control
  imports Connection Simulation
begin

text \<open>
  The two halves of the flow control against each other: two channel tables, each with its end of
  one channel, run the code's own operations (\<open>build_data_messages\<close> through \<open>channel_mut\<close>, and
  \<open>table_handle\<close> for what arrives), and the messages each sends wait in order for the other. The
  program only ever is the client, with a server whose accounting is its own; here the peer is
  one that follows the same rules, so that the sending half and the receiving half meet. The
  abstract specification is a pair of byte queues.
\<close>

datatype side = Near | Far

fun peer :: "side \<Rightarrow> side" where
  "peer Near = Far"
| "peer Far = Near"

record flow =
  chan_id :: "side \<Rightarrow> u32"
  table :: "side \<Rightarrow> channel_table"
  sent :: "side \<Rightarrow> bytes list"

text \<open>What a host sees: the bytes a call accepts, and the bytes a message reports.\<close>

datatype flow_label = Accepted side bytes | Reported side bytes

definition flow_send :: "side \<Rightarrow> bytes \<Rightarrow> flow \<Rightarrow> (nat \<times> flow) option" where
  "flow_send s data f =
     (case channel_mut (chan_id f s) (build_data_messages data) (table f s) of
        (Ok (n, ms), t) \<Rightarrow>
          Some (n, f\<lparr>table := (table f)(s := t), sent := (sent f)(s := sent f s @ ms)\<rparr>)
      | _ \<Rightarrow> None)"

definition event_bytes :: "event \<Rightarrow> bytes" where
  "event_bytes e = (case e of ChannelData cid stream d \<Rightarrow> d | _ \<Rightarrow> [])"

text \<open>The message at the head of what the peer has sent is handled by its first byte.\<close>

definition flow_deliver :: "side \<Rightarrow> flow \<Rightarrow> (event list \<times> flow) option" where
  "flow_deliver s f =
     (case sent f (peer s) of
        [] \<Rightarrow> None
      | m # rest \<Rightarrow>
          (case table_handle (hd m) m (table f s) of
             (Ok (evs, out), t) \<Rightarrow>
               Some (evs, f\<lparr>table := (table f)(s := t),
                            sent := (sent f)(peer s := rest, s := sent f s @ out)\<rparr>)
           | _ \<Rightarrow> None))"

inductive flow_step :: "flow \<Rightarrow> flow_label \<Rightarrow> flow \<Rightarrow> bool" where
  send: "flow_send s data f = Some (n, f') \<Longrightarrow> flow_step f (Accepted s (take n data)) f'"
| deliver: "flow_deliver s f = Some (evs, f') \<Longrightarrow>
    flow_step f (Reported s (concat (map event_bytes evs))) f'"

text \<open>
  Both ends open a channel in a table of their own, with whatever else is in it, and each is told
  the other's identifier, with the window and the packet limit that its open message announces.
\<close>

definition flow_start :: "(side \<Rightarrow> channel_kind) \<Rightarrow> (side \<Rightarrow> channel_table) \<Rightarrow> flow" where
  "flow_start k T =
     \<lparr>chan_id = (\<lambda>s. ct_next_id (T s)),
      table = (\<lambda>s. snd (table_handle MSG_CHANNEL_OPEN_CONFIRMATION
        (MSG_CHANNEL_OPEN_CONFIRMATION # write_u32 (ct_next_id (T s)) @ write_u32 (ct_next_id (T (peer s))) @
         write_u32 INITIAL_WINDOW_SIZE @ write_u32 MAX_PACKET_SIZE)
        (snd (table_open (k s) (T s))))),
      sent = (\<lambda>_. [])\<rparr>"

definition flow_reachable :: "flow \<Rightarrow> bool" where
  "flow_reachable f \<longleftrightarrow> (\<exists>k T ls. lts_runs flow_step (flow_start k T) ls f)"

section \<open>The specification: two byte queues\<close>

type_synonym queues = "side \<Rightarrow> bytes"

inductive queue_step :: "queues \<Rightarrow> flow_label \<Rightarrow> queues \<Rightarrow> bool" where
  accept: "queue_step q (Accepted s d) (q(s := q s @ d))"
| report: "q (peer s) = d @ rest \<Longrightarrow> queue_step q (Reported s d) (q(peer s := rest))"

definition data_of :: "bytes \<Rightarrow> bytes" where
  "data_of m = (if m \<noteq> [] \<and> hd m = MSG_CHANNEL_DATA then drop 9 m else [])"

text \<open>The bytes a side has sent and its peer has not yet reported.\<close>

definition in_flight :: "flow \<Rightarrow> queues" where
  "in_flight f s = concat (map data_of (sent f s))"

primrec accepted :: "side \<Rightarrow> flow_label list \<Rightarrow> bytes" where
  "accepted s [] = []"
| "accepted s (l # ls) =
     (case l of Accepted t d \<Rightarrow> if t = s then d else [] | Reported t d \<Rightarrow> []) @ accepted s ls"

primrec reported :: "side \<Rightarrow> flow_label list \<Rightarrow> bytes" where
  "reported s [] = []"
| "reported s (l # ls) =
     (case l of Reported t d \<Rightarrow> if t = s then d else [] | Accepted t d \<Rightarrow> []) @ reported s ls"

lemma side_simps [simp]: "peer (peer s) = s" "peer s \<noteq> s" "s \<noteq> peer s"
  by (cases s; simp)+

lemma all_sides: "(\<forall>s. P s) \<longleftrightarrow> P t \<and> P (peer t)"
  by (metis peer.cases peer.simps)

lemma accepted_append [simp]: "accepted s (ls @ ms) = accepted s ls @ accepted s ms"
  by (induction ls) simp_all

lemma reported_append [simp]: "reported s (ls @ ms) = reported s ls @ reported s ms"
  by (induction ls) simp_all

text \<open>What the specification means: what was accepted is what was reported, and then the queue.\<close>

inductive_cases queue_stepE: "queue_step q l q'"

lemma queues_are_fifo:
  "lts_runs queue_step q ls q' \<Longrightarrow> q s @ accepted s ls = reported (peer s) ls @ q' s"
proof (induction rule: lts_runs.induct)
  case (step ls q' l q'')
  from step(2,3) show ?case
    by (auto elim!: queue_stepE simp flip: append_assoc)
qed simp

section \<open>The invariant\<close>

datatype message = Data bytes | Adjust u32

fun encode :: "u32 \<Rightarrow> message \<Rightarrow> bytes" where
  "encode rid (Data d) = data_message rid d"
| "encode rid (Adjust n) = MSG_CHANNEL_WINDOW_ADJUST # write_u32 rid @ write_u32 n"

fun payload :: "message \<Rightarrow> bytes" where
  "payload (Data d) = d"
| "payload (Adjust n) = []"

fun grant :: "message \<Rightarrow> nat" where
  "grant (Data d) = 0"
| "grant (Adjust n) = unat n"

abbreviation data_total :: "message list \<Rightarrow> nat" where
  "data_total ms \<equiv> length (concat (map payload ms))"

abbreviation grant_total :: "message list \<Rightarrow> nat" where
  "grant_total ms \<equiv> sum_list (map grant ms)"

text \<open>
  The law of conservation: what a side may still receive is what its peer may still send, plus the
  bytes on the way to it, plus the window it has announced and the peer has not yet seen.
\<close>

definition flow_inv :: "flow \<Rightarrow> (side \<Rightarrow> channel) \<Rightarrow> (side \<Rightarrow> message list) \<Rightarrow> bool" where
  "flow_inv f ch ms \<longleftrightarrow> (\<forall>s.
     ct_channels (table f s) (chan_id f s) = Some (ch s) \<and>
     remote_id (ch s) = Some (chan_id f (peer s)) \<and> 0 < remote_max_packet (ch s) \<and>
     sent f s = map (encode (chan_id f (peer s))) (ms s) \<and>
     unat (local_window_unadvertised (ch s)) < 1048576 \<and>
     unat (local_window (ch s)) + unat (local_window_unadvertised (ch s)) = 2097152 \<and>
     unat (local_window (ch s)) =
       unat (remote_window (ch (peer s))) + data_total (ms (peer s)) + grant_total (ms s))"

definition flow_ok :: "flow \<Rightarrow> bool" where
  "flow_ok f \<longleftrightarrow> (\<exists>ch ms. flow_inv f ch ms)"

lemma flow_invD:
  assumes "flow_inv f ch ms"
  shows "ct_channels (table f s) (chan_id f s) = Some (ch s)"
    "remote_id (ch s) = Some (chan_id f (peer s))" "0 < remote_max_packet (ch s)"
    "sent f s = map (encode (chan_id f (peer s))) (ms s)"
    "unat (local_window_unadvertised (ch s)) < 1048576"
    "unat (local_window (ch s)) + unat (local_window_unadvertised (ch s)) = 2097152"
    "unat (local_window (ch s)) =
       unat (remote_window (ch (peer s))) + data_total (ms (peer s)) + grant_total (ms s)"
  using assms unfolding flow_inv_def by blast+

lemma data_of_encode [simp]: "data_of (encode rid m) = payload m"
  by (cases m) (simp_all add: data_of_def data_message_def write_string_def channel_msg_defs)

lemma in_flight_inv: "flow_inv f ch ms \<Longrightarrow> in_flight f s = concat (map payload (ms s))"
  by (simp add: in_flight_def flow_invD comp_def)

lemma flow_start_ok: "flow_ok (flow_start k T)"
proof -
  let ?ch = "\<lambda>s. on_open_confirmation (ct_next_id (T (peer s))) INITIAL_WINDOW_SIZE MAX_PACKET_SIZE
    (channel_new (ct_next_id (T s)) (k s))"
  have "ct_channels (snd (table_open (k s) (T s))) (ct_next_id (T s)) =
      Some (channel_new (ct_next_id (T s)) (k s))" for s
    by (simp add: table_open_def Let_def)
  from confirmation_effect [OF this, where rest = "[]"]
  have "flow_inv (flow_start k T) ?ch (\<lambda>_. [])"
    by (simp add: flow_inv_def flow_start_def on_open_confirmation_def channel_new_def
        window_constants MAX_PACKET_SIZE_def)
  then show ?thesis unfolding flow_ok_def by blast
qed

section \<open>Sending\<close>

lemma flow_send_effect:
  assumes "flow_inv f ch ms"
  shows "\<exists>chunks f'. flow_send s data f = Some (length (concat chunks), f') \<and>
    concat chunks = take (unat (remote_window (ch s))) data \<and>
    flow_inv f' (ch(s := (ch s)\<lparr>remote_window := remote_window (ch s) - word_of_nat (length (concat chunks))\<rparr>))
      (ms(s := ms s @ map Data chunks))"
proof -
  note inv = flow_invD [OF assms]
  obtain chunks where b: "build_data_messages data (ch s) =
      (Ok (length (concat chunks), map (data_message (chan_id f (peer s))) chunks),
       (ch s)\<lparr>remote_window := remote_window (ch s) - word_of_nat (length (concat chunks))\<rparr>)"
    and cc: "concat chunks = take (unat (remote_window (ch s))) data"
    using data_loop_spec [OF inv(2,3) [of s], of 0 data "[]"] by (auto simp: build_data_messages_def)
  have le: "length (concat chunks) \<le> unat (remote_window (ch s))" using cc by simp
  then have w: "unat (remote_window (ch s) - word_of_nat (length (concat chunks))) =
      unat (remote_window (ch s)) - length (concat chunks)"
    using le_less_trans [OF le unat_u32_less]
    by (subst unat_sub) (simp_all add: word_le_nat_alt unat_of_nat)
  have p: "concat (map payload (map Data chunks)) = concat chunks"
    "grant_total (map Data chunks) = 0"
    by (induction chunks) simp_all
  show ?thesis
    using assms b cc le w p
    by (intro exI [of _ chunks])
      (auto simp: flow_send_def channel_mut_def flow_inv_def all_sides [of _ s] comp_def
        simp del: length_concat)
qed

section \<open>Delivery\<close>

lemma deliver_data:
  assumes i: "flow_inv f ch ms" and m: "ms (peer s) = Data d # rest"
  shows "\<exists>ch' out f'. flow_deliver s f = Some ([ChannelData (chan_id f s) Stdout d], f') \<and>
    flow_inv f' (ch(s := ch')) (ms(peer s := rest, s := ms s @ out)) \<and>
    (out = [] \<or> (\<exists>n. out = [Adjust n]))"
proof -
  note inv = flow_invD [OF i]
  let ?n = "length d"
  have le: "?n \<le> unat (local_window (ch s))" using inv(7) [of s] m by simp
  then have small: "?n \<le> 2097152" using inv(6) [of s] by linarith
  have fits: "fits_u32 d" using small by (simp add: fits_u32_def)
  have un: "unat (word_of_nat ?n :: u32) = ?n" using small by (simp add: unat_of_nat)
  obtain adjust ch' where d: "on_data_consumed (word_of_nat ?n) (ch s) = (Ok adjust, ch')"
    and h: "table_handle MSG_CHANNEL_DATA (data_message (chan_id f s) d) (table f s) =
      (Ok (data_reaction (chan_id f s) Stdout d adjust),
       (table f s)\<lparr>ct_channels := (ct_channels (table f s))(chan_id f s \<mapsto> ch')\<rparr>)"
    using data_effect [OF inv(1) [of s] inv(2) [of s] fits, where rest = "[]"]
    by (auto simp: data_message_def)
  note spec = on_data_consumed_in_window [OF inv(2) [of s], of "word_of_nat ?n", unfolded un]
  define out where "out = (case adjust of Some _ \<Rightarrow>
    [Adjust (local_window_unadvertised (ch s) + word_of_nat ?n)] | None \<Rightarrow> [])"
  have in_window: "unat (local_window (ch s)) + unat (local_window_unadvertised (ch s)) < 4294967296"
    using inv(6) [of s] by simp
  note spec = spec [OF le in_window]
  have out: "(case adjust of Some m \<Rightarrow> [m] | None \<Rightarrow> []) = map (encode (chan_id f (peer s))) out"
    using d spec(1) by (auto simp: out_def split: if_splits)
  let ?f = "f\<lparr>table := (table f)(s := (table f s)\<lparr>ct_channels := (ct_channels (table f s))(chan_id f s \<mapsto> ch')\<rparr>),
      sent := (sent f)(peer s := map (encode (chan_id f s)) rest,
                       s := sent f s @ map (encode (chan_id f (peer s))) out)\<rparr>"
  have head: "sent f (peer s) = data_message (chan_id f s) d # map (encode (chan_id f s)) rest"
    using inv(4) [of "peer s"] m by simp
  have "flow_deliver s f = Some ([ChannelData (chan_id f s) Stdout d], ?f)"
    using h out by (simp add: flow_deliver_def head data_reaction_def)
      (simp add: data_message_def)
  moreover have "flow_inv ?f (ch(s := ch')) (ms(peer s := rest, s := ms s @ out))"
  proof (cases "local_window_unadvertised (ch s) + word_of_nat ?n < WINDOW_ADJUST_THRESHOLD")
    case True
    then have "ch' = (ch s)\<lparr>local_window := local_window (ch s) - word_of_nat ?n,
        local_window_unadvertised := local_window_unadvertised (ch s) + word_of_nat ?n\<rparr>" "out = []"
      using d spec(1) by (auto simp: out_def)
    then show ?thesis
      using i m le True spec(2,3)
      by (simp add: flow_inv_def all_sides [of _ s] window_constants word_less_nat_alt)
  next
    case False
    then have "ch' = (ch s)\<lparr>local_window := local_window (ch s) + local_window_unadvertised (ch s),
        local_window_unadvertised := 0\<rparr>"
      "out = [Adjust (local_window_unadvertised (ch s) + word_of_nat ?n)]"
      using d spec(1) by (auto simp: out_def)
    then show ?thesis
      using i m le spec(2,4) by (simp add: flow_inv_def all_sides [of _ s])
  qed
  moreover have "out = [] \<or> (\<exists>n. out = [Adjust n])"
    by (simp add: out_def split: option.split)
  ultimately show ?thesis by blast
qed

lemma deliver_adjust:
  assumes i: "flow_inv f ch ms" and m: "ms (peer s) = Adjust n # rest"
  shows "\<exists>f'. flow_deliver s f = Some ([], f') \<and>
    flow_inv f' (ch(s := on_window_adjust n (ch s))) (ms(peer s := rest))"
proof -
  note inv = flow_invD [OF i]
  let ?f = "f\<lparr>table := (table f)(s := (table f s)\<lparr>ct_channels :=
        (ct_channels (table f s))(chan_id f s \<mapsto> on_window_adjust n (ch s))\<rparr>),
      sent := (sent f)(peer s := map (encode (chan_id f s)) rest, s := sent f s @ [])\<rparr>"
  have head: "sent f (peer s) = (MSG_CHANNEL_WINDOW_ADJUST # write_u32 (chan_id f s) @ write_u32 n) #
      map (encode (chan_id f s)) rest"
    using inv(4) [of "peer s"] m by simp
  have "flow_deliver s f = Some ([], ?f)"
    using adjust_effect [OF inv(1) [of s], of n "[]"] by (simp add: flow_deliver_def head)
  moreover have "unat (saturating_add (remote_window (ch s)) n) = unat (remote_window (ch s)) + unat n"
    using inv(6,7) [of "peer s"] m by (simp add: unat_saturating_add)
  then have "flow_inv ?f (ch(s := on_window_adjust n (ch s))) (ms(peer s := rest))"
    using i m by (simp add: flow_inv_def all_sides [of _ s] on_window_adjust_def)
  ultimately show ?thesis by blast
qed

text \<open>
  Both kinds of message together: whatever is first on the way is handled without an error. The
  \<open>cost\<close> of what is on the way falls: data may be answered by an adjustment, which is not answered.
\<close>

fun cost :: "message \<Rightarrow> nat" where
  "cost (Data d) = 2"
| "cost (Adjust n) = 1"

abbreviation cost_total :: "message list \<Rightarrow> nat" where
  "cost_total ms \<equiv> sum_list (map cost ms)"

lemma deliver_effect:
  assumes i: "flow_inv f ch ms" and m: "ms (peer s) = x # rest"
  shows "\<exists>evs f' ch' out. flow_deliver s f = Some (evs, f') \<and>
    concat (map event_bytes evs) = payload x \<and>
    flow_inv f' ch' (ms(peer s := rest, s := ms s @ out)) \<and>
    concat (map payload out) = [] \<and> cost_total out < cost x"
proof (cases x)
  case (Data d)
  from deliver_data [OF i m [unfolded Data]] obtain ch' out f' where
    "flow_deliver s f = Some ([ChannelData (chan_id f s) Stdout d], f')"
    "flow_inv f' (ch(s := ch')) (ms(peer s := rest, s := ms s @ out))"
    "out = [] \<or> (\<exists>n. out = [Adjust n])"
    by blast
  then show ?thesis using Data
    by (intro exI [of _ "[ChannelData (chan_id f s) Stdout d]"] exI [of _ f'] exI [of _ "ch(s := ch')"]
        exI [of _ out]) (auto simp: event_bytes_def)
next
  case (Adjust n)
  from deliver_adjust [OF i m [unfolded Adjust]] obtain f' where
    d: "flow_deliver s f = Some ([], f')"
    and "flow_inv f' (ch(s := on_window_adjust n (ch s))) (ms(peer s := rest))"
    by blast
  moreover have "ms(peer s := rest) = ms(peer s := rest, s := ms s @ [])" by (simp add: fun_upd_idem)
  ultimately have "flow_inv f' (ch(s := on_window_adjust n (ch s))) (ms(peer s := rest, s := ms s @ []))"
    by simp
  with d show ?thesis using Adjust
    by (intro exI [of _ "[]"] exI [of _ f'] exI [of _ "ch(s := on_window_adjust n (ch s))"]) simp
qed

section \<open>The two ends are two queues\<close>

lemma flow_step_effect:
  assumes "flow_ok f" and "flow_step f l f'"
  shows "flow_ok f' \<and> queue_step (in_flight f) l (in_flight f')"
proof -
  obtain ch ms where i: "flow_inv f ch ms" using assms(1) by (auto simp: flow_ok_def)
  from assms(2) show ?thesis
  proof cases
    case (send s data n)
    from flow_send_effect [OF i, of s data] send(2) obtain chunks ch' where
      n: "n = length (concat chunks)" and c: "concat chunks = take (unat (remote_window (ch s))) data"
      and i': "flow_inv f' ch' (ms(s := ms s @ map Data chunks))"
      by (auto simp del: length_concat)
    have "take n data = concat chunks" unfolding n c by (simp add: min_def)
    moreover have "in_flight f' = (in_flight f)(s := in_flight f s @ concat chunks)"
      by (rule ext) (simp add: in_flight_inv [OF i] in_flight_inv [OF i'] comp_def)
    ultimately show ?thesis using send(1) i' by (auto simp: flow_ok_def queue_step.accept)
  next
    case (deliver s evs)
    then have "ms (peer s) \<noteq> []"
      using flow_invD(4) [OF i, of "peer s"] by (auto simp: flow_deliver_def)
    then obtain x rest where m: "ms (peer s) = x # rest" by (cases "ms (peer s)") auto
    from deliver_effect [OF i m] deliver(2) obtain ch' out where
      e: "concat (map event_bytes evs) = payload x"
      and i': "flow_inv f' ch' (ms(peer s := rest, s := ms s @ out))"
      and o: "concat (map payload out) = []"
      by auto
    have "in_flight f' = (in_flight f)(peer s := concat (map payload rest))"
      using o by (intro ext) (simp add: in_flight_inv [OF i] in_flight_inv [OF i'])
    moreover have "in_flight f (peer s) = payload x @ concat (map payload rest)"
      using m by (simp add: in_flight_inv [OF i])
    ultimately show ?thesis using deliver(1) e i' by (auto simp: flow_ok_def queue_step.report)
  qed
qed

interpretation ends: simulation flow_step queue_step in_flight flow_ok
  by unfold_locales (simp_all add: flow_step_effect)

lemma flow_reachable_ok: "flow_reachable f \<Longrightarrow> flow_ok f"
  using ends.run_keeps_good flow_start_ok by (auto simp: flow_reachable_def)

section \<open>Nothing gets stuck\<close>

lemma flow_drains:
  assumes "flow_inv f ch ms"
  shows "\<exists>ls f' ch'. lts_runs flow_step f ls f' \<and> flow_inv f' ch' (\<lambda>_. []) \<and> (\<forall>s. accepted s ls = [])"
  using assms
proof (induction "cost_total (ms Near) + cost_total (ms Far)" arbitrary: f ch ms rule: less_induct)
  case less
  show ?case
  proof (cases "\<exists>s. ms (peer s) \<noteq> []")
    case True
    then obtain s x rest where m: "ms (peer s) = x # rest" by (meson list.exhaust)
    from deliver_effect [OF less(2) m] obtain evs f1 ch1 out where
      d: "flow_deliver s f = Some (evs, f1)"
      and i1: "flow_inv f1 ch1 (ms(peer s := rest, s := ms s @ out))"
      and c: "cost_total out < cost x"
      by blast
    have "cost_total ((ms(peer s := rest, s := ms s @ out)) Near) +
        cost_total ((ms(peer s := rest, s := ms s @ out)) Far) <
        cost_total (ms Near) + cost_total (ms Far)"
      using m c by (cases s) simp_all
    from less(1) [OF this i1] obtain ls f' ch' where
      r: "lts_runs flow_step f1 ls f'" "flow_inv f' ch' (\<lambda>_. [])" "\<forall>s. accepted s ls = []"
      by blast
    from lts_runs_append [OF lts_runs_one [where step = flow_step, OF flow_step.deliver [OF d]] r(1)] r(2,3)
    show ?thesis by fastforce
  next
    case False
    then have "ms = (\<lambda>_. [])" by (metis side_simps(1))
    then show ?thesis using less(2) lts_runs.stop [of flow_step f] by (metis accepted.simps(1))
  qed
qed

text \<open>With nothing on the way, the sender's window is what the receiver has not held back.\<close>

lemma idle_window:
  assumes "flow_inv f ch (\<lambda>_. [])"
  shows "1048576 < unat (remote_window (ch s))"
  using flow_invD(5,6,7) [OF assms, of "peer s"] by simp

lemma flow_carries:
  assumes "flow_ok f"
  shows "\<exists>ls f'. lts_runs flow_step f ls f' \<and> accepted s ls = data \<and> accepted (peer s) ls = [] \<and>
    (\<forall>t. sent f' t = [])"
  using assms
proof (induction "length data" arbitrary: f data rule: less_induct)
  case less
  obtain ch ms where "flow_inv f ch ms" using less(2) by (auto simp: flow_ok_def)
  then obtain ls f1 ch1 where r: "lts_runs flow_step f ls f1" and i1: "flow_inv f1 ch1 (\<lambda>_. [])"
    and a: "accepted t ls = []" for t
    using flow_drains by blast
  show ?case
  proof (cases "data = []")
    case True
    then show ?thesis using r a flow_invD(4) [OF i1] by auto
  next
    case False
    from flow_send_effect [OF i1, of s data] obtain chunks f2 ch2 ms2 where
      snd: "flow_send s data f1 = Some (length (concat chunks), f2)"
      and c: "concat chunks = take (unat (remote_window (ch1 s))) data" and i2: "flow_inv f2 ch2 ms2"
      by blast
    let ?n = "length (concat chunks)"
    have n: "0 < ?n" using c idle_window [OF i1, of s] False by simp
    then have "length (drop ?n data) < length data" using False by simp
    moreover have "flow_ok f2" using i2 by (auto simp: flow_ok_def)
    ultimately obtain ms f' where m: "lts_runs flow_step f2 ms f'" "accepted s ms = drop ?n data"
      "accepted (peer s) ms = []" "\<forall>t. sent f' t = []"
      using less(1) by blast
    have "lts_runs flow_step f (ls @ [Accepted s (take ?n data)] @ ms) f'"
      by (intro lts_runs_append [OF r] lts_runs_append [OF lts_runs_one [where step = flow_step, OF flow_step.send [OF snd]] m(1)])
    then show ?thesis using m a
      by (intro exI [of _ "ls @ [Accepted s (take ?n data)] @ ms"] exI [of _ f'])
        (simp del: length_concat)
  qed
qed

section \<open>The properties\<close>

text \<open>
  C5: Two ends that run the code on a channel are two byte queues: whatever they send and whenever
  the messages are handled, every run is a run of the queues, so a side reports exactly the bytes
  the other's calls accepted, in order, without loss, repetition or invention, up to those on the way.
  And no window is ever overrun: what a side may still send and what it has on the way always fits
  the peer's window, and window and held-back bytes together are the initial window.
\<close>

theorem channel_is_a_byte_queue:
  assumes "lts_runs flow_step (flow_start k T) ls f"
  shows "lts_runs queue_step (\<lambda>_. []) ls (in_flight f) \<and>
    accepted s ls = reported (peer s) ls @ in_flight f s \<and>
    (\<exists>out inp. table_get (table f s) (chan_id f s) = Some out \<and>
       table_get (table f (peer s)) (chan_id f (peer s)) = Some inp \<and>
       unat (remote_window out) + length (in_flight f s) \<le> unat (local_window inp) \<and>
       local_window_unadvertised inp < WINDOW_ADJUST_THRESHOLD \<and>
       unat (local_window inp) + unat (local_window_unadvertised inp) = unat INITIAL_WINDOW_SIZE)"
proof -
  have q: "in_flight (flow_start k T) = (\<lambda>_. [])"
    by (rule ext) (simp add: in_flight_def flow_start_def)
  have r: "lts_runs queue_step (\<lambda>_. []) ls (in_flight f)"
    using ends.run_refines [OF assms flow_start_ok] by (simp add: q)
  obtain ch ms where i: "flow_inv f ch ms"
    using ends.run_keeps_good [OF assms flow_start_ok] by (auto simp: flow_ok_def)
  from flow_invD [OF i, of "peer s"] flow_invD(1) [OF i, of s] r queues_are_fifo [OF r, of s]
  show ?thesis
    by (simp add: table_get_def in_flight_inv [OF i] window_constants word_less_nat_alt)
qed

text \<open>Two new tables, a call that sends three bytes, and their delivery.\<close>

lemma three_bytes_run:
  "\<exists>ls f. lts_runs flow_step (flow_start (\<lambda>_. Exec) (\<lambda>_. table_new)) ls f \<and>
     accepted Near ls = [1, 2, 3] \<and> (\<forall>t. sent f t = [])"
  using flow_carries [OF flow_start_ok] by blast

theorem channel_is_a_byte_queue_witness:
  "\<exists>ls f. lts_runs flow_step (flow_start (\<lambda>_. Exec) (\<lambda>_. table_new)) ls f \<and>
     reported Far ls = [1, 2, 3]"
proof -
  obtain ls f where r: "lts_runs flow_step (flow_start (\<lambda>_. Exec) (\<lambda>_. table_new)) ls f"
    "accepted Near ls = [1, 2, 3]" "\<forall>t. sent f t = []"
    using three_bytes_run by blast
  from channel_is_a_byte_queue [OF r(1), of Near] r(2,3) have "reported Far ls = [1, 2, 3]"
    by (simp add: in_flight_def)
  with r(1) show ?thesis by blast
qed

text \<open>
  C6: The two ends never get stuck: in every state they can reach, a message on the way is handled
  without an error or a panic, and whatever a side wants to send, however much longer than
  the window, there is a way to go on in which all of it is accepted, and it and everything on the
  way before it is reported to the peer, with nothing left on the way.
\<close>

theorem channel_never_gets_stuck:
  assumes "flow_reachable f"
  shows "(sent f (peer s) \<noteq> [] \<longrightarrow> flow_deliver s f \<noteq> None) \<and> flow_send s data f \<noteq> None \<and>
    (\<exists>ls f'. lts_runs flow_step f ls f' \<and> accepted s ls = data \<and> accepted (peer s) ls = [] \<and>
       reported (peer s) ls = in_flight f s @ data \<and> reported s ls = in_flight f (peer s) \<and>
       (\<forall>t. sent f' t = []))"
proof -
  obtain ch ms where i: "flow_inv f ch ms"
    using flow_reachable_ok [OF assms] by (auto simp: flow_ok_def)
  have "flow_deliver s f \<noteq> None" if ne: "sent f (peer s) \<noteq> []"
  proof -
    obtain x rest where "ms (peer s) = x # rest"
      using ne flow_invD(4) [OF i, of "peer s"] by (cases "ms (peer s)") auto
    from deliver_effect [OF i this] show ?thesis by auto
  qed
  moreover have "flow_send s data f \<noteq> None" using flow_send_effect [OF i, of s data] by auto
  moreover obtain ls f' where c: "lts_runs flow_step f ls f'" "accepted s ls = data"
    "accepted (peer s) ls = []" "\<forall>t. sent f' t = []"
    using flow_carries [OF flow_reachable_ok [OF assms]] by blast
  have "in_flight f' t = []" for t using c(4) by (simp add: in_flight_def)
  with queues_are_fifo [OF ends.run_refines [OF c(1) flow_reachable_ok [OF assms]]] c
  have "reported (peer s) ls = in_flight f s @ data" "reported s ls = in_flight f (peer s)"
    by (metis append_Nil2 side_simps(1))+
  with c show ?thesis using calculation by blast
qed

theorem channel_never_gets_stuck_witness:
  "\<exists>ls f'. lts_runs flow_step (flow_start (\<lambda>_. Shell) (\<lambda>_. table_new)) ls f' \<and>
     reported Near ls = replicate 3000000 7"
proof -
  let ?f = "flow_start (\<lambda>_. Shell) (\<lambda>_. table_new)"
  have "flow_reachable ?f" using lts_runs.stop [of flow_step] by (auto simp: flow_reachable_def)
  moreover have "in_flight ?f Far = []" by (simp add: in_flight_def flow_start_def)
  ultimately show ?thesis
    using channel_never_gets_stuck [of ?f Far "replicate 3000000 7"] by fastforce
qed

end
