(* ===== verification/Transport_Properties.thy ===== *)
theory Transport_Properties
  imports Session_Safety Sample_Run
begin

text \<open>
  The properties of the transport layer: packets, ciphers and their nonces, KEXINIT, negotiation,
  the key exchanges and the key derivation, each with a run on the sample crates.
\<close>

section \<open>The identification exchange\<close>

text \<open>
  C31: The identification exchange, which looks at one byte at a time, does what it should do with
  the whole stream at hand: it skips the lines before the first that starts with \<open>SSH-\<close>, consumes
  the bytes up to that line's feed and not one more, accepts or refuses the version in it, and
  gives up exactly when those bytes, or the bytes seen without such a line, are more than 64 KiB.
  It never holds more than 64 KiB of an unfinished line.
\<close>

theorem identification_is_one_scan:
  "ident_outcome (ident_feed data ident_new) = ident_scan data \<and>
   length (scan_buf (snd (ident_feed data ident_new))) \<le> MAX_SCAN_BYTES"
  by (simp add: ident_feed_scans ident_feed_bounded)

section \<open>Packets\<close>

text \<open>
  C32: A stream of packets sealed by one end of an encrypted direction, of any payloads that fit
  a packet (with 20 bytes for its own fields and padding at most 256 KiB, the longest packet a
  receiver takes) and whatever follows, is taken apart by the other end into exactly those
  payloads, and leaves both ends with the same keys, nonce and sequence number. No packet is split,
  merged or lost.
\<close>
theorem sealed_stream_round_trip:
  assumes "ciphers_ok E" and "\<forall>p \<in> set ps. payload_fits p"
  shows "\<exists>w c' r'. send_many (cipher_seal E) ps (c, r) = (Ok w, (c', r')) \<and>
    (\<forall>rest. recv_many (peek_total_length E) (cipher_open E) (length ps) (w @ rest) c =
       (Ok (ps, rest), c'))"
proof -
  have "same_cipher E (c, r) c" using assms(1) by (simp add: same_cipher_def)
  from sealed.stream [OF this assms(2)] obtain w s' c' where "send_many (cipher_seal E) ps (c, r) = (Ok w, s')"
    "\<forall>rest. recv_many (peek_total_length E) (cipher_open E) (length ps) (w @ rest) c = (Ok (ps, rest), c')"
    "same_cipher E s' c'" by blast
  then show ?thesis by (intro exI [of _ w] exI [of _ c'] exI [of _ "snd s'"]) (auto simp: same_cipher_def)
qed

theorem sealed_stream_round_trip_witness:
  "\<exists>w c' r'. send_many (cipher_seal toy_crates) [[94, 1], [96]]
      (\<lparr>pc_alg = ChaCha20Poly1305OpenSsh, pc_keys = KeysChaCha [1] [2], pc_seq = 3\<rparr>, 0) = (Ok w, (c', r'))"
  using sealed_stream_round_trip [OF toy_ciphers_ok, of "[[94, 1], [96]]"]
  by (simp add: payload_fits_def MAX_PACKET_LENGTH_def) blast

text \<open>
  C33: The shape of a plaintext packet: the length field, the padding length, the payload and 4 to
  11 bytes of padding, a multiple of 8 in all, never less than 16 bytes; the length field is read
  back as the packet's size, and the payload as it was.
\<close>
theorem plaintext_packet_shape:
  assumes "payload_fits p" and "seal_plaintext (fill_buf E) p r = (wire, r')"
  shows "length wire mod 8 = 0 \<and> 16 \<le> length wire \<and>
    (\<exists>pad. wire = u32_to_be (word_of_nat (length wire - 4)) @ word_of_nat (length pad) # p @ pad \<and>
       4 \<le> length pad \<and> length pad \<le> 11) \<and>
    peek_plaintext_length (take 4 wire) = Ok (length wire) \<and> open_plaintext wire = Ok p"
proof -
  note l = plaintext_link [OF assms]
  let ?n = "padding_len (length p) 8 4"
  obtain pad where f: "fill_buf E ?n r = (pad, r')" and n: "length pad = ?n"
    using assms(2) host_rng.length_fill [of E ?n r]
    by (cases "fill_buf E ?n r") (simp add: seal_plaintext_def pad_payload_with_prefix_def Let_def)
  then have wire: "wire = u32_to_be (word_of_nat (1 + length p + length pad)) @ word_of_nat (length pad) # p @ pad"
    using assms(2) by (simp add: seal_plaintext_def pad_payload_with_prefix_def Let_def)
  have b: "4 \<le> ?n" "?n \<le> 11"
    using padding_len_bounds [of 8 "length p" 4] by (simp_all add: MIN_PADDING_def)
  have len: "length wire = 5 + length p + length pad" by (simp add: wire)
  moreover have "8 < length wire" using len n b by simp
  ultimately have "16 \<le> length wire" using l(4) by presburger
  then show ?thesis using l n b wire len by (auto intro!: exI [of _ pad])
qed

theorem plaintext_packet_shape_witness:
  "length (fst (seal_plaintext (fill_buf toy_crates) [21] 0)) mod 8 = 0"
  using plaintext_packet_shape [of "[21]" toy_crates 0]
  by (cases "seal_plaintext (fill_buf toy_crates) [21] 0") (simp add: payload_fits_def MAX_PACKET_LENGTH_def)

text \<open>The nonce the next packet of a direction is sealed with.\<close>

definition packet_nonce :: "packet_cipher \<Rightarrow> bytes" where
  "packet_nonce c = (case pc_keys c of
      KeysChaCha _ _ \<Rightarrow> chacha_nonce_for_seq (pc_seq c)
    | KeysGcm _ nonce \<Rightarrow> nonce)"

definition nonce_period :: "packet_cipher \<Rightarrow> nat" where
  "nonce_period c = (case pc_keys c of KeysChaCha _ _ \<Rightarrow> 2 ^ 32 | KeysGcm _ _ \<Rightarrow> 2 ^ 64)"

definition nonce_sized :: "packet_cipher \<Rightarrow> bool" where
  "nonce_sized c = (case pc_keys c of KeysChaCha _ _ \<Rightarrow> True | KeysGcm _ nonce \<Rightarrow> length nonce = 12)"

lemma u64_to_be_be_to: "length bs = 8 \<Longrightarrow> u64_to_be (be_to_u64 bs) = bs"
  using be_bytes_be_val [of bs] be_val_less [of bs]
  by (simp add: be_to_u64_def u64_to_be_def unat_of_nat)

lemma increment_many:
  "length nonce = 12 \<Longrightarrow>
     (increment_gcm_nonce ^^ n) nonce = take 4 nonce @ u64_to_be (be_to_u64 (drop 4 nonce) + of_nat n)"
  by (induction n) (simp_all add: u64_to_be_be_to increment_gcm_nonce_def add_ac)

lemma be_inject: "u32_to_be a = u32_to_be b \<longleftrightarrow> a = b" "u64_to_be x = u64_to_be y \<longleftrightarrow> x = y"
  by (metis be_to_u32_to_be, metis be_to_u64_to_be)

text \<open>
  C34: The nonces of one direction do not repeat before the counter has gone all the way round:
  after sending any packets from any point of the stream, the next nonce is the one of that point
  exactly when the number of packets is a multiple of 2^32 (the sequence number, ChaCha20-Poly1305)
  or of 2^64 (the invocation counter, AES-GCM).
\<close>
theorem nonces_repeat_only_after_a_period:
  assumes "send_many (cipher_seal E) ps (c, r) = (Ok w, (c', r'))" and "nonce_sized c"
  shows "packet_nonce c' = packet_nonce c \<longleftrightarrow> nonce_period c dvd length ps"
proof -
  note st = send_many_state [OF assms(1)]
  show ?thesis
  proof (cases "pc_keys c")
    case (KeysChaCha a b)
    then have "packet_nonce c' = packet_nonce c \<longleftrightarrow> (of_nat (length ps) :: u32) = 0"
      by (simp add: st packet_nonce_def chacha_nonce_for_seq_def be_inject)
    also have "\<dots> \<longleftrightarrow> 2 ^ 32 dvd length ps" by (simp add: word_of_nat_eq_0_iff)
    finally show ?thesis using KeysChaCha by (simp add: nonce_period_def)
  next
    case (KeysGcm k nonce)
    then have len: "length nonce = 12" using assms(2) by (simp add: nonce_sized_def)
    have start: "nonce = take 4 nonce @ u64_to_be (be_to_u64 (drop 4 nonce))"
      using len by (simp add: u64_to_be_be_to)
    have "packet_nonce c' = packet_nonce c \<longleftrightarrow>
        take 4 nonce @ u64_to_be (be_to_u64 (drop 4 nonce) + of_nat (length ps)) = nonce"
      using KeysGcm by (simp add: st packet_nonce_def increment_many [OF len])
    also have "\<dots> \<longleftrightarrow> (of_nat (length ps) :: u64) = 0"
      by (subst (3) start) (simp add: be_inject)
    also have "\<dots> \<longleftrightarrow> 2 ^ 64 dvd length ps" by (simp add: word_of_nat_eq_0_iff)
    finally show ?thesis using KeysGcm by (simp add: nonce_period_def)
  qed
qed

theorem nonces_repeat_only_after_a_period_witness:
  "\<exists>w c' r'. send_many (cipher_seal toy_crates) [[94, 1], [96]]
      (\<lparr>pc_alg = Aes256GcmOpenSsh, pc_keys = KeysGcm [1] (replicate 12 0), pc_seq = 3\<rparr>, 0) = (Ok w, (c', r')) \<and>
    packet_nonce c' \<noteq> replicate 12 0"
proof -
  let ?c = "\<lparr>pc_alg = Aes256GcmOpenSsh, pc_keys = KeysGcm [1] (replicate 12 0), pc_seq = 3\<rparr>"
  have "same_cipher toy_crates (?c, 0) ?c" by (simp add: same_cipher_def toy_ciphers_ok)
  then obtain w c' r' where s: "send_many (cipher_seal toy_crates) [[94, 1], [96]] (?c, 0) = (Ok w, (c', r'))"
    using sealed.stream [of toy_crates "(?c, 0)" ?c "[[94, 1], [96]]"]
    by (auto simp: payload_fits_def MAX_PACKET_LENGTH_def)
  have "nonce_sized ?c" by (simp add: nonce_sized_def)
  from nonces_repeat_only_after_a_period [OF s this] have "packet_nonce c' \<noteq> replicate 12 0"
    by (auto simp: packet_nonce_def [of ?c] nonce_period_def dest: dvd_imp_le)
  with s show ?thesis by blast
qed

section \<open>A packet that was changed on the way\<close>

text \<open>
  C35: A complete packet whose authentication fails ends the session at once: the error is reported,
  nothing of the packet reaches a handler (every other part of the state is as it was, the cipher
  included), and nothing is sent.
\<close>
theorem forged_packet_ends_the_session:
  assumes "\<not> paused (core s)" and "phase (core s) \<noteq> VersionExchange" and "sc_cipher (core s) = Some ci"
    and "4 \<le> length (incoming s)" and "peek_total_length E ci (take 4 (incoming s)) = Ok n"
    and "n \<le> length (incoming s)" and "fst (cipher_open E (take n (incoming s)) ci) = Err Mac"
  shows "drive E s = (Ok (), s\<lparr>incoming := drop n (incoming s),
    core := (core s)\<lparr>phase := Closed, events := events (core s) @ [Unrecoverable Mac]\<rparr>\<rparr>)"
proof -
  have o: "cipher_open E (take n (incoming s)) ci = (Err Mac, ci)"
    using assms(7) cipher_open_Mac [of E "take n (incoming s)" ci] by (metis prod.collapse)
  have "(core s)\<lparr>sc_cipher := Some ci\<rparr> = core s" using assms(3) by simp
  then have "drive_step E s = (Err Mac, s\<lparr>incoming := drop n (incoming s)\<rparr>)"
    using assms o
    by (simp add: drive_step_def drive_packet_phase_def expected_len_def handle_packet_def
        open_packet_def and_then_def on_core_def)
  then show ?thesis
    using assms(1) by (simp add: drive.simps [of E s] fail_session_def fail_def)
qed

definition forged :: "nat session" where
  "forged = (session_new 0)\<lparr>core := (engine_new 0)\<lparr>phase := Connected,
     sc_cipher := Some \<lparr>pc_alg = ChaCha20Poly1305OpenSsh, pc_keys = KeysChaCha [1] [2], pc_seq = 3\<rparr>\<rparr>,
     incoming := [1, 1, 1, 0, 7] @ replicate 16 99\<rparr>"

theorem forged_packet_ends_the_session_witness:
  "drive toy_crates forged = (Ok (), forged\<lparr>incoming := [],
    core := (core forged)\<lparr>phase := Closed, events := [Unrecoverable Mac]\<rparr>\<rparr>)"
proof -
  let ?ci = "\<lparr>pc_alg = ChaCha20Poly1305OpenSsh, pc_keys = KeysChaCha [1] [2], pc_seq = 3\<rparr>"
  have n: "peek_total_length toy_crates ?ci (take 4 (incoming forged)) = Ok 21"
    by (simp add: forged_def peek_total_length_def decrypt_length_chacha20_def toy_simps toy_xor_def
        be_to_u32_def be_val_def MAX_PACKET_LENGTH_def TAG_LEN_def)
  have tag: "replicate 16 (99 :: byte) \<noteq> replicate 4 0 @ xs" for xs
  proof
    assume "replicate 16 (99 :: byte) = replicate 4 0 @ xs"
    then have "replicate 16 (99 :: byte) ! 0 = (replicate 4 0 @ xs) ! 0" by simp
    then show False by (simp add: nth_append)
  qed
  have "fst (cipher_open toy_crates (take 21 (incoming forged)) ?ci) = Err Mac"
    by (simp add: forged_def cipher_open_def open_chacha20poly1305_def decrypt_length_chacha20_def
        toy_simps toy_xor_def toy_open_def toy_tag_def be_to_u32_def be_val_def TAG_LEN_def
        chacha_nonce_for_seq_def Let_def tag)
  then show ?thesis
    using forged_packet_ends_the_session [of forged ?ci toy_crates 21] n
    by (simp add: forged_def session_new_def engine_new_def paused_def)
qed

section \<open>KEXINIT and negotiation\<close>

text \<open>
  C36: A KEXINIT message is read back as it was written, if its cookie has 16 bytes and each of its
  ten name-lists holds valid UTF-8 names without commas, is not the one empty name, and is at most
  0xFFFFF bytes long when joined by commas; the message the client sends, on any state of its random
  source, is one of these.
\<close>
theorem kexinit_reads_back:
  assumes "encoding_ok E" and "kexinit_ok k"
  shows "(\<exists>p. kexinit_to_payload E k = Ok p \<and> kexinit_parse E p = Ok k) \<and>
    (\<exists>p. kexinit_to_payload E (fst (kexinit_ours (fill_buf E) r)) = Ok p \<and>
       kexinit_parse E p = Ok (fst (kexinit_ours (fill_buf E) r)))"
  by (intro conjI kexinit_round_trip [OF assms] kexinit_round_trip [OF assms(1) kexinit_ours_ok])

lemma demo_kex_ok: "kexinit_ok demo_kex"
proof -
  have ascii: "utf8_valid (lit s)" if "\<forall>c \<in> set s. of_char c < (128 :: nat)" for s
    using that by (rule utf8_valid_lit_ascii)
  show ?thesis
    by (simp add: kexinit_ok_def names_ok_def demo_kex_def Let_def ascii) (simp add: lit_def)
qed

theorem kexinit_reads_back_witness:
  "(\<exists>p. kexinit_to_payload toy_crates demo_kex = Ok p \<and> kexinit_parse toy_crates p = Ok demo_kex) \<and>
   (\<exists>p. kexinit_to_payload toy_crates (fst (kexinit_ours (fill_buf toy_crates) 0)) = Ok p \<and>
     kexinit_parse toy_crates p = Ok (fst (kexinit_ours (fill_buf toy_crates) 0)))"
  by (rule kexinit_reads_back [OF toy_encoding_ok demo_kex_ok])

text \<open>
  The four categories in their order, with what the client and the server list for each; \<open>agreed\<close>:
  the server lists the name, and none of the names the client prefers to it.
\<close>

definition categories :: "kex_init \<Rightarrow> kex_init \<Rightarrow> (str \<times> str list \<times> str list) list" where
  "categories ours theirs =
     [(lit ''key exchange algorithm'', kex_algorithms ours, kex_algorithms theirs),
      (lit ''server host key algorithm'', server_host_key_algorithms ours, server_host_key_algorithms theirs),
      (lit ''client-to-server cipher'', encryption_client_to_server ours, encryption_client_to_server theirs),
      (lit ''server-to-client cipher'', encryption_server_to_client ours, encryption_server_to_client theirs)]"

definition agreed :: "str list \<Rightarrow> str list \<Rightarrow> str \<Rightarrow> bool" where
  "agreed client server a \<longleftrightarrow>
     (\<exists>pre post. client = pre @ a # post \<and> a \<in> set server \<and> set pre \<inter> set server = {})"

lemma negotiate_exists: "(\<exists>a. negotiate client server cat = Ok a) \<longleftrightarrow> set client \<inter> set server \<noteq> {}"
  using negotiate_Err [of client server cat] negotiate_no_panic [of client server cat]
  by (cases "negotiate client server cat") auto

lemma negotiate_all_Err:
  "negotiate_all ours theirs = Err e \<longleftrightarrow>
     (\<exists>pre cat client server post. categories ours theirs = pre @ (cat, client, server) # post \<and>
        e = Negotiation cat \<and> set client \<inter> set server = {} \<and>
        list_all (\<lambda>(_, client, server). set client \<inter> set server \<noteq> {}) pre)"
proof -
  have four: "[a, b, c, d] = pre @ x # post \<longleftrightarrow>
      pre = [] \<and> x = a \<and> post = [b, c, d] \<or> pre = [a] \<and> x = b \<and> post = [c, d] \<or>
      pre = [a, b] \<and> x = c \<and> post = [d] \<or> pre = [a, b, c] \<and> x = d \<and> post = []"
    for a b c d x :: "str \<times> str list \<times> str list" and pre post
    by (auto simp: Cons_eq_append_conv)
  let ?no = "\<lambda>names. set (names ours) \<inter> set (names theirs) = {}"
  have "negotiate_all ours theirs = Err e \<longleftrightarrow>
     ?no kex_algorithms \<and> e = Negotiation (lit ''key exchange algorithm'') \<or>
     \<not> ?no kex_algorithms \<and> (?no server_host_key_algorithms \<and> e = Negotiation (lit ''server host key algorithm'') \<or>
     \<not> ?no server_host_key_algorithms \<and> (?no encryption_client_to_server \<and> e = Negotiation (lit ''client-to-server cipher'') \<or>
     \<not> ?no encryption_client_to_server \<and> ?no encryption_server_to_client \<and> e = Negotiation (lit ''server-to-client cipher'')))"
    by (simp add: negotiate_all_def try_r_Err negotiate_Err negotiate_exists)
  also have "\<dots> \<longleftrightarrow> (\<exists>pre cat client server post. categories ours theirs = pre @ (cat, client, server) # post \<and>
        e = Negotiation cat \<and> set client \<inter> set server = {} \<and>
        list_all (\<lambda>(_, client, server). set client \<inter> set server \<noteq> {}) pre)"
    unfolding categories_def four by auto
  finally show ?thesis .
qed

text \<open>
  C37: Negotiation succeeds with the names the two sides agree on in the four categories (key
  exchange, host key, cipher to the server, cipher to the client): each is on the server's list, and
  none of the names before it on the client's is. It fails exactly when some category has no common
  name, with the first such category, and never panics. So the order of the server's lists, and its
  lists of MACs, compressions and languages, do not matter.
\<close>
theorem negotiation_takes_first_common:
  "(negotiate_all ours theirs = Ok n \<longleftrightarrow>
      agreed (kex_algorithms ours) (kex_algorithms theirs) (neg_kex n) \<and>
      agreed (server_host_key_algorithms ours) (server_host_key_algorithms theirs) (neg_server_host_key n) \<and>
      agreed (encryption_client_to_server ours) (encryption_client_to_server theirs)
        (neg_encryption_client_to_server n) \<and>
      agreed (encryption_server_to_client ours) (encryption_server_to_client theirs)
        (neg_encryption_server_to_client n)) \<and>
   (negotiate_all ours theirs = Err e \<longleftrightarrow>
     (\<exists>pre cat client server post. categories ours theirs = pre @ (cat, client, server) # post \<and>
        e = Negotiation cat \<and> set client \<inter> set server = {} \<and>
        list_all (\<lambda>(_, client, server). set client \<inter> set server \<noteq> {}) pre)) \<and>
   negotiate_all ours theirs \<noteq> Panic"
proof -
  have "negotiate_all ours theirs = Ok n \<longleftrightarrow>
      agreed (kex_algorithms ours) (kex_algorithms theirs) (neg_kex n) \<and>
      agreed (server_host_key_algorithms ours) (server_host_key_algorithms theirs) (neg_server_host_key n) \<and>
      agreed (encryption_client_to_server ours) (encryption_client_to_server theirs)
        (neg_encryption_client_to_server n) \<and>
      agreed (encryption_server_to_client ours) (encryption_server_to_client theirs)
        (neg_encryption_server_to_client n)"
    unfolding negotiate_all_def try_r_Ok agreed_def negotiate_Ok [symmetric, where cat = "[]"]
    by (cases n) (auto simp: negotiate_def)
  then show ?thesis by (simp only: negotiate_all_Err negotiate_all_no_panic simp_thms)
qed

section \<open>Key exchange and key derivation\<close>

text \<open>
  C38: The key derivation is the one of RFC 4253, section 7.2: the first bytes of K1 || K2 || ...,
  with K1 the hash of K, H, the tag and the session identifier, and each further block the hash of
  K, H and all blocks before; the result has exactly the length asked for.
\<close>
theorem derive_is_the_rfc_stream:
  "derive E K H sid tag needed = take needed (rfc_stream E K H sid tag (needed div 32)) \<and>
   length (derive E K H sid tag needed) = needed"
  by (simp add: derive_spec [of needed "needed div 32"])

text \<open>
  C39: The transcript of the curve25519 exchange determines everything in it: two exchanges that
  hash the same bytes have the same identification lines, KEXINIT payloads, host key, both public
  values, and secret (as its mpint). So a signature over one exchange's hash, if the hash does not
  collide, is a signature over that exchange.
\<close>
theorem exchange_transcript_is_injective:
  assumes "\<forall>x \<in> {v_c, v_s, i_c, i_s, k_s, q_c, q_s, v_c', v_s', i_c', i_s', k_s', q_c', q_s'}. fits_u32 x"
    and "ecdh_transcript E v_c v_s i_c i_s k_s q_c q_s k = Ok t"
    and "ecdh_transcript E v_c' v_s' i_c' i_s' k_s' q_c' q_s' k' = Ok t"
  shows "v_c = v_c' \<and> v_s = v_s' \<and> i_c = i_c' \<and> i_s = i_s' \<and> k_s = k_s' \<and> q_c = q_c' \<and> q_s = q_s' \<and>
    mpint_encode E k = mpint_encode E k'"
  using ecdh_transcript_unique [OF assms] by simp

theorem exchange_transcript_is_injective_witness:
  "\<exists>t. ecdh_transcript toy_crates [1] [2] [3] [4] [5] [6] [7] [8] = Ok t \<and>
     (\<forall>v. fits_u32 v \<longrightarrow> ecdh_transcript toy_crates v [2] [3] [4] [5] [6] [7] [8] = Ok t \<longrightarrow> v = [1])"
proof -
  obtain t where t: "ecdh_transcript toy_crates [1] [2] [3] [4] [5] [6] [7] [8] = Ok t"
    by (simp add: ecdh_transcript_def encode_mpint_def toy_simps)
  have one: "fits_u32 [b]" for b by (simp add: fits_u32_def)
  have "v = [1]" if "fits_u32 v" "ecdh_transcript toy_crates v [2] [3] [4] [5] [6] [7] [8] = Ok t" for v
    using exchange_transcript_is_injective [OF _ that(2) t] one that(1) by simp
  with t show ?thesis by blast
qed

text \<open>
  C40: Group 14 Diffie-Hellman agrees: two sides that drew their keys as the client does, and whose
  public values are in range, compute the same shared secret, as 256 bytes.
\<close>
theorem group14_agrees:
  assumes E: "biguint_ok E" and a: "dh_generate E r = (Ok a, r1)" and b: "dh_generate E q = (Ok b, q1)"
    and valid: "validate_public_value (be_val (dh_e_bytes a)) = Ok ()"
      "validate_public_value (be_val (dh_e_bytes b)) = Ok ()"
  shows "\<exists>K. dh_diffie_hellman E a (dh_e_bytes b) = Ok K \<and> dh_diffie_hellman E b (dh_e_bytes a) = Ok K \<and>
    length K = 256"
proof -
  note ka = dh_generate_Ok [OF E a] and kb = dh_generate_Ok [OF E b]
  have va: "be_val (dh_e_bytes a) = 2 ^ dh_x a mod GROUP14_PRIME" "length (dh_e_bytes a) \<le> 256"
    and vb: "be_val (dh_e_bytes b) = 2 ^ dh_x b mod GROUP14_PRIME" "length (dh_e_bytes b) \<le> 256"
    by (simp_all only: ka(2) kb(2) be_val_public length_be_bytes)
  have "dh_diffie_hellman E a (dh_e_bytes b) =
      Ok (be_bytes 256 ((2 ^ dh_x b mod GROUP14_PRIME) ^ dh_x a mod GROUP14_PRIME))"
    using dh_secret [OF E ka(1) vb(2) valid(2)] by (simp only: vb(1))
  moreover have "dh_diffie_hellman E b (dh_e_bytes a) =
      Ok (be_bytes 256 ((2 ^ dh_x a mod GROUP14_PRIME) ^ dh_x b mod GROUP14_PRIME))"
    using dh_secret [OF E kb(1) va(2) valid(1)] by (simp only: va(1))
  moreover have "(2 ^ x mod GROUP14_PRIME) ^ y mod GROUP14_PRIME = (2 ^ y mod GROUP14_PRIME) ^ x mod GROUP14_PRIME"
    for x y
    by (metis power_mod power_mult mult.commute)
  ultimately show ?thesis by simp
qed

theorem group14_agrees_witness:
  "\<exists>K. dh_diffie_hellman toy_crates \<lparr>dh_params = GROUP14_PRIME, dh_x = 2, dh_e_bytes = be_bytes 256 4\<rparr> (be_bytes 256 8)
     = Ok K \<and> length K = 256"
proof -
  let ?a = "\<lparr>dh_params = GROUP14_PRIME, dh_x = 2, dh_e_bytes = be_bytes 256 4\<rparr>"
    and ?b = "\<lparr>dh_params = GROUP14_PRIME, dh_x = 3, dh_e_bytes = be_bytes 256 8\<rparr>"
  have small: "(4 :: nat) mod GROUP14_PRIME = 4" "(8 :: nat) mod GROUP14_PRIME = 8"
    by (simp_all add: GROUP14_PRIME_def)
  have g: "group_generator toy_crates = Ok 2"
    by (simp add: group_generator_def biguint_simps(1) [OF toy_biguint_ok] be_val_def)
  have "dh_generate toy_crates 0 = (Ok ?a, 1)" "dh_generate toy_crates 1 = (Ok ?b, 2)"
    using small by (simp_all add: dh_generate_def g biguint_simps(2,3) [OF toy_biguint_ok] Let_def)
      (simp_all add: toy_simps)
  moreover have "validate_public_value (be_val (be_bytes 256 4)) = Ok ()"
    "validate_public_value (be_val (be_bytes 256 8)) = Ok ()"
    using be_val_public [of 4] be_val_public [of 8]
    by (simp_all only: small validate_public_value_def) (simp_all add: GROUP14_PRIME_def)
  ultimately obtain K where "dh_diffie_hellman toy_crates ?a (dh_e_bytes ?b) = Ok K" "length K = 256"
    using group14_agrees [OF toy_biguint_ok, of 0 ?a 1 1 ?b 2] by auto
  then show ?thesis by auto
qed

end
