(* ===== verification/Bindgen.thy ===== *)
theory Bindgen
  imports Session_Inv
begin

text \<open>
  \<open>wasm-ssh-bindgen/src/lib.rs\<close>: the object JavaScript holds. Its calls forward to the session;
  an event becomes a JSON text, with the bytes of a host key or of channel data set aside for
  \<open>take_event_data\<close>. A \<open>JsValue\<close> made of a string is that string; \<open>WasmRng\<close> is the generator of
  the parameters. The wildcard arm of \<open>encode_event\<close> is dead: every variant has an arm.
\<close>

section \<open>JSON strings\<close>

text \<open>\<open>{:04x}\<close> of a character below 32, and the escape of one byte of a UTF-8 string: every
  character the source escapes is ASCII, so the bytes of other characters are copied.\<close>

definition hex_digit :: "nat \<Rightarrow> byte" where
  "hex_digit n = (if n < 10 then word_of_nat (48 + n) else word_of_nat (87 + n))"

definition json_escape :: "byte \<Rightarrow> str" where
  "json_escape c =
     (if c = 34 then [92, 34]
      else if c = 92 then [92, 92]
      else if c = 10 then [92, 110]
      else if c = 13 then [92, 114]
      else if c = 9 then [92, 116]
      else if c < 32 then
        [92, 117, 48, 48, hex_digit (unat c div 16), hex_digit (unat c mod 16)]
      else [c])"

definition json_str :: "str \<Rightarrow> str" where
  "json_str s = [34] @ concat (map json_escape s) @ [34]"

section \<open>Events as JSON\<close>

record 'r wasm_session =
  inner :: "'r session"
  last_event_data :: bytes

definition wasm_new :: "'r \<Rightarrow> 'r wasm_session" where
  "wasm_new r = \<lparr>inner = session_new r, last_event_data = []\<rparr>"

definition json_u32 :: "u32 \<Rightarrow> str" where
  "json_u32 n = decimal (unat n)"

fun stream_name :: "data_stream \<Rightarrow> str" where
  "stream_name Stdout = lit ''stdout''"
| "stream_name Stderr = lit ''stderr''"

fun event_json :: "event \<Rightarrow> str" where
  "event_json (HostKeyVerify algorithm fingerprint raw_blob) =
     lit ''{\"type\":\"HostKeyVerify\",\"algorithm\":'' @ json_str algorithm @
     lit '',\"fingerprintSha256\":'' @ json_str fingerprint @ lit '',\"dataAvailable\":true}''"
| "event_json ReadyForAuth = lit ''{\"type\":\"ReadyForAuth\"}''"
| "event_json (AuthFailure remaining_methods) =
     lit ''{\"type\":\"AuthFailure\",\"remainingMethods\":['' @
     join_with 44 (map json_str remaining_methods) @ lit '']}''"
| "event_json AuthSuccess = lit ''{\"type\":\"AuthSuccess\"}''"
| "event_json (ChannelOpened cid) =
     lit ''{\"type\":\"ChannelOpened\",\"id\":'' @ json_u32 cid @ lit ''}''"
| "event_json (ChannelOpenFailed cid reason_code description) =
     lit ''{\"type\":\"ChannelOpenFailed\",\"id\":'' @ json_u32 cid @ lit '',\"reasonCode\":'' @
     json_u32 reason_code @ lit '',\"description\":'' @ json_str description @ lit ''}''"
| "event_json (ChannelData cid stream data) =
     lit ''{\"type\":\"ChannelData\",\"id\":'' @ json_u32 cid @ lit '',\"stream\":\"'' @
     stream_name stream @ lit ''\",\"dataAvailable\":true}''"
| "event_json (ChannelWindowFull cid) =
     lit ''{\"type\":\"ChannelWindowFull\",\"id\":'' @ json_u32 cid @ lit ''}''"
| "event_json (ChannelExitStatus cid code signal) =
     lit ''{\"type\":\"ChannelExitStatus\",\"id\":'' @ json_u32 cid @ lit '',\"code\":'' @
     (case code of Some c \<Rightarrow> json_u32 c | None \<Rightarrow> lit ''null'') @ lit '',\"signal\":'' @
     (case signal of Some s \<Rightarrow> json_str s | None \<Rightarrow> lit ''null'') @ lit ''}''"
| "event_json (ChannelEof cid) =
     lit ''{\"type\":\"ChannelEof\",\"id\":'' @ json_u32 cid @ lit ''}''"
| "event_json (ChannelClosed cid) =
     lit ''{\"type\":\"ChannelClosed\",\"id\":'' @ json_u32 cid @ lit ''}''"
| "event_json (Disconnected reason_code description) =
     lit ''{\"type\":\"Disconnected\",\"reasonCode\":'' @ json_u32 reason_code @
     lit '',\"description\":'' @ json_str description @ lit ''}''"
| "event_json (Unrecoverable err) =
     lit ''{\"type\":\"Unrecoverable\",\"message\":'' @ json_str (display_error err) @ lit ''}''"

fun event_data :: "event \<Rightarrow> bytes option" where
  "event_data (HostKeyVerify _ _ raw_blob) = Some raw_blob"
| "event_data (ChannelData _ _ data) = Some data"
| "event_data _ = None"

definition encode_event :: "event \<Rightarrow> 'r wasm_session \<Rightarrow> str \<times> 'r wasm_session" where
  "encode_event e w =
     (event_json e, case event_data e of Some d \<Rightarrow> w\<lparr>last_event_data := d\<rparr> | None \<Rightarrow> w)"

section \<open>Private keys\<close>

text \<open>The parsers of \<open>ssh-key\<close> and \<open>rsa\<close> the binding calls; an error is its display text.\<close>

record key_crates =
  from_openssh :: "str \<Rightarrow> str + bytes"
  from_pkcs1_pem :: "str \<Rightarrow> str + bytes"
  from_pkcs8_pem :: "str \<Rightarrow> str + bytes"
  rsa_keypair :: "bytes \<Rightarrow> str + bytes"
  is_encrypted :: "bytes \<Rightarrow> bool"
  decrypt_key :: "bytes \<Rightarrow> str \<Rightarrow> str + bytes"

fun contains :: "str \<Rightarrow> str \<Rightarrow> bool" where
  "contains [] p \<longleftrightarrow> p = []"
| "contains (c # s) p \<longleftrightarrow> starts_with (c # s) p \<or> contains s p"

definition and_convert :: "key_crates \<Rightarrow> str + bytes \<Rightarrow> str + bytes" where
  "and_convert K r = (case r of Inl e \<Rightarrow> Inl e | Inr rsa_key \<Rightarrow> rsa_keypair K rsa_key)"

definition parse_private_key :: "key_crates \<Rightarrow> str \<Rightarrow> str + bytes" where
  "parse_private_key K pem =
     (case from_openssh K pem of
        Inr key \<Rightarrow> Inr key
      | Inl e \<Rightarrow>
          if contains pem (lit ''BEGIN RSA PRIVATE KEY'') then and_convert K (from_pkcs1_pem K pem)
          else if contains pem (lit ''BEGIN PRIVATE KEY'') then and_convert K (from_pkcs8_pem K pem)
          else Inl e)"

section \<open>The calls\<close>

definition on_inner :: "('r session, 'a) op \<Rightarrow> ('r wasm_session, 'a) op" where
  "on_inner m w = (case m (inner w) of (r, s) \<Rightarrow> (r, w\<lparr>inner := s\<rparr>))"

definition wasm_feed_incoming :: "'r crates \<Rightarrow> bytes \<Rightarrow> ('r wasm_session, unit) op" where
  "wasm_feed_incoming E data = on_inner (feed_incoming E data)"

definition wasm_take_outgoing :: "'r wasm_session \<Rightarrow> bytes \<times> 'r wasm_session" where
  "wasm_take_outgoing w =
     (case take_outgoing [] (inner w) of ((out, _), s) \<Rightarrow> (out, w\<lparr>inner := s\<rparr>))"

definition wasm_poll_event :: "'r wasm_session \<Rightarrow> str option \<times> 'r wasm_session" where
  "wasm_poll_event w =
     (case poll_event (inner w) of
        (None, s) \<Rightarrow> (None, w\<lparr>inner := s\<rparr>)
      | (Some e, s) \<Rightarrow> (case encode_event e (w\<lparr>inner := s\<rparr>) of (j, w') \<Rightarrow> (Some j, w')))"

definition wasm_take_event_data :: "'r wasm_session \<Rightarrow> bytes \<times> 'r wasm_session" where
  "wasm_take_event_data w = (last_event_data w, w\<lparr>last_event_data := []\<rparr>)"

definition wasm_provide_host_key_decision ::
    "'r crates \<Rightarrow> bool \<Rightarrow> ('r wasm_session, unit) op" where
  "wasm_provide_host_key_decision E accept = on_inner (provide_host_key_decision E accept)"

definition wasm_authenticate_password :: "'r crates \<Rightarrow> str \<Rightarrow> str \<Rightarrow> ('r wasm_session, unit) op" where
  "wasm_authenticate_password E user password = on_inner (on_core (authenticate_password E user password))"

text \<open>The outcome of \<open>Result<(), JsValue>\<close>, beside a panic of the session.\<close>

definition wasm_authenticate_publickey ::
    "'r crates \<Rightarrow> key_crates \<Rightarrow> str \<Rightarrow> str \<Rightarrow> str option \<Rightarrow> ('r wasm_session, str + unit) op" where
  "wasm_authenticate_publickey E K user pem passphrase w =
     (case parse_private_key K pem of
        Inl e \<Rightarrow> (Ok (Inl e), w)
      | Inr key \<Rightarrow>
         (case (if is_encrypted K key
                then case passphrase of
                    None \<Rightarrow> Inl (lit ''private key is encrypted but no passphrase was provided'')
                  | Some p \<Rightarrow> decrypt_key K key p
                else Inr key) of
            Inl e \<Rightarrow> (Ok (Inl e), w)
          | Inr key' \<Rightarrow>
             (case on_inner (on_core (authenticate_publickey E user key')) w of
                (Ok u, w') \<Rightarrow> (Ok (Inr u), w')
              | (Err e, w') \<Rightarrow> (Ok (Inl (display_error e)), w')
              | (Panic, w') \<Rightarrow> (Panic, w'))))"

definition wasm_open_exec :: "'r crates \<Rightarrow> str \<Rightarrow> ('r wasm_session, u32) op" where
  "wasm_open_exec E command = on_inner (on_core (open_exec E command))"

definition wasm_open_shell :: "'r crates \<Rightarrow> str \<Rightarrow> u32 \<Rightarrow> u32 \<Rightarrow> ('r wasm_session, u32) op" where
  "wasm_open_shell E term_name cols rows =
     on_inner (on_core (open_shell E \<lparr>pty_term = term_name, pty_cols = cols, pty_rows = rows,
       pty_pixel_width = 0, pty_pixel_height = 0\<rparr>))"

definition wasm_channel_send :: "'r crates \<Rightarrow> u32 \<Rightarrow> bytes \<Rightarrow> ('r wasm_session, nat) op" where
  "wasm_channel_send E cid data = on_inner (on_core (channel_send E cid data))"

definition wasm_resize_pty :: "'r crates \<Rightarrow> u32 \<Rightarrow> u32 \<Rightarrow> u32 \<Rightarrow> ('r wasm_session, unit) op" where
  "wasm_resize_pty E cid cols rows = on_inner (on_core (resize_pty E cid cols rows))"

definition wasm_close_channel :: "'r crates \<Rightarrow> u32 \<Rightarrow> ('r wasm_session, unit) op" where
  "wasm_close_channel E cid = on_inner (on_core (close_channel E cid))"

definition wasm_notify_transport_closed :: "('r wasm_session, unit) op" where
  "wasm_notify_transport_closed = on_inner notify_transport_closed"

section \<open>Reading the JSON strings back\<close>

text \<open>
  A reader of JSON strings (RFC 8259, section 7), after the opening quote: it gives the string and
  what follows the closing quote. Of the numeric escapes it knows those below 128, one byte each.
\<close>

definition hex_value :: "byte \<Rightarrow> nat option" where
  "hex_value b =
     (if 48 \<le> b \<and> b \<le> 57 then Some (unat b - 48)
      else if 97 \<le> b \<and> b \<le> 102 then Some (unat b - 87)
      else if 65 \<le> b \<and> b \<le> 70 then Some (unat b - 55)
      else None)"

definition hex_byte :: "bytes \<Rightarrow> byte option" where
  "hex_byte ds = (case map hex_value ds of
      [Some 0, Some 0, Some h, Some l] \<Rightarrow> if h < 8 then Some (word_of_nat (16 * h + l)) else None
    | _ \<Rightarrow> None)"

definition simple_escape :: "byte \<Rightarrow> byte option" where
  "simple_escape e =
     (if e = 34 \<or> e = 92 \<or> e = 47 then Some e
      else if e = 98 then Some 8 else if e = 102 then Some 12
      else if e = 110 then Some 10 else if e = 114 then Some 13
      else if e = 116 then Some 9 else None)"

definition put :: "byte option \<Rightarrow> (str \<times> bytes) option \<Rightarrow> (str \<times> bytes) option" where
  "put c r = Option.bind c (\<lambda>c. map_option (\<lambda>(s, rest). (c # s, rest)) r)"

fun json_tail :: "bytes \<Rightarrow> (str \<times> bytes) option" where
  "json_tail [] = None"
| "json_tail (c # cs) =
     (if c = 34 then Some ([], cs)
      else if c = 92 then
        (case cs of
           [] \<Rightarrow> None
         | e # es \<Rightarrow>
             if e = 117 then put (hex_byte (take 4 es)) (json_tail (drop 4 es))
             else put (simple_escape e) (json_tail es))
      else if c < 32 then None
      else put (Some c) (json_tail cs))"

declare json_tail.simps(2) [simp del]

lemma put_simps [simp]: "put (Some c) (Some (s, rest)) = Some (c # s, rest)" "put None r = None"
  by (simp_all add: put_def)

lemma hex_value_digit: "n < 16 \<Longrightarrow> hex_value (hex_digit n) = Some n"
  by (auto simp: hex_value_def hex_digit_def word_le_nat_alt unat_word_of_nat_byte
      simp del: of_nat_add)

lemma hex_byte_escape:
  assumes "c < 32"
  shows "hex_byte [48, 48, hex_digit (unat c div 16), hex_digit (unat c mod 16)] = Some c"
proof -
  have u: "unat c < 32" using assms by (simp add: word_less_nat_alt)
  have "hex_value 48 = Some 0" by (simp add: hex_value_def)
  with u show ?thesis by (simp add: hex_byte_def hex_value_digit del: of_nat_add of_nat_mult)
qed

lemma json_tail_escape: "json_tail (json_escape c @ xs) = put (Some c) (json_tail xs)"
proof (cases "c \<in> {34, 92, 10, 13, 9} \<or> 32 \<le> c")
  case True
  then show ?thesis
    by (auto simp: json_escape_def json_tail.simps(2) simple_escape_def)
next
  case False
  then have "json_escape c = [92, 117, 48, 48, hex_digit (unat c div 16), hex_digit (unat c mod 16)]"
    by (simp add: json_escape_def not_le)
  with False hex_byte_escape [of c] show ?thesis
    by (simp add: json_tail.simps(2) not_le)
qed

lemma json_tail_str: "json_tail (concat (map json_escape s) @ 34 # rest) = Some (s, rest)"
  by (induction s) (simp_all add: json_tail_escape json_tail.simps(2))

definition json_read :: "bytes \<Rightarrow> (str \<times> bytes) option" where
  "json_read xs = (case xs of [] \<Rightarrow> None | c # cs \<Rightarrow> if c = 34 then json_tail cs else None)"

lemma json_read_str: "json_read (json_str s @ rest) = Some (s, rest)"
  by (simp add: json_read_def json_str_def json_tail_str)

lemma json_str_unique: "json_str s @ xs = json_str t @ ys \<Longrightarrow> s = t \<and> xs = ys"
  using json_read_str by (metis option.inject prod.inject)

section \<open>No two reports look alike\<close>

fun event_name :: "event \<Rightarrow> string" where
  "event_name (HostKeyVerify _ _ _) = ''HostKeyVerify''"
| "event_name ReadyForAuth = ''ReadyForAuth''"
| "event_name (AuthFailure _) = ''AuthFailure''"
| "event_name AuthSuccess = ''AuthSuccess''"
| "event_name (ChannelOpened _) = ''ChannelOpened''"
| "event_name (ChannelOpenFailed _ _ _) = ''ChannelOpenFailed''"
| "event_name (ChannelData _ _ _) = ''ChannelData''"
| "event_name (ChannelWindowFull _) = ''ChannelWindowFull''"
| "event_name (ChannelExitStatus _ _ _) = ''ChannelExitStatus''"
| "event_name (ChannelEof _) = ''ChannelEof''"
| "event_name (ChannelClosed _) = ''ChannelClosed''"
| "event_name (Disconnected _ _) = ''Disconnected''"
| "event_name (Unrecoverable _) = ''Unrecoverable''"

lemma event_json_type:
  "\<exists>fields. event_json e = lit ''{\"type\":\"'' @ lit (event_name e) @ 34 # fields"
  by (cases e) (simp_all add: lit_def)

lemma event_name_no_quote: "34 \<notin> set (lit (event_name e))"
  by (cases e) (simp_all add: lit_def)

lemma up_to_mark:
  "as @ c # xs = bs @ c # ys \<Longrightarrow> c \<notin> set as \<Longrightarrow> c \<notin> set bs \<Longrightarrow> as = bs"
  by (induction as bs rule: list_induct2') auto

lemma same_event_name:
  assumes "event_json e = event_json e'"
  shows "event_name e = event_name e'"
proof -
  obtain xs ys where "event_json e = lit ''{\"type\":\"'' @ lit (event_name e) @ 34 # xs"
    and "event_json e' = lit ''{\"type\":\"'' @ lit (event_name e') @ 34 # ys"
    using event_json_type by metis
  with assms have "lit (event_name e) @ 34 # xs = lit (event_name e') @ 34 # ys" by simp
  from up_to_mark [OF this event_name_no_quote event_name_no_quote] show ?thesis by simp
qed

text \<open>The fields: each delimits itself in front of the text that follows it.\<close>

lemma json_u32_unique:
  assumes "json_u32 m @ xs = json_u32 n @ ys"
    and "xs \<noteq> []" "\<not> is_digit (hd xs)" "ys \<noteq> []" "\<not> is_digit (hd ys)"
  shows "m = n \<and> xs = ys"
  using decimal_unique [of "unat m" xs "unat n" ys] assms
  by (simp add: json_u32_def word_unat_eq_iff)

lemma json_inject [simp]: "json_str s = json_str t \<longleftrightarrow> s = t" "json_u32 m = json_u32 n \<longleftrightarrow> m = n"
  using json_str_unique [of s "[]" t "[]"] json_u32_unique [of m "[0]" n "[0]"]
  by (auto simp: is_digit_def)

lemma json_str_head: "json_str s = 34 # concat (map json_escape s) @ [34]"
  by (simp add: json_str_def)

lemma json_list_unique:
  "join_with 44 (map json_str as) @ 93 # xs = join_with 44 (map json_str bs) @ 93 # ys \<Longrightarrow>
     as = bs \<and> xs = ys"
proof (induction as arbitrary: bs)
  case Nil
  then show ?case
    by (cases bs rule: list.exhaust; cases "tl bs") (auto simp: json_str_head)
next
  case (Cons a as)
  then obtain b bs' where bs: "bs = b # bs'"
    by (cases bs; cases as) (auto simp: json_str_head)
  let ?tail = "\<lambda>as. (if as = [] then [] else 44 # join_with 44 (map json_str as)) @ 93 # xs"
  let ?tail' = "\<lambda>as. (if as = [] then [] else 44 # join_with 44 (map json_str as)) @ 93 # ys"
  have j: "join_with 44 (map json_str (c # cs)) =
      json_str c @ (if cs = [] then [] else 44 # join_with 44 (map json_str cs))" for c cs
    by (cases cs) simp_all
  from Cons.prems have "json_str a @ ?tail as = json_str b @ ?tail' bs'"
    by (simp only: bs j append_assoc)
  from json_str_unique [OF this] have "a = b" and t: "?tail as = ?tail' bs'" by blast+
  from t have "as = bs' \<and> xs = ys"
    using Cons.IH [of bs'] by (auto split: if_splits)
  with bs \<open>a = b\<close> show ?case by simp
qed

text \<open>
  What the host receives for an event, the JSON and the bytes, determines the event; of an error
  it determines the display text.
\<close>

lemma json_null_unique:
  "(case a of Some s \<Rightarrow> json_str s | None \<Rightarrow> lit ''null'') @ xs =
   (case b of Some s \<Rightarrow> json_str s | None \<Rightarrow> lit ''null'') @ ys \<Longrightarrow> a = b \<and> xs = ys"
  "\<lbrakk>(case c of Some n \<Rightarrow> json_u32 n | None \<Rightarrow> lit ''null'') @ 44 # xs =
    (case d of Some n \<Rightarrow> json_u32 n | None \<Rightarrow> lit ''null'') @ 44 # ys\<rbrakk> \<Longrightarrow> c = d \<and> xs = ys"
proof -
  show "a = b \<and> xs = ys"
    if "(case a of Some s \<Rightarrow> json_str s | None \<Rightarrow> lit ''null'') @ xs =
      (case b of Some s \<Rightarrow> json_str s | None \<Rightarrow> lit ''null'') @ ys"
    using that
    by (cases a; cases b) (auto simp: lit_def json_str_head dest: json_str_unique [unfolded json_str_head, simplified])
  have d: "json_u32 n \<noteq> 110 # zs" for n zs
  proof
    assume "json_u32 n = 110 # zs"
    then have "110 \<in> set (decimal (unat n))" by (simp add: json_u32_def)
    then show False using decimal_digits by force
  qed
  have j: "\<exists>b bs. json_u32 n = b # bs \<and> b \<noteq> 110" for n
    using d by (metis decimal_neq_Nil json_u32_def neq_Nil_conv)
  show "c = d \<and> xs = ys"
    if "(case c of Some n \<Rightarrow> json_u32 n | None \<Rightarrow> lit ''null'') @ 44 # xs =
      (case d of Some n \<Rightarrow> json_u32 n | None \<Rightarrow> lit ''null'') @ 44 # ys"
  proof (cases c; cases d)
    fix m n
    assume "c = Some m" "d = Some n"
    with that show ?thesis using json_u32_unique [of m "44 # xs" n "44 # ys"] by (simp add: is_digit_def)
  next
    fix n
    assume "c = None" "d = Some n"
    with that j [of n] show ?thesis by (auto simp: lit_def)
  next
    fix m
    assume "c = Some m" "d = None"
    with that j [of m] show ?thesis by (auto simp: lit_def)
  qed (use that in simp)
qed

lemma exit_unique:
  assumes "event_json (ChannelExitStatus cid code sig) = event_json (ChannelExitStatus cid' code' sig')"
  shows "cid = cid' \<and> code = code' \<and> sig = sig'"
proof -
  have "is_digit 44 = False" by (simp add: is_digit_def)
  with assms have "cid = cid'" and r:
    "(case code of Some n \<Rightarrow> json_u32 n | None \<Rightarrow> lit ''null'') @ 44 # lit ''\"signal\":'' @
       (case sig of Some s \<Rightarrow> json_str s | None \<Rightarrow> lit ''null'') @ lit ''}'' =
     (case code' of Some n \<Rightarrow> json_u32 n | None \<Rightarrow> lit ''null'') @ 44 # lit ''\"signal\":'' @
       (case sig' of Some s \<Rightarrow> json_str s | None \<Rightarrow> lit ''null'') @ lit ''}''"
    by (auto simp: lit_def dest!: json_u32_unique)
  from json_null_unique(2) [OF r] have "code = code'" and "lit ''\"signal\":'' @
       (case sig of Some s \<Rightarrow> json_str s | None \<Rightarrow> lit ''null'') @ lit ''}'' =
     lit ''\"signal\":'' @ (case sig' of Some s \<Rightarrow> json_str s | None \<Rightarrow> lit ''null'') @ lit ''}''"
    by blast+
  from this(2) have "(case sig of Some s \<Rightarrow> json_str s | None \<Rightarrow> lit ''null'') @ lit ''}'' =
     (case sig' of Some s \<Rightarrow> json_str s | None \<Rightarrow> lit ''null'') @ lit ''}''"
    by (simp only: same_append_eq)
  from json_null_unique(1) [OF this] \<open>cid = cid'\<close> \<open>code = code'\<close> show ?thesis by blast
qed

lemma event_report_unique:
  assumes "event_json e = event_json e'" and "event_data e = event_data e'"
  shows "e = e' \<or> (\<exists>x y. e = Unrecoverable x \<and> e' = Unrecoverable y \<and> display_error x = display_error y)"
proof -
  have n: "event_name e = event_name e'" using assms(1) by (rule same_event_name)
  have c: "is_digit 44 = False" "is_digit 125 = False" by (simp_all add: is_digit_def)
  show ?thesis
  proof (cases e)
    case (AuthFailure ms)
    with n obtain ms' where "e' = AuthFailure ms'" by (cases e') simp_all
    with AuthFailure assms json_list_unique [of ms "[]" ms' "[]"] show ?thesis by simp
  next
    case (ChannelExitStatus cid code sig)
    with n obtain cid' code' sig' where "e' = ChannelExitStatus cid' code' sig'" by (cases e') simp_all
    with ChannelExitStatus assms exit_unique show ?thesis by fastforce
  next
    case (ChannelData cid st d)
    with n obtain cid' st' d' where "e' = ChannelData cid' st' d'" by (cases e') simp_all
    with ChannelData assms show ?thesis
      by (cases st; cases st') (auto simp: lit_def c dest!: json_u32_unique)
  next
    case ReadyForAuth
    with n show ?thesis by (cases e') simp_all
  next
    case AuthSuccess
    with n show ?thesis by (cases e') simp_all
  qed (insert n, (cases e', simp_all,
      use assms in \<open>auto simp: lit_def c dest!: json_u32_unique json_str_unique\<close>)+)
qed

end
