(* ===== verification/Binding_Properties.thy ===== *)
theory Binding_Properties
  imports Bindgen Sample_Run Simulation
begin

text \<open>The properties of the binding: what JavaScript sees of a session, and what it can do to it.\<close>

section \<open>What the host reads\<close>

text \<open>
  C28: Every string the binding puts in a JSON text is read back by a JSON reader as the same string,
  whatever follows it, and contains no raw control character.
\<close>

theorem json_strings_read_back:
  "json_read (json_str s @ rest) = Some (s, rest) \<and> list_all (\<lambda>b. 32 \<le> b) (json_str s)"
proof -
  have h: "32 \<le> hex_digit n" if "n < 16" for n
    using that by (simp add: hex_digit_def word_le_nat_alt unat_word_of_nat_byte del: of_nat_add)
  have "list_all (\<lambda>b. 32 \<le> b) (json_escape c)" for c
  proof -
    have "unat c < 256" using unsigned_less [of c, where ?'a = nat] by simp
    then have "unat c div 16 < 16" "unat c mod 16 < 16" by (simp_all add: div_less_iff_less_mult)
    with h show ?thesis by (auto simp: json_escape_def not_less)
  qed
  then have "list_all (\<lambda>b. 32 \<le> b) (json_str s)"
    by (induction s) (auto simp: json_str_def)
  then show ?thesis by (simp add: json_read_str)
qed

text \<open>
  C29: No two events look alike to the host: the JSON text and the bytes set aside for it determine
  the event, an error up to its display text.
\<close>

theorem reports_tell_events_apart:
  assumes "encode_event e w = (j, w1)" and "encode_event e' w = (j, w2)"
    and "event_data e = event_data e'"
  shows "e = e' \<or>
    (\<exists>x y. e = Unrecoverable x \<and> e' = Unrecoverable y \<and> display_error x = display_error y)"
  using assms by (intro event_report_unique) (auto simp: encode_event_def)

theorem reports_tell_events_apart_witness:
  "fst (encode_event (ChannelEof 1) (wasm_new (0::nat))) \<noteq>
   fst (encode_event (ChannelEof 11) (wasm_new (0::nat)))"
proof (rule notI)
  let ?w = "wasm_new (0::nat)"
  assume "fst (encode_event (ChannelEof 1) ?w) = fst (encode_event (ChannelEof 11) ?w)"
  then have "encode_event (ChannelEof 1) ?w = (event_json (ChannelEof 11), ?w)"
    and "encode_event (ChannelEof 11) ?w = (event_json (ChannelEof 11), ?w)"
    by (simp_all add: encode_event_def)
  from reports_tell_events_apart [OF this] show False by simp
qed

text \<open>
  Polling takes the first queued event; the bytes then drained are that event's, and if it has
  none they are what an earlier event left behind: the buffer is not cleared by a poll.
\<close>

lemma poll_then_take:
  assumes "events (core (inner w)) = e # es"
  shows "\<exists>w'. wasm_poll_event w = (Some (event_json e), w') \<and>
    events (core (inner w')) = es \<and>
    fst (wasm_take_event_data w') =
      (case event_data e of Some d \<Rightarrow> d | None \<Rightarrow> last_event_data w) \<and>
    last_event_data (snd (wasm_take_event_data w')) = []"
  using assms
  by (simp add: wasm_poll_event_def poll_event_def encode_event_def wasm_take_event_data_def
      split: option.split)

section \<open>What the host can do\<close>

text \<open>
  The calls JavaScript makes, with their arguments, and what each of them gives back. A panic traps
  the WebAssembly instance and gives nothing back.
\<close>

datatype js_call =
    JsFeedIncoming bytes
  | JsTakeOutgoing
  | JsPollEvent
  | JsTakeEventData
  | JsHostKeyDecision bool
  | JsPassword str str
  | JsPublicKey str str "str option"
  | JsOpenExec str
  | JsOpenShell str u32 u32
  | JsChannelSend u32 bytes
  | JsResizePty u32 u32 u32
  | JsCloseChannel u32
  | JsTransportClosed

datatype js_reply =
    Undefined
  | Bytes bytes
  | Text str
  | ChannelId u32
  | Accepted nat
  | Throws str

fun replying :: "('a \<Rightarrow> js_reply) \<Rightarrow> 'a result \<times> 's \<Rightarrow> js_reply result \<times> 's" where
  "replying f (r, s) = (try_r r (\<lambda>a. Ok (f a)), s)"

abbreviation nothing :: "unit \<Rightarrow> js_reply" where
  "nothing _ \<equiv> Undefined"

fun wasm_call :: "'r crates \<Rightarrow> key_crates \<Rightarrow> js_call \<Rightarrow> ('r wasm_session, js_reply) op" where
  "wasm_call E K (JsFeedIncoming d) w = replying nothing (wasm_feed_incoming E d w)"
| "wasm_call E K JsTakeOutgoing w = (case wasm_take_outgoing w of (out, w') \<Rightarrow> (Ok (Bytes out), w'))"
| "wasm_call E K JsPollEvent w =
     (case wasm_poll_event w of (j, w') \<Rightarrow> (Ok (case j of Some t \<Rightarrow> Text t | None \<Rightarrow> Undefined), w'))"
| "wasm_call E K JsTakeEventData w = (case wasm_take_event_data w of (d, w') \<Rightarrow> (Ok (Bytes d), w'))"
| "wasm_call E K (JsHostKeyDecision a) w = replying nothing (wasm_provide_host_key_decision E a w)"
| "wasm_call E K (JsPassword u p) w = replying nothing (wasm_authenticate_password E u p w)"
| "wasm_call E K (JsPublicKey u pem pp) w =
     replying (case_sum Throws nothing) (wasm_authenticate_publickey E K u pem pp w)"
| "wasm_call E K (JsOpenExec c) w = replying ChannelId (wasm_open_exec E c w)"
| "wasm_call E K (JsOpenShell t c r) w = replying ChannelId (wasm_open_shell E t c r w)"
| "wasm_call E K (JsChannelSend cid d) w = replying Accepted (wasm_channel_send E cid d w)"
| "wasm_call E K (JsResizePty cid c r) w = replying nothing (wasm_resize_pty E cid c r w)"
| "wasm_call E K (JsCloseChannel cid) w = replying nothing (wasm_close_channel E cid w)"
| "wasm_call E K JsTransportClosed w = replying nothing (wasm_notify_transport_closed w)"

definition wasm_step ::
    "'r crates \<Rightarrow> key_crates \<Rightarrow> 'r wasm_session \<Rightarrow> js_call \<times> js_reply result \<Rightarrow> 'r wasm_session \<Rightarrow> bool" where
  "wasm_step E K w l w' \<longleftrightarrow> wasm_call E K (fst l) w = (snd l, w') \<and> snd l \<noteq> Panic"

text \<open>
  What the calls are to mean, over a session of \<open>ssh-core\<close> and the bytes of the last reported
  event: which call of the session a JavaScript call makes, if any, and what it gives back.
\<close>

inductive key_read :: "key_crates \<Rightarrow> str \<Rightarrow> str + bytes \<Rightarrow> bool" for K where
  openssh: "from_openssh K pem = Inr k \<Longrightarrow> key_read K pem (Inr k)"
| pkcs1: "from_openssh K pem = Inl e \<Longrightarrow> contains pem (lit ''BEGIN RSA PRIVATE KEY'') \<Longrightarrow>
    from_pkcs1_pem K pem = Inr r \<Longrightarrow> key_read K pem (rsa_keypair K r)"
| pkcs1_error: "from_openssh K pem = Inl e \<Longrightarrow> contains pem (lit ''BEGIN RSA PRIVATE KEY'') \<Longrightarrow>
    from_pkcs1_pem K pem = Inl e' \<Longrightarrow> key_read K pem (Inl e')"
| pkcs8: "from_openssh K pem = Inl e \<Longrightarrow> \<not> contains pem (lit ''BEGIN RSA PRIVATE KEY'') \<Longrightarrow>
    contains pem (lit ''BEGIN PRIVATE KEY'') \<Longrightarrow>
    from_pkcs8_pem K pem = Inr r \<Longrightarrow> key_read K pem (rsa_keypair K r)"
| pkcs8_error: "from_openssh K pem = Inl e \<Longrightarrow> \<not> contains pem (lit ''BEGIN RSA PRIVATE KEY'') \<Longrightarrow>
    contains pem (lit ''BEGIN PRIVATE KEY'') \<Longrightarrow>
    from_pkcs8_pem K pem = Inl e' \<Longrightarrow> key_read K pem (Inl e')"
| unknown: "from_openssh K pem = Inl e \<Longrightarrow> \<not> contains pem (lit ''BEGIN RSA PRIVATE KEY'') \<Longrightarrow>
    \<not> contains pem (lit ''BEGIN PRIVATE KEY'') \<Longrightarrow> key_read K pem (Inl e)"

inductive key_for :: "key_crates \<Rightarrow> str \<Rightarrow> str option \<Rightarrow> str + bytes \<Rightarrow> bool" for K where
  unreadable: "key_read K pem (Inl e) \<Longrightarrow> key_for K pem pp (Inl e)"
| plain: "key_read K pem (Inr k) \<Longrightarrow> \<not> is_encrypted K k \<Longrightarrow> key_for K pem pp (Inr k)"
| locked: "key_read K pem (Inr k) \<Longrightarrow> is_encrypted K k \<Longrightarrow>
    key_for K pem None (Inl (lit ''private key is encrypted but no passphrase was provided''))"
| unlocked: "key_read K pem (Inr k) \<Longrightarrow> is_encrypted K k \<Longrightarrow>
    key_for K pem (Some p) (decrypt_key K k p)"

inductive session_call :: "key_crates \<Rightarrow> js_call \<Rightarrow> host_call \<Rightarrow> bool" for K where
  "session_call K (JsFeedIncoming d) (Feed d)"
| "session_call K JsTakeOutgoing TakeOutgoing"
| "session_call K JsPollEvent PollEvent"
| "session_call K (JsHostKeyDecision accept) (HostKeyDecision accept)"
| "session_call K (JsPassword u p) (AuthPassword u p)"
| "key_for K pem pp (Inr k) \<Longrightarrow> session_call K (JsPublicKey u pem pp) (AuthPublicKey u k)"
| "session_call K (JsOpenExec c) (OpenExec c)"
| "session_call K (JsOpenShell t c r)
     (OpenShell \<lparr>pty_term = t, pty_cols = c, pty_rows = r, pty_pixel_width = 0, pty_pixel_height = 0\<rparr>)"
| "session_call K (JsChannelSend cid d) (ChannelSend cid d)"
| "session_call K (JsResizePty cid c r) (ResizePty cid c r)"
| "session_call K (JsCloseChannel cid) (CloseChannel cid)"
| "session_call K JsTransportClosed TransportIsClosed"

text \<open>The reply, where the session calls itself give a value; \<open>s\<close> is the session before the call.\<close>

fun reply_of :: "'r crates \<Rightarrow> 'r session \<Rightarrow> host_call \<Rightarrow> js_reply result" where
  "reply_of E s TakeOutgoing = Ok (Bytes (outgoing (core s)))"
| "reply_of E s PollEvent =
     Ok (case events (core s) of [] \<Rightarrow> Undefined | e # _ \<Rightarrow> Text (event_json e))"
| "reply_of E s (OpenExec c) = fst (replying ChannelId (open_exec E c (core s)))"
| "reply_of E s (OpenShell p) = fst (replying ChannelId (open_shell E p (core s)))"
| "reply_of E s (ChannelSend cid d) = fst (replying Accepted (channel_send E cid d (core s)))"
| "reply_of E s (AuthPublicKey u k) =
     (case fst (call E (AuthPublicKey u k) s) of
        Err e \<Rightarrow> Ok (Throws (display_error e))
      | Ok _ \<Rightarrow> Ok Undefined
      | Panic \<Rightarrow> Panic)"
| "reply_of E s c = fst (replying nothing (call E c s))"

fun stash_after :: "'r session \<Rightarrow> bytes \<Rightarrow> host_call \<Rightarrow> bytes" where
  "stash_after s b PollEvent =
     (case events (core s) of
        HostKeyVerify _ _ blob # _ \<Rightarrow> blob
      | ChannelData _ _ d # _ \<Rightarrow> d
      | _ \<Rightarrow> b)"
| "stash_after s b _ = b"

inductive host_does ::
    "'r crates \<Rightarrow> key_crates \<Rightarrow> 'r session \<times> bytes \<Rightarrow> js_call \<times> js_reply result \<Rightarrow> 'r session \<times> bytes \<Rightarrow> bool"
  for E :: "'r crates" and K :: key_crates where
  forwards: "session_call K c h \<Longrightarrow> host_step E h s s' \<Longrightarrow>
    host_does E K (s, b) (c, reply_of E s h) (s', stash_after s b h)"
| reads: "host_does E K (s, b) (JsTakeEventData, Ok (Bytes b)) (s, [])"
| refuses: "key_for K pem pp (Inl e) \<Longrightarrow>
    host_does E K (s, b) (JsPublicKey u pem pp, Ok (Throws e)) (s, b)"

lemma replying_Panic [simp]: "fst (replying f x) = Panic \<longleftrightarrow> fst x = Panic"
  by (cases x; cases "fst x") auto

text \<open>A forwarded call without a value, and one with a value the session call drops.\<close>

lemma on_inner_forwarded:
  assumes "replying nothing (on_inner (call E h) w) = (q, w')" and "q \<noteq> Panic"
    and "session_call K c h"
    and "reply_of E (inner w) h = fst (replying nothing (call E h (inner w)))"
    and "\<And>b. stash_after (inner w) b h = b"
  shows "host_does E K (inner w, last_event_data w) (c, q) (inner w', last_event_data w')"
proof -
  have "host_step E h (inner w) (inner w')" "q = reply_of E (inner w) h"
    "last_event_data w' = last_event_data w"
    using assms(1,2)
    by (cases "call E h (inner w)"; cases "fst (call E h (inner w))";
        auto simp: on_inner_def host_step_simps assms(4))+
  with host_does.forwards [OF assms(3) this(1), of "last_event_data w"] assms(5) show ?thesis by simp
qed

lemma on_inner_core_forwarded:
  assumes "replying f (on_inner (on_core m) w) = (q, w')" and "q \<noteq> Panic"
    and "session_call K c h" and "call E h = on_core (drop_value m)"
    and "reply_of E (inner w) h = fst (replying f (m (core (inner w))))"
    and "\<And>b. stash_after (inner w) b h = b"
  shows "host_does E K (inner w, last_event_data w) (c, q) (inner w', last_event_data w')"
proof -
  have "host_step E h (inner w) (inner w')" "q = reply_of E (inner w) h"
    "last_event_data w' = last_event_data w"
    using assms(1,2)
    by (cases "m (core (inner w))"; cases "fst (m (core (inner w)))";
        auto simp: on_inner_def on_core_def drop_value_def and_then_def host_step_simps
          assms(4,5))+
  with host_does.forwards [OF assms(3) this(1), of "last_event_data w"] assms(6) show ?thesis by simp
qed

lemma parse_private_key_reads: "key_read K pem (parse_private_key K pem)"
  by (auto simp: parse_private_key_def and_convert_def intro: key_read.intros split: sum.split)

lemma publickey_forwarded:
  assumes "wasm_call E K (JsPublicKey u pem pp) w = (q, w')" and "q \<noteq> Panic"
  shows "host_does E K (inner w, last_event_data w) (JsPublicKey u pem pp, q) (inner w', last_event_data w')"
proof -
  obtain key where k: "key_for K pem pp key" and
    c: "(case key of Inl e \<Rightarrow> (Ok (Throws e), w)
       | Inr key' \<Rightarrow>
           (case on_inner (on_core (authenticate_publickey E u key')) w of
              (Ok _, w') \<Rightarrow> (Ok Undefined, w')
            | (Err e, w') \<Rightarrow> (Ok (Throws (display_error e)), w')
            | (Panic, w') \<Rightarrow> (Panic, w'))) = (q, w')"
  proof (cases "parse_private_key K pem")
    case (Inl e)
    with parse_private_key_reads [of K pem] have "key_read K pem (Inl e)" by simp
    from that [OF key_for.unreadable [OF this]] assms(1) Inl show thesis by (simp add: wasm_authenticate_publickey_def)
  next
    case (Inr k)
    with parse_private_key_reads [of K pem] have read: "key_read K pem (Inr k)" by simp
    show thesis
    proof (cases "is_encrypted K k")
      case True
      show thesis
      proof (cases pp)
        case None
        with Inr True assms(1) key_for.locked [OF read True] show thesis
          by (intro that) (auto simp: wasm_authenticate_publickey_def)
      next
        case (Some p)
        with Inr True assms(1) key_for.unlocked [OF read True] show thesis
          by (intro that)
            (auto simp: wasm_authenticate_publickey_def split: sum.splits prod.splits result.splits)
      qed
    next
      case False
      with Inr assms(1) key_for.plain [OF read False] show thesis
        by (intro that) (auto simp: wasm_authenticate_publickey_def split: sum.splits prod.splits result.splits)
    qed
  qed
  show ?thesis
  proof (cases key)
    case (Inl e)
    with k c show ?thesis by (auto intro: host_does.refuses)
  next
    case (Inr key')
    let ?h = "AuthPublicKey u key'"
    from c Inr assms(2) have "host_step E ?h (inner w) (inner w') \<and> q = reply_of E (inner w) ?h \<and>
        last_event_data w' = last_event_data w"
      by (auto simp: on_inner_def host_step_simps split: prod.splits result.splits)
    with k Inr host_does.forwards [of K "JsPublicKey u pem pp" ?h E "inner w" "inner w'" "last_event_data w"]
    show ?thesis by (simp add: session_call.intros)
  qed
qed

lemma poll_forwarded:
  assumes "wasm_poll_event w = (j, w')"
  shows "host_does E K (inner w, last_event_data w)
    (JsPollEvent, Ok (case j of Some t \<Rightarrow> Text t | None \<Rightarrow> Undefined)) (inner w', last_event_data w')"
proof -
  have "inner w' = snd (poll_event (inner w))"
    and r: "Ok (case j of Some t \<Rightarrow> Text t | None \<Rightarrow> Undefined) = reply_of E (inner w) PollEvent"
    and b: "last_event_data w' = stash_after (inner w) (last_event_data w) PollEvent"
    using assms
    by (auto simp: wasm_poll_event_def poll_event_def encode_event_def
        split: list.splits event.split option.splits)
  then have "host_step E PollEvent (inner w) (inner w')"
    by (simp add: host_step_simps)
  from host_does.forwards [OF session_call.intros(3) this] show ?thesis by (simp only: r b)
qed

lemma wasm_step_forwarded:
  assumes "wasm_step E K w l w'"
  shows "host_does E K (inner w, last_event_data w) l (inner w', last_event_data w')"
proof -
  obtain c q where l: "l = (c, q)" by fastforce
  with assms have c: "wasm_call E K c w = (q, w')" "q \<noteq> Panic" by (simp_all add: wasm_step_def)
  note on_inner = on_inner_forwarded [OF _ c(2)] on_inner_core_forwarded [OF _ c(2)]
  show ?thesis
  proof (cases c)
    case JsTakeOutgoing
    with c l host_does.forwards [of K c TakeOutgoing E "inner w" "inner w'" "last_event_data w"]
    show ?thesis
      by (auto simp: wasm_take_outgoing_def take_outgoing_def host_step_simps session_call.intros)
  next
    case JsPollEvent
    with c l show ?thesis by (auto split: prod.splits intro: poll_forwarded)
  next
    case JsTakeEventData
    with c l show ?thesis by (auto simp: wasm_take_event_data_def intro: host_does.reads)
  next
    case JsPublicKey
    with c l show ?thesis by (simp add: publickey_forwarded)
  next
    case (JsOpenExec cmd)
    with c l show ?thesis
      by (auto simp: wasm_open_exec_def intro: on_inner(2) [OF _ session_call.intros(7)])
  next
    case (JsOpenShell t cs rs)
    with c l show ?thesis
      by (auto simp: wasm_open_shell_def intro: on_inner(2) [OF _ session_call.intros(8)])
  next
    case (JsChannelSend cid d)
    with c l show ?thesis
      by (auto simp: wasm_channel_send_def intro: on_inner(2) [OF _ session_call.intros(9)])
  qed (insert c l, auto simp: wasm_feed_incoming_def wasm_provide_host_key_decision_def
      wasm_authenticate_password_def wasm_resize_pty_def wasm_close_channel_def
      wasm_notify_transport_closed_def
      intro: on_inner(1) [OF _ session_call.intros(1), unfolded call.simps]
        on_inner(1) [OF _ session_call.intros(4), unfolded call.simps]
        on_inner(1) [OF _ session_call.intros(5), unfolded call.simps]
        on_inner(1) [OF _ session_call.intros(10), unfolded call.simps]
        on_inner(1) [OF _ session_call.intros(11), unfolded call.simps]
        on_inner(1) [OF _ session_call.intros(12), unfolded call.simps])
qed

interpretation forwarding: simulation "wasm_step E K" "host_does E K"
    "\<lambda>w. (inner w, last_event_data w)" "\<lambda>_. True" for E K
  by unfold_locales (simp_all add: wasm_step_forwarded)

lemma host_does_reachable:
  "lts_runs (host_does E K) (session_new r, b) ls s \<Longrightarrow> reachable E (fst s)"
proof (induction rule: lts_runs.induct)
  case stop
  show ?case by (auto simp: reachable_def intro: runs.none)
next
  case (step ls s l s')
  have m: "reachable E t \<Longrightarrow> host_step E h t t' \<Longrightarrow> reachable E t'" for h t t'
    unfolding reachable_def by (blast intro: runs.more)
  from step.hyps(2) step.IH show ?case by cases (auto intro: m)
qed

text \<open>
  C27: The binding is the session and nothing else: in any run of JavaScript calls that return, each
  call makes the session call it stands for with the same arguments (the decision on the host key as
  given, the private key the texts denote, a terminal of the given columns and rows), or, draining
  the event data or refusing an unusable key, none; and it gives back what the session has: all
  queued output, the report of the first queued event, the bytes set aside by the last event with
  data, the channel number, the count accepted, the error's display text. So the session inside is
  always one a host of \<open>ssh-core\<close> can reach.
\<close>

theorem binding_refines_session:
  assumes "lts_runs (wasm_step E K) (wasm_new r) ls w"
  shows "lts_runs (host_does E K) (session_new r, []) ls (inner w, last_event_data w) \<and>
    reachable E (inner w)"
proof -
  have "lts_runs (host_does E K) (session_new r, []) ls (inner w, last_event_data w)"
    using forwarding.run_refines [OF assms] by (simp add: wasm_new_def)
  with host_does_reachable [OF this] show ?thesis by simp
qed

lemma wasm_run_step:
  "lts_runs (wasm_step E K) w0 ls w \<Longrightarrow> wasm_call E K c w = (Ok v, w') \<Longrightarrow>
     lts_runs (wasm_step E K) w0 (ls @ [(c, Ok v)]) w'"
  by (rule lts_runs.step) (simp_all add: wasm_step_def)

text \<open>Decoders that read no key.\<close>

definition demo_keys :: key_crates where
  "demo_keys = \<lparr>from_openssh = \<lambda>_. Inl (lit ''no key''), from_pkcs1_pem = \<lambda>_. Inl [],
     from_pkcs8_pem = \<lambda>_. Inl [], rsa_keypair = Inr, is_encrypted = \<lambda>_. False, decrypt_key = \<lambda>k _. Inr k\<rparr>"

theorem binding_refines_session_witness:
  "\<exists>w :: nat wasm_session. lts_runs (host_does demo_crates demo_keys) (session_new 0, [])
     [(JsFeedIncoming demo_ident, Ok Undefined),
      (JsFeedIncoming (demo_packet demo_kexinit_payload), Ok Undefined),
      (JsFeedIncoming (demo_packet demo_reply), Ok Undefined),
      (JsPollEvent, Ok (Text (event_json (hd (events (core demo3)))))),
      (JsTakeEventData, Ok (Bytes [])),
      (JsHostKeyDecision False, Ok Undefined),
      (JsPublicKey (lit ''bob'') (lit ''key'') None, Ok (Throws (lit ''no key'')))] (inner w, []) \<and>
     reachable demo_crates (inner w) \<and> phase (core (inner w)) = Closed"
proof -
  let ?w = "\<lambda>s. \<lparr>inner = s, last_event_data = []\<rparr>"
  let ?polled = "demo3\<lparr>core := (core demo3)\<lparr>events := []\<rparr>\<rparr>"
  let ?call = "wasm_call demo_crates demo_keys"
  have "?call (JsFeedIncoming demo_ident) (wasm_new 0) = (Ok Undefined, ?w demo1)"
    by (simp add: wasm_feed_incoming_def on_inner_def wasm_new_def demo_feed_ident)
  note run = wasm_run_step [OF lts_runs.stop this]
  have "?call (JsFeedIncoming (demo_packet demo_kexinit_payload)) (?w demo1) = (Ok Undefined, ?w demo2)"
    by (simp add: wasm_feed_incoming_def on_inner_def demo_feed_kexinit)
  note run = wasm_run_step [OF run this]
  have "?call (JsFeedIncoming (demo_packet demo_reply)) (?w demo2) = (Ok Undefined, ?w demo3)"
    by (simp add: wasm_feed_incoming_def on_inner_def demo_feed_reply)
  note run = wasm_run_step [OF run this]
  have "\<exists>n f. events (core demo3) = [HostKeyVerify n f []]" by (simp add: demo3_def)
  then have "?call JsPollEvent (?w demo3) = (Ok (Text (event_json (hd (events (core demo3))))), ?w ?polled)"
    by (auto simp: wasm_poll_event_def poll_event_def encode_event_def)
  note run = wasm_run_step [OF run this]
  have "?call JsTakeEventData (?w ?polled) = (Ok (Bytes []), ?w ?polled)"
    by (simp add: wasm_take_event_data_def)
  note run = wasm_run_step [OF run this]
  have "?call (JsHostKeyDecision False) (?w ?polled) =
      (Ok Undefined, ?w (fail_session HostKeyRejected ?polled))"
    by (simp add: wasm_provide_host_key_decision_def on_inner_def provide_host_key_decision_def)
      (simp add: demo3_def)
  note run = wasm_run_step [OF run this]
  have "?call (JsPublicKey (lit ''bob'') (lit ''key'') None) (?w (fail_session HostKeyRejected ?polled)) =
      (Ok (Throws (lit ''no key'')), ?w (fail_session HostKeyRejected ?polled))"
    by (simp add: wasm_authenticate_publickey_def parse_private_key_def demo_keys_def)
      (simp add: lit_def starts_with_def)
  note run = wasm_run_step [OF run this]
  from binding_refines_session [OF run] show ?thesis
    by (intro exI [of _ "?w (fail_session HostKeyRejected ?polled)"])
      (simp add: fail_session_def fail_def)
qed

end
