(* ===== verification/Fake_Server.thy ===== *)
theory Fake_Server
  imports Auth Channel Connection Kex_Curve Kdf Kexinit Packet Ident
begin

text \<open>
  \<open>ssh-core-testkit/src/lib.rs\<close>: the in-process server the end-to-end tests run the client against.
  It reuses the building blocks of \<open>ssh-core\<close> from the other side. Every \<open>unwrap\<close>, \<open>assert\<close> and
  index is a panic. Its random source is always \<open>TestRng\<close>, so its state is a \<open>u64\<close>;
  \<open>PrivateKey::random\<close> of \<open>ssh-key\<close> is the argument \<open>keygen\<close>, from the generator's state.
\<close>

unbundle bit_operations_syntax

definition test_kit :: "u64 crates \<Rightarrow> u64 crates" where
  "test_kit E = E\<lparr>rng_fill := \<lambda>n s. case test_rng_fill n s of (bs, s') \<Rightarrow> ((!) bs, s')\<rparr>"

lemma fill_buf_test_kit [simp]: "fill_buf (test_kit E) = test_rng_fill"
proof (intro ext)
  fix n s
  obtain bs s' where f: "test_rng_fill n s = (bs, s')" by fastforce
  then have "map ((!) bs) [0..<n] = bs"
    using length_test_rng_fill [of n s] by (auto intro: map_nth)
  with f show "fill_buf (test_kit E) n s = test_rng_fill n s"
    by (simp add: fill_buf_def test_kit_def)
qed

section \<open>The state\<close>

datatype server_phase =
    AwaitingIdent | AwaitingKexInit | AwaitingKexEcdhInit | AwaitingNewKeys | AwaitingUserAuth
  | ServerConnected

record fake_server =
  fs_rng :: u64
  fs_host_key :: bytes
  fs_username :: str
  fs_password :: str
  fs_default_exec_output :: bytes
  fs_phase :: server_phase
  fs_incoming :: bytes
  fs_own_ident_line :: bytes
  fs_peer_ident_line :: bytes
  fs_own_kexinit_payload :: bytes
  fs_peer_kexinit_payload :: bytes
  fs_session_id :: bytes
  fs_cs_cipher :: "packet_cipher option"
  fs_cs_cipher_pending :: "packet_cipher option"
  fs_sc_cipher :: "packet_cipher option"
  fs_last_exec_command :: "str option"
  fs_send_global_request :: bool

definition fake_server_new :: "(u64 \<Rightarrow> bytes) \<Rightarrow> u64 \<Rightarrow> str \<Rightarrow> str \<Rightarrow> fake_server" where
  "fake_server_new keygen seed username password =
     \<lparr>fs_rng = seed, fs_host_key = keygen (seed XOR 0xABCDEF0123456789), fs_username = username,
      fs_password = password, fs_default_exec_output = lit ''hello from fake server'' @ [10],
      fs_phase = AwaitingIdent, fs_incoming = [],
      fs_own_ident_line = lit ''SSH-2.0-FakeTestServer_1.0'', fs_peer_ident_line = [],
      fs_own_kexinit_payload = [], fs_peer_kexinit_payload = [], fs_session_id = [],
      fs_cs_cipher = None, fs_cs_cipher_pending = None, fs_sc_cipher = None,
      fs_last_exec_command = None, fs_send_global_request = False\<rparr>"

definition send_global_request_after_auth :: "bool \<Rightarrow> fake_server \<Rightarrow> fake_server" where
  "send_global_request_after_auth enabled s = s\<lparr>fs_send_global_request := enabled\<rparr>"

definition set_exec_output :: "bytes \<Rightarrow> fake_server \<Rightarrow> fake_server" where
  "set_exec_output out s = s\<lparr>fs_default_exec_output := out\<rparr>"

definition initial_outgoing :: "fake_server \<Rightarrow> bytes" where
  "initial_outgoing s = fs_own_ident_line s @ [13, 10]"

section \<open>Sending\<close>

definition fs_seal_plaintext :: "bytes \<Rightarrow> (fake_server, bytes) op" where
  "fs_seal_plaintext payload s =
     (case seal_plaintext test_rng_fill payload (fs_rng s) of
        (wire, r) \<Rightarrow> (Ok wire, s\<lparr>fs_rng := r\<rparr>))"

definition fs_seal :: "u64 crates \<Rightarrow> bytes \<Rightarrow> (fake_server, bytes) op" where
  "fs_seal E payload s =
     (case fs_sc_cipher s of
        None \<Rightarrow> fs_seal_plaintext payload s
      | Some c \<Rightarrow>
         (case cipher_seal (test_kit E) payload (c, fs_rng s) of
            (w, (c', r)) \<Rightarrow> (w, s\<lparr>fs_sc_cipher := Some c', fs_rng := r\<rparr>)))"

section \<open>Key exchange\<close>

definition fs_handle_kexinit :: "u64 crates \<Rightarrow> bytes \<Rightarrow> (fake_server, bytes) op" where
  "fs_handle_kexinit E payload =
     and_then (update (\<lambda>s. s\<lparr>fs_peer_kexinit_payload := payload\<rparr>)) (\<lambda>_.
     and_then (\<lambda>s. case kexinit_ours test_rng_fill (fs_rng s) of
         (k, r) \<Rightarrow> (kexinit_to_payload E k, s\<lparr>fs_rng := r\<rparr>)) (\<lambda>own.
     and_then (update (\<lambda>s. s\<lparr>fs_own_kexinit_payload := own, fs_phase := AwaitingKexEcdhInit\<rparr>)) (\<lambda>_.
       fs_seal_plaintext own)))"

definition ecdh_init_public :: "bytes \<Rightarrow> bytes result" where
  "ecdh_init_public payload = unwrap (parse_with
     (and_then read_u8 (\<lambda>_.
      and_then read_string (\<lambda>q_c.
        if length q_c = 32 then ret q_c else lift_r Panic))) payload)"

definition fs_handle_kex_ecdh_init :: "u64 crates \<Rightarrow> bytes \<Rightarrow> (fake_server, bytes) op" where
  "fs_handle_kex_ecdh_init E payload =
     and_then (lift_r (ecdh_init_public payload)) (\<lambda>q_c.
     and_then (\<lambda>s. case keypair_generate E (fs_rng s) of (kp, r) \<Rightarrow> (Ok kp, s\<lparr>fs_rng := r\<rparr>)) (\<lambda>server_kp.
     and_then (lift_r (unwrap (ecdh_diffie_hellman E server_kp q_c))) (\<lambda>shared_secret.
     and_then (look (\<lambda>s. s)) (\<lambda>s.
     and_then (lift_r (unwrap (key_result (pubkey_to_bytes E (privkey_public E (fs_host_key s))))))
       (\<lambda>host_key_blob.
     and_then (lift_r (ecdh_exchange_hash E (fs_peer_ident_line s) (fs_own_ident_line s)
         (fs_peer_kexinit_payload s) (fs_own_kexinit_payload s) host_key_blob q_c
         (kp_public_bytes server_kp) shared_secret)) (\<lambda>h.
     and_then (update (\<lambda>s. s\<lparr>fs_session_id := h\<rparr>)) (\<lambda>_.
     and_then (lift_r (expect (privkey_try_sign E (fs_host_key s) h))) (\<lambda>signature.
     and_then (lift_r (unwrap (key_result (signature_to_bytes E signature)))) (\<lambda>signature_blob.
     and_then (lift_r (encode_mpint E shared_secret)) (\<lambda>k_mpint.
     (let (key_len, iv_len) = kdf_material_len ChaCha20Poly1305OpenSsh;
          cs_key = derive E k_mpint h h TAG_ENC_KEY_CLIENT_TO_SERVER key_len;
          cs_iv = derive E k_mpint h h TAG_IV_CLIENT_TO_SERVER iv_len;
          sc_key = derive E k_mpint h h TAG_ENC_KEY_SERVER_TO_CLIENT key_len;
          sc_iv = derive E k_mpint h h TAG_IV_SERVER_TO_CLIENT iv_len in
     and_then (lift_r (with_initial_seq ChaCha20Poly1305OpenSsh cs_key cs_iv 3)) (\<lambda>cs.
     and_then (update (\<lambda>s. s\<lparr>fs_cs_cipher_pending := Some cs, fs_phase := AwaitingNewKeys\<rparr>)) (\<lambda>_.
     and_then (fs_seal_plaintext (MSG_KEX_ECDH_REPLY # write_string host_key_blob @
         write_string (kp_public_bytes server_kp) @ write_string signature_blob)) (\<lambda>out1.
     and_then (fs_seal_plaintext [MSG_NEWKEYS]) (\<lambda>out2.
     and_then (lift_r (with_initial_seq ChaCha20Poly1305OpenSsh sc_key sc_iv 3)) (\<lambda>sc.
     and_then (update (\<lambda>s. s\<lparr>fs_sc_cipher := Some sc\<rparr>)) (\<lambda>_.
       ret (out1 @ out2))))))))))))))))))"

section \<open>Service and authentication\<close>

definition fs_handle_service_request :: "u64 crates \<Rightarrow> bytes \<Rightarrow> (fake_server, bytes) op" where
  "fs_handle_service_request E payload =
     and_then (lift_r (unwrap (parse_with (and_then read_u8 (\<lambda>_. read_utf8_string)) payload))) (\<lambda>service.
       if service \<noteq> lit ''ssh-userauth'' then lift_r Panic
       else and_then (update (\<lambda>s. s\<lparr>fs_phase := AwaitingUserAuth\<rparr>)) (\<lambda>_.
         fs_seal E (MSG_SERVICE_ACCEPT # write_string (lit ''ssh-userauth''))))"

text \<open>The fields the server reads of a request, by its method.\<close>

datatype auth_attempt =
    TriesPassword str
  | OffersKey str bytes
  | SignsWithKey str bytes bytes
  | TriesOther

definition read_attempt :: "str \<Rightarrow> (reader, auth_attempt) op" where
  "read_attempt method =
     (if method = lit ''password'' then
        and_then read_bool (\<lambda>_. and_then read_utf8_string (\<lambda>password. ret (TriesPassword password)))
      else if method = lit ''publickey'' then
        and_then read_bool (\<lambda>has_signature.
        and_then read_utf8_string (\<lambda>algo.
        and_then read_string (\<lambda>key_blob.
          if \<not> has_signature then ret (OffersKey algo key_blob)
          else and_then read_string (\<lambda>signature_blob. ret (SignsWithKey algo key_blob signature_blob)))))
      else ret TriesOther)"

definition read_auth_request :: "(reader, str \<times> auth_attempt) op" where
  "read_auth_request =
     and_then read_u8 (\<lambda>_.
     and_then read_utf8_string (\<lambda>username.
     and_then read_utf8_string (\<lambda>service.
     and_then read_utf8_string (\<lambda>method.
     and_then (read_attempt method) (\<lambda>attempt. ret (username, attempt))))))"

definition server_signed_data :: "bytes \<Rightarrow> str \<Rightarrow> str \<Rightarrow> bytes \<Rightarrow> bytes" where
  "server_signed_data session_id username algo key_blob =
     write_string session_id @ [MSG_USERAUTH_REQUEST] @ write_string username @
     write_string (lit ''ssh-connection'') @ write_string (lit ''publickey'') @ [1] @
     write_string algo @ write_string key_blob"

definition fs_auth_reply :: "u64 crates \<Rightarrow> bool \<Rightarrow> (fake_server, bytes) op" where
  "fs_auth_reply E ok =
     (if ok then
        and_then (fs_seal E [MSG_USERAUTH_SUCCESS]) (\<lambda>out.
        and_then (look fs_send_global_request) (\<lambda>g.
          if g then and_then (fs_seal E (80 # write_string (lit ''test-global-request@example.com'') @
              write_bool True)) (\<lambda>req. ret (out @ req))
          else ret out))
      else fs_seal E (MSG_USERAUTH_FAILURE # write_string (lit ''password,publickey'') @
        write_bool False))"

definition fs_handle_userauth_request :: "u64 crates \<Rightarrow> bytes \<Rightarrow> (fake_server, bytes) op" where
  "fs_handle_userauth_request E payload =
     and_then (lift_r (unwrap (parse_with read_auth_request payload))) (\<lambda>(username, attempt).
     and_then (look (\<lambda>s. s)) (\<lambda>s.
       case attempt of
         TriesPassword password \<Rightarrow>
           fs_auth_reply E (username = fs_username s \<and> password = fs_password s)
       | OffersKey algo key_blob \<Rightarrow>
           fs_seal E (60 # write_string algo @ write_string key_blob)
       | SignsWithKey algo key_blob signature_blob \<Rightarrow>
           and_then (lift_r (unwrap (hostkey_parse E key_blob))) (\<lambda>k.
           and_then (lift_r (case verify_signature E k
               (server_signed_data (fs_session_id s) username algo key_blob) signature_blob of
                 Ok _ \<Rightarrow> Ok True | Err _ \<Rightarrow> Ok False | Panic \<Rightarrow> Panic)) (\<lambda>valid.
             fs_auth_reply E (valid \<and> username = fs_username s)))
       | TriesOther \<Rightarrow> fs_auth_reply E False))"

section \<open>Channels\<close>

definition fs_handle_channel_open :: "u64 crates \<Rightarrow> bytes \<Rightarrow> (fake_server, bytes) op" where
  "fs_handle_channel_open E payload =
     and_then (lift_r (unwrap (parse_with
       (and_then read_u8 (\<lambda>_.
        and_then read_string (\<lambda>_.
        and_then read_u32 (\<lambda>sender_channel.
        and_then read_u32 (\<lambda>_.
        and_then read_u32 (\<lambda>_. ret sender_channel)))))) payload))) (\<lambda>sender_channel.
     and_then (update (\<lambda>s. s\<lparr>fs_phase := ServerConnected\<rparr>)) (\<lambda>_.
       fs_seal E (MSG_CHANNEL_OPEN_CONFIRMATION # write_u32 sender_channel @ write_u32 0 @
         write_u32 INITIAL_WINDOW_SIZE @ write_u32 MAX_PACKET_SIZE)))"

definition read_exec_request :: "(reader, u32 \<times> str option) op" where
  "read_exec_request =
     and_then read_u8 (\<lambda>_.
     and_then read_u32 (\<lambda>recipient_channel.
     and_then read_utf8_string (\<lambda>request_type.
     and_then read_bool (\<lambda>_.
       if request_type \<noteq> lit ''exec'' then ret (recipient_channel, None)
       else and_then read_utf8_string (\<lambda>command. ret (recipient_channel, Some command))))))"

definition fs_handle_channel_request :: "u64 crates \<Rightarrow> bytes \<Rightarrow> (fake_server, bytes) op" where
  "fs_handle_channel_request E payload =
     and_then (lift_r (unwrap (parse_with read_exec_request payload))) (\<lambda>(recipient_channel, request).
       case request of
         None \<Rightarrow> fs_seal E (MSG_CHANNEL_FAILURE # write_u32 recipient_channel)
       | Some command \<Rightarrow>
           and_then (update (\<lambda>s. s\<lparr>fs_last_exec_command := Some command\<rparr>)) (\<lambda>_.
           and_then (fs_seal E (MSG_CHANNEL_SUCCESS # write_u32 recipient_channel)) (\<lambda>o1.
           and_then (look fs_default_exec_output) (\<lambda>output.
           and_then (fs_seal E (MSG_CHANNEL_DATA # write_u32 recipient_channel @
               write_string output)) (\<lambda>o2.
           and_then (fs_seal E (MSG_CHANNEL_REQUEST # write_u32 recipient_channel @
               write_string (lit ''exit-status'') @ write_bool False @ write_u32 0)) (\<lambda>o3.
           and_then (fs_seal E (MSG_CHANNEL_EOF # write_u32 recipient_channel)) (\<lambda>o4.
           and_then (fs_seal E (MSG_CHANNEL_CLOSE # write_u32 recipient_channel)) (\<lambda>o5.
             ret (o1 @ o2 @ o3 @ o4 @ o5)))))))))"

section \<open>The loop\<close>

definition fs_dispatch :: "u64 crates \<Rightarrow> byte \<Rightarrow> bytes \<Rightarrow> (fake_server, bytes) op" where
  "fs_dispatch E t payload =
     (if t = MSG_KEXINIT then fs_handle_kexinit E payload
      else if t = MSG_KEX_ECDH_INIT then fs_handle_kex_ecdh_init E payload
      else if t = MSG_NEWKEYS then
        and_then (update (\<lambda>s. s\<lparr>fs_cs_cipher := fs_cs_cipher_pending s,
                              fs_cs_cipher_pending := None\<rparr>)) (\<lambda>_. ret [])
      else if t = MSG_SERVICE_REQUEST then fs_handle_service_request E payload
      else if t = MSG_USERAUTH_REQUEST then fs_handle_userauth_request E payload
      else if t = MSG_CHANNEL_OPEN then fs_handle_channel_open E payload
      else if t = MSG_CHANNEL_REQUEST then fs_handle_channel_request E payload
      else if t = MSG_REQUEST_FAILURE then ret []
      else lift_r Panic)"

definition fs_handle :: "u64 crates \<Rightarrow> bytes \<Rightarrow> (fake_server, bytes) op" where
  "fs_handle E payload =
     (case payload of [] \<Rightarrow> lift_r Panic | t # _ \<Rightarrow> fs_dispatch E t payload)"

definition fs_step_ident :: "(fake_server, bytes option) op" where
  "fs_step_ident s =
     (if 10 \<notin> set (fs_incoming s) then (Ok None, s)
      else let before = takeWhile (\<lambda>b. b \<noteq> 10) (fs_incoming s);
               line = line_of before;
              s' = s\<lparr>fs_incoming := drop (Suc (length before)) (fs_incoming s)\<rparr>
           in if \<not> starts_with line (lit ''SSH-'') then (Panic, s')
              else (Ok (Some []), s'\<lparr>fs_peer_ident_line := line, fs_phase := AwaitingKexInit\<rparr>))"

definition fs_open :: "u64 crates \<Rightarrow> bytes \<Rightarrow> (fake_server, bytes) op" where
  "fs_open E wire s =
     (case fs_cs_cipher s of
        None \<Rightarrow> (open_plaintext wire, s)
      | Some c \<Rightarrow> (case cipher_open (test_kit E) wire c of (r, c') \<Rightarrow> (r, s\<lparr>fs_cs_cipher := Some c'\<rparr>)))"

definition fs_step_packet :: "u64 crates \<Rightarrow> (fake_server, bytes option) op" where
  "fs_step_packet E s =
     (if length (fs_incoming s) < 4 then (Ok None, s)
      else case (case fs_cs_cipher s of
          None \<Rightarrow> peek_plaintext_length (take 4 (fs_incoming s))
        | Some c \<Rightarrow> peek_total_length (test_kit E) c (take 4 (fs_incoming s))) of
        Err e \<Rightarrow> (Ok None, s)
      | Panic \<Rightarrow> (Panic, s)
      | Ok total_len \<Rightarrow>
          if length (fs_incoming s) < total_len then (Ok None, s)
          else case fs_open E (take total_len (fs_incoming s))
              (s\<lparr>fs_incoming := drop total_len (fs_incoming s)\<rparr>) of
            (Ok payload, s') \<Rightarrow> and_then (fs_handle E payload) (\<lambda>out. ret (Some out)) s'
          | (Err e, s') \<Rightarrow> (Ok None, s')
          | (Panic, s') \<Rightarrow> (Panic, s'))"

definition fs_step :: "u64 crates \<Rightarrow> (fake_server, bytes option) op" where
  "fs_step E s = (if fs_phase s = AwaitingIdent then fs_step_ident s else fs_step_packet E s)"

text \<open>Every turn that goes on consumes input.\<close>

lemma preserves_on_state:
  "(\<And>s r s'. I s \<Longrightarrow> m s = (r, s') \<Longrightarrow> r \<noteq> Panic \<Longrightarrow> I s') \<Longrightarrow> preserves I m"
  by (auto simp: triple_def split: prod.split result.split)

lemma fs_handle_incoming: "preserves (\<lambda>s. fs_incoming s = v) (fs_handle E p)"
proof -
  let ?I = "\<lambda>s. fs_incoming s = v"
  have plain: "preserves ?I (fs_seal_plaintext q)" for q
    by (rule preserves_on_state) (auto simp: fs_seal_plaintext_def split: prod.splits)
  have seal: "preserves ?I (fs_seal E q)" for q
    by (rule preserves_on_state)
      (auto simp: fs_seal_def fs_seal_plaintext_def split: prod.splits option.splits)
  have kex: "preserves ?I (\<lambda>s. case kexinit_ours test_rng_fill (fs_rng s) of
         (k, r) \<Rightarrow> (kexinit_to_payload E k, s\<lparr>fs_rng := r\<rparr>))"
    by (rule preserves_on_state) (auto split: prod.splits)
  have key: "preserves ?I (\<lambda>s. case keypair_generate E (fs_rng s) of (kp, r) \<Rightarrow> (Ok kp, s\<lparr>fs_rng := r\<rparr>))"
    by (rule preserves_on_state) (auto split: prod.splits)
  note rules = preserves_rules plain seal kex key
  have auth: "preserves ?I (fs_auth_reply E b)" for b
    unfolding fs_auth_reply_def by (intro rules)
  have kexinit: "preserves ?I (fs_handle_kexinit E p)"
    unfolding fs_handle_kexinit_def by (intro rules) simp_all
  have ecdh: "preserves ?I (fs_handle_kex_ecdh_init E p)"
    unfolding fs_handle_kex_ecdh_init_def Let_def case_prod_beta
    by (intro rules key [unfolded case_prod_beta]) simp_all
  have user: "preserves ?I (fs_handle_userauth_request E p)"
    unfolding fs_handle_userauth_request_def case_prod_beta
    by (intro preserves_and_then preserves_simple)
      (auto split: auth_attempt.split intro!: rules auth)
  have request: "preserves ?I (fs_handle_channel_request E p)"
    unfolding fs_handle_channel_request_def case_prod_beta by (intro rules) simp_all
  have service: "preserves ?I (fs_handle_service_request E p)"
    unfolding fs_handle_service_request_def by (intro rules) simp_all
  have chan: "preserves ?I (fs_handle_channel_open E p)"
    unfolding fs_handle_channel_open_def by (intro rules) simp_all
  have "preserves ?I (fs_dispatch E t p)" for t
    unfolding fs_dispatch_def
    by (intro rules kexinit ecdh user request service chan) simp_all
  then show ?thesis
    by (cases p) (simp_all add: fs_handle_def preserves_simple)
qed

lemma fs_step_ident_progress:
  "fs_step_ident s = (Ok (Some out), s') \<Longrightarrow> length (fs_incoming s') < length (fs_incoming s)"
  by (auto simp: fs_step_ident_def Let_def in_set_conv_decomp split: if_splits)

lemma fs_step_packet_progress:
  assumes "fs_step_packet E s = (Ok (Some out), s')"
  shows "length (fs_incoming s') < length (fs_incoming s)"
proof -
  from assms obtain n p s1 where n: "(case fs_cs_cipher s of
      None \<Rightarrow> peek_plaintext_length (take 4 (fs_incoming s))
    | Some c \<Rightarrow> peek_total_length (test_kit E) c (take 4 (fs_incoming s))) = Ok n"
    and enough: "n \<le> length (fs_incoming s)" "4 \<le> length (fs_incoming s)"
    and o: "fs_open E (take n (fs_incoming s)) (s\<lparr>fs_incoming := drop n (fs_incoming s)\<rparr>) = (Ok p, s1)"
    and h: "fs_handle E p s1 = (Ok out, s')"
    by (auto simp: fs_step_packet_def and_then_eq_Ok not_less split: if_splits result.splits prod.splits)
  from n have "0 < n"
    by (auto dest: peek_plaintext_bounds peek_total_bounds split: option.splits)
  moreover from o have "fs_incoming s1 = drop n (fs_incoming s)"
    by (auto simp: fs_open_def split: option.splits prod.splits)
  moreover have "fs_incoming s' = fs_incoming s1"
    using triple_Ok [OF fs_handle_incoming refl h] by simp
  ultimately show ?thesis using enough by simp
qed

lemma fs_step_progress:
  "fs_step E s = (Ok (Some out), s') \<Longrightarrow> length (fs_incoming s') < length (fs_incoming s)"
  by (auto simp: fs_step_def fs_step_ident_progress fs_step_packet_progress split: if_splits)

function fs_loop :: "u64 crates \<Rightarrow> (fake_server, bytes) op" where
  "fs_loop E s =
     (case fs_step E s of
        (Ok (Some out), s') \<Rightarrow>
          (case fs_loop E s' of (Ok rest, s'') \<Rightarrow> (Ok (out @ rest), s'') | (r, s'') \<Rightarrow> (r, s''))
      | (Ok None, s') \<Rightarrow> (Ok [], s')
      | (Err e, s') \<Rightarrow> (Err e, s')
      | (Panic, s') \<Rightarrow> (Panic, s'))"
  by pat_completeness auto
termination
  by (relation "measure (\<lambda>(E, s). length (fs_incoming s))") (auto dest: fs_step_progress [OF sym])

declare fs_loop.simps [simp del]

definition fs_feed :: "u64 crates \<Rightarrow> bytes \<Rightarrow> (fake_server, bytes) op" where
  "fs_feed E data s = fs_loop E (s\<lparr>fs_incoming := fs_incoming s @ data\<rparr>)"

end
