(* ===== verification/Interop.thy ===== *)
theory Interop
  imports Fake_Server Session_Feed
begin

text \<open>
  The client and the server of the test kit wired to each other, as \<open>tests/end_to_end.rs\<close> does.
  \<open>pump\<close> is the loop of that file: what the client has queued goes to the server, the reply to the
  client, until the client has nothing to say. \<open>None\<close> is a panic of either side or a loop that does
  not settle within the given number of rounds (1000 in the source).
\<close>

fun pump :: "u64 crates \<Rightarrow> nat \<Rightarrow> u64 session \<times> fake_server \<Rightarrow> (u64 session \<times> fake_server) option" where
  "pump E 0 st = None"
| "pump E (Suc n) (c, s) =
     (case take_outgoing [] c of ((out, _), c1) \<Rightarrow>
        if out = [] then Some (c1, s)
        else case fs_feed E out s of
          (Ok server_out, s1) \<Rightarrow>
            if server_out = [] then pump E n (c1, s1)
            else (case feed_incoming E server_out c1 of
                (Ok _, c2) \<Rightarrow> pump E n (c2, s1)
              | _ \<Rightarrow> None)
        | _ \<Rightarrow> None)"

declare pump.simps(2) [simp del]

lemma pump_settled: "outgoing (core c) = [] \<Longrightarrow> pump E (Suc n) (c, s) = Some (c, s)"
  by (simp add: pump.simps(2) take_outgoing_def)

lemma pump_quiet:
  assumes "outgoing (core c) = out" and "out \<noteq> []"
    and "fs_feed E out s = (Ok [], s1)"
  shows "pump E (Suc n) (c, s) = pump E n (c\<lparr>core := (core c)\<lparr>outgoing := []\<rparr>\<rparr>, s1)"
  using assms by (simp add: pump.simps(2) take_outgoing_def)

lemma pump_round:
  assumes "outgoing (core c) = out" and "out \<noteq> []"
    and "fs_feed E out s = (Ok reply, s1)" and "reply \<noteq> []"
    and "feed_incoming E reply (c\<lparr>core := (core c)\<lparr>outgoing := []\<rparr>\<rparr>) = (Ok (), c1)"
  shows "pump E (Suc n) (c, s) = pump E n (c1, s1)"
  using assms by (simp add: pump.simps(2) take_outgoing_def)

section \<open>One packet, on the client\<close>

text \<open>A packet at the front of the buffer is dispatched, and the loop goes on with the rest.\<close>

lemma drive_idle:
  "incoming s = [] \<Longrightarrow> phase (core s) \<noteq> VersionExchange \<Longrightarrow> drive E s = (Ok (), s)"
proof (cases "paused (core s)")
  case True
  then show ?thesis by (rule drive_paused)
next
  case False
  assume "incoming s = []" "phase (core s) \<noteq> VersionExchange"
  with False show ?thesis
    by (intro drive_waits) (simp_all add: drive_step_def drive_packet_phase_def)
qed

lemma drive_plain_packet:
  assumes "payload_fits p" "p = t # ps" and "seal_plaintext (fill_buf F) p r = (wire, r')"
    and "incoming s = wire @ rest" "sc_cipher (core s) = None" "\<not> paused (core s)"
    and "phase (core s) \<noteq> VersionExchange" and "dispatch E t p (core s) = (Ok (), c)"
  shows "drive E s = drive E (s\<lparr>core := c, incoming := rest\<rparr>)"
proof (rule drive_progress [OF assms(6)])
  note l = plaintext_link [OF assms(1,3)]
  show "drive_step E s = (Ok True, s\<lparr>core := c, incoming := rest\<rparr>)"
    using l assms
    by (simp add: drive_step_def drive_packet_phase_def expected_len_def handle_packet_def
        open_packet_def and_then_def on_core_def)
qed

lemma drive_sealed_packet:
  assumes E: "ciphers_ok E" and "payload_fits p" "p = t # ps" and "sc_cipher (core s) = Some ci"
    and "cipher_seal E p (ci, r) = (Ok wire, (ci', r'))"
    and "incoming s = wire @ rest" "\<not> paused (core s)" "phase (core s) \<noteq> VersionExchange"
    and "dispatch E t p ((core s)\<lparr>sc_cipher := Some ci'\<rparr>) = (Ok (), c)"
  shows "drive E s = drive E (s\<lparr>core := c, incoming := rest\<rparr>)"
proof (rule drive_progress [OF assms(7)])
  have l: "4 \<le> length wire" "peek_total_length E ci (take 4 wire) = Ok (length wire)"
    "cipher_open E wire ci = (Ok p, ci')"
    using cipher_link [OF E assms(2), of ci r] assms(5) by auto
  then show "drive_step E s = (Ok True, s\<lparr>core := c, incoming := rest\<rparr>)"
    using assms
    by (simp add: drive_step_def drive_packet_phase_def expected_len_def handle_packet_def
        open_packet_def and_then_def on_core_def)
qed

section \<open>One packet, on the server\<close>

lemma fs_loop_idle:
  "fs_incoming s = [] \<Longrightarrow> fs_phase s \<noteq> AwaitingIdent \<Longrightarrow> fs_loop E s = (Ok [], s)"
  by (simp add: fs_loop.simps [of E s] fs_step_def fs_step_packet_def)

lemma fs_loop_next:
  "fs_step E s = (Ok (Some out), s1) \<Longrightarrow> fs_loop E s1 = (Ok rest, s2) \<Longrightarrow>
     fs_loop E s = (Ok (out @ rest), s2)"
  by (simp add: fs_loop.simps [of E s])

lemma fs_loop_plain_packet:
  assumes "payload_fits p" and "seal_plaintext (fill_buf F) p r = (wire, r')"
    and "fs_incoming s = wire @ rest" "fs_cs_cipher s = None" "fs_phase s \<noteq> AwaitingIdent"
    and "fs_handle E p (s\<lparr>fs_incoming := rest\<rparr>) = (Ok out, s1)"
    and "fs_loop E s1 = (Ok outs, s2)"
  shows "fs_loop E s = (Ok (out @ outs), s2)"
proof (rule fs_loop_next [OF _ assms(7)])
  note l = plaintext_link [OF assms(1,2)]
  show "fs_step E s = (Ok (Some out), s1)"
    using l assms by (simp add: fs_step_def fs_step_packet_def fs_open_def and_then_def)
qed

lemma fs_loop_sealed_packet:
  assumes E: "ciphers_ok E" "test_kit E = E" and "payload_fits p"
    and "fs_cs_cipher s = Some c" and "cipher_seal E p (c, r) = (Ok wire, (c', r'))"
    and "fs_incoming s = wire @ rest" "fs_phase s \<noteq> AwaitingIdent"
    and "fs_handle E p (s\<lparr>fs_incoming := rest, fs_cs_cipher := Some c'\<rparr>) = (Ok out, s1)"
    and "fs_loop E s1 = (Ok outs, s2)"
  shows "fs_loop E s = (Ok (out @ outs), s2)"
proof (rule fs_loop_next [OF _ assms(9)])
  have "4 \<le> length wire" "peek_total_length E c (take 4 wire) = Ok (length wire)"
    "cipher_open E wire c = (Ok p, c')"
    using cipher_link [OF E(1) assms(3), of c r] assms(5) by auto
  then show "fs_step E s = (Ok (Some out), s1)"
    using assms by (simp add: fs_step_def fs_step_packet_def fs_open_def and_then_def)
qed

text \<open>What the server sends, once its cipher is active.\<close>

lemma fs_seal_sealed:
  assumes "ciphers_ok E" "test_kit E = E" and "fs_sc_cipher s = Some c" and "payload_fits p"
  obtains wire c' r where "fs_seal E p s = (Ok wire, s\<lparr>fs_sc_cipher := Some c', fs_rng := r\<rparr>)"
    and "cipher_seal E p (c, fs_rng s) = (Ok wire, (c', r))"
  using cipher_link [OF assms(1,4), of c "fs_rng s"] assms(2,3) that
  by (metis (mono_tags, lifting) fs_seal_def option.case(2) prod.case)

section \<open>What the two sides rely on\<close>

text \<open>
  The documented behaviour of the crates the handshake needs: the ciphers and encoders, their
  sizes, 32-byte public keys, the Diffie-Hellman property (and that a secret shared with a
  generated key is contributory), an mpint for every byte string; and of a host key, that what it
  signs verifies under its public blob. The random source of both sides is \<open>TestRng\<close>.
\<close>

definition bench_ok :: "u64 crates \<Rightarrow> bool" where
  "bench_ok E \<longleftrightarrow>
     test_kit E = E \<and> ciphers_ok E \<and> encoding_ok E \<and>
     (\<forall>s e. encode_str E s = Some e \<longrightarrow> length e = 4 + length s) \<and>
     (\<forall>b e. encode_bool E b = Some e \<longrightarrow> length e = 1) \<and>
     (\<forall>a. length (x25519_public E a) = 32) \<and>
     (\<forall>a b. x25519_dh E a (x25519_public E b) = x25519_dh E b (x25519_public E a) \<and>
        x25519_contributory E (x25519_dh E a (x25519_public E b))) \<and>
     (\<forall>b. mpint_encode E b \<noteq> None)"

definition signs_ok :: "u64 crates \<Rightarrow> bytes \<Rightarrow> bool" where
  "signs_ok E key \<longleftrightarrow>
     (\<exists>blob. pubkey_to_bytes E (privkey_public E key) = Inr blob \<and> length blob \<le> 1000 \<and>
        (\<forall>m. \<exists>sig wire. privkey_try_sign E key m = Some sig \<and> signature_to_bytes E sig = Inr wire \<and>
           length wire \<le> 1000 \<and> sig_valid E blob m wire))"

lemma bench_laws:
  assumes "bench_ok E"
  shows "test_kit E = E" "ciphers_ok E" "encoding_ok E" "fill_buf E = test_rng_fill"
    "length (x25519_public E a) = 32"
    "x25519_dh E a (x25519_public E b) = x25519_dh E b (x25519_public E a)"
    "x25519_contributory E (x25519_dh E a (x25519_public E b))"
proof -
  show k: "test_kit E = E" and "ciphers_ok E" and "encoding_ok E"
    "length (x25519_public E a) = 32"
    "x25519_dh E a (x25519_public E b) = x25519_dh E b (x25519_public E a)"
    "x25519_contributory E (x25519_dh E a (x25519_public E b))"
    using assms by (auto simp: bench_ok_def)
  show "fill_buf E = test_rng_fill" using fill_buf_test_kit [of E] by (simp add: k)
qed

lemma bench_mpint: "bench_ok E \<Longrightarrow> \<exists>k. encode_mpint E b = Ok k"
  by (auto simp: bench_ok_def encode_mpint_def)

section \<open>The KEXINIT of either side\<close>

text \<open>Both sides offer the same lists, and so agree on the first entry of each.\<close>

definition our_kexinit :: "kex_init \<Rightarrow> bool" where
  "our_kexinit k \<longleftrightarrow> kex_algorithms k = KEX_ALGORITHMS \<and>
     server_host_key_algorithms k = SERVER_HOST_KEY_ALGORITHMS \<and>
     encryption_client_to_server k = ENCRYPTION_ALGORITHMS \<and>
     encryption_server_to_client k = ENCRYPTION_ALGORITHMS"

definition is_kexinit_payload :: "u64 crates \<Rightarrow> bytes \<Rightarrow> bool" where
  "is_kexinit_payload E p \<longleftrightarrow>
     payload_fits p \<and> (\<exists>ps. p = MSG_KEXINIT # ps) \<and> (\<exists>k. kexinit_parse E p = Ok k \<and> our_kexinit k)"

definition our_choice :: negotiated_algorithms where
  "our_choice = \<lparr>neg_kex = lit ''curve25519-sha256'', neg_server_host_key = lit ''ssh-ed25519'',
     neg_encryption_client_to_server = lit ''chacha20-poly1305@openssh.com'',
     neg_encryption_server_to_client = lit ''chacha20-poly1305@openssh.com''\<rparr>"

lemma our_negotiation:
  "our_kexinit k \<Longrightarrow> our_kexinit k' \<Longrightarrow> negotiate_all k k' = Ok our_choice"
  by (simp add: our_kexinit_def negotiate_all_def negotiate_def our_choice_def KEX_ALGORITHMS_def
      SERVER_HOST_KEY_ALGORITHMS_def ENCRYPTION_ALGORITHMS_def)

lemma write_name_list_length:
  "bench_ok E \<Longrightarrow> write_name_list E ns = Ok e \<Longrightarrow> length e = 4 + length (join_with 44 ns)"
  by (simp add: write_name_list_def bench_ok_def)

lemma kexinit_payload:
  assumes "bench_ok E" and "kexinit_ours (fill_buf E) r = (k, r')"
  obtains p where "kexinit_to_payload E k = Ok p" and "is_kexinit_payload E p"
proof -
  have ok: "kexinit_ok k" using kexinit_ours_ok [of E r] assms(2) by simp
  have ours: "our_kexinit k" and len: "length (cookie k) = 16"
    "join_with 44 (mac_client_to_server k) = join_with 44 MAC_ALGORITHMS"
    "join_with 44 (mac_server_to_client k) = join_with 44 MAC_ALGORITHMS"
    "join_with 44 (compression_client_to_server k) = join_with 44 COMPRESSION_ALGORITHMS"
    "join_with 44 (compression_server_to_client k) = join_with 44 COMPRESSION_ALGORITHMS"
    "languages_client_to_server k = []" "languages_server_to_client k = []"
    using assms(2) ok
    by (auto simp: kexinit_ours_def our_kexinit_def kexinit_ok_def split: prod.splits)
  obtain p where p: "kexinit_to_payload E k = Ok p" "kexinit_parse E p = Ok k"
    using kexinit_round_trip [OF bench_laws(3) [OF assms(1)] ok] by blast
  have "payload_fits p" and "\<exists>ps. p = MSG_KEXINIT # ps"
    using p(1) ours len assms(1)
    by (auto simp: kexinit_to_payload_def payload_fits_def MAX_PACKET_LENGTH_def our_kexinit_def
        write_name_list_length [OF assms(1)] bench_ok_def KEX_ALGORITHMS_def
        SERVER_HOST_KEY_ALGORITHMS_def ENCRYPTION_ALGORITHMS_def MAC_ALGORITHMS_def
        COMPRESSION_ALGORITHMS_def)
  with p ours that show thesis by (auto simp: is_kexinit_payload_def)
qed

section \<open>Identification\<close>

definition fresh :: "u64 engine \<Rightarrow> bool" where
  "fresh c \<longleftrightarrow> channels c = table_new \<and> channel_setup c = Map.empty \<and> pending_exec c = Map.empty \<and>
     pending_auth c = None \<and> sc_cipher c = None \<and> cs_cipher c = None \<and> session_id c = None"

definition greeted :: "u64 crates \<Rightarrow> u64 session \<Rightarrow> fake_server \<Rightarrow> bool" where
  "greeted E c s \<longleftrightarrow>
     phase (core c) = KexInProgress \<and> incoming c = [] \<and> events (core c) = [] \<and> fresh (core c) \<and>
     own_ident_line (core c) = fs_peer_ident_line s \<and> peer_ident_line (core c) = fs_own_ident_line s \<and>
     is_kexinit_payload E (own_kexinit_payload (core c)) \<and>
     (\<exists>r r'. seal_plaintext test_rng_fill (own_kexinit_payload (core c)) r = (outgoing (core c), r')) \<and>
     fs_phase s = AwaitingKexInit \<and> fs_incoming s = [] \<and> fs_cs_cipher s = None \<and> fs_sc_cipher s = None \<and>
     signs_ok E (fs_host_key s)"

definition server_line :: bytes where
  "server_line = lit ''SSH-2.0-FakeTestServer_1.0''"

lemma ident_lines_fed:
  "ident_feed (server_line @ [13, 10]) ident_new =
     (Ok 28, \<lparr>scan_buf = [], total_scanned = 28, server_ident = Some server_line\<rparr>)"
  by (simp add: ident_feed_def ident_done_def ident_new_def server_line_def lit_def
      feed_loop.simps MAX_SCAN_BYTES_def Let_def line_of_def starts_with_def validate_version_def
      strip_prefix_def and_then_def)

lemma server_greets:
  assumes "fs_phase s = AwaitingIdent" and "fs_incoming s = []"
  shows "fs_feed E client_ident_line s = (Ok [], s\<lparr>fs_peer_ident_line :=
    take (length client_ident_line - 2) client_ident_line, fs_phase := AwaitingKexInit\<rparr>)"
proof -
  let ?s = "s\<lparr>fs_incoming := client_ident_line\<rparr>"
  let ?t = "s\<lparr>fs_peer_ident_line := take (length client_ident_line - 2) client_ident_line,
    fs_phase := AwaitingKexInit\<rparr>"
  have "fs_step E ?s = (Ok (Some []), ?t)"
    using assms
    by (simp add: fs_step_def fs_step_ident_def client_ident_line_def lit_def line_of_def
        starts_with_def Let_def)
  moreover have "fs_loop E ?t = (Ok [], ?t)"
    using assms by (intro fs_loop_idle) simp_all
  ultimately have "fs_loop E ?s = (Ok ([] @ []), ?t)" by (rule fs_loop_next)
  then show ?thesis using assms by (simp add: fs_feed_def)
qed

lemma client_greets:
  assumes E: "bench_ok E" and c: "core c = (engine_new r)\<lparr>outgoing := []\<rparr>" "incoming c = []"
  shows "\<exists>ip w r1 r2. is_kexinit_payload E ip \<and> seal_plaintext test_rng_fill ip r1 = (w, r2) \<and>
    feed_incoming E (server_line @ [13, 10]) c =
      (Ok (), c\<lparr>core := (core c)\<lparr>ident := \<lparr>scan_buf = [], total_scanned = 28,
        server_ident = Some server_line\<rparr>, peer_ident_line := server_line, phase := KexInProgress,
        rng := r2, own_kexinit_payload := ip, outgoing := w\<rparr>\<rparr>)"
proof -
  obtain k r1 where k: "kexinit_ours (fill_buf E) r = (k, r1)" by fastforce
  obtain ip where ip: "kexinit_to_payload E k = Ok ip" "is_kexinit_payload E ip"
    using kexinit_payload [OF E k] .
  obtain w r2 where w: "seal_plaintext (fill_buf E) ip r1 = (w, r2)" by fastforce
  let ?c = "(core c)\<lparr>ident := \<lparr>scan_buf = [], total_scanned = 28,
        server_ident = Some server_line\<rparr>, peer_ident_line := server_line, phase := KexInProgress,
        rng := r2, own_kexinit_payload := ip, outgoing := w\<rparr>"
  have "length (server_line @ [13, 10]) = 28" by (simp add: server_line_def)
  then have "drive_step E (c\<lparr>incoming := server_line @ [13, 10]\<rparr>) = (Ok True, c\<lparr>core := ?c, incoming := []\<rparr>)"
    using c k ip w ident_lines_fed
    by (simp add: drive_step_def drive_version_exchange_def feed_ident_def engine_new_def
        ident_complete_def send_own_kexinit_def send_plaintext_def on_core_def ident_done_def
        ident_new_def and_then_def)
  moreover have "drive E (c\<lparr>core := ?c, incoming := []\<rparr>) = (Ok (), c\<lparr>core := ?c, incoming := []\<rparr>)"
    by (rule drive_idle) simp_all
  ultimately have "drive E (c\<lparr>incoming := server_line @ [13, 10]\<rparr>) = (Ok (), c\<lparr>core := ?c, incoming := []\<rparr>)"
    using c by (subst drive_progress) (simp_all add: paused_def engine_new_def)
  with w ip c show ?thesis
    by (intro exI [of _ ip] exI [of _ w] exI [of _ r1] exI [of _ r2])
      (simp add: feed_incoming_def bench_laws(4) [OF E])
qed

section \<open>KEXINIT\<close>

lemma server_kexinit:
  assumes E: "bench_ok E" and s: "fs_cs_cipher s = None" "fs_phase s \<noteq> AwaitingIdent" "fs_incoming s = []"
    and ip: "is_kexinit_payload E ip" and w: "seal_plaintext test_rng_fill ip r = (w, r')"
  shows "\<exists>sp w2 r1 r2. is_kexinit_payload E sp \<and> seal_plaintext test_rng_fill sp r1 = (w2, r2) \<and>
    fs_feed E w s = (Ok w2, s\<lparr>fs_peer_kexinit_payload := ip, fs_rng := r2,
      fs_own_kexinit_payload := sp, fs_phase := AwaitingKexEcdhInit\<rparr>)"
proof -
  note fill = bench_laws(4) [OF E]
  obtain k r1 where k: "kexinit_ours (fill_buf E) (fs_rng s) = (k, r1)" by fastforce
  obtain sp where sp: "kexinit_to_payload E k = Ok sp" "is_kexinit_payload E sp"
    using kexinit_payload [OF E k] .
  obtain w2 r2 where w2: "seal_plaintext test_rng_fill sp r1 = (w2, r2)" by fastforce
  let ?t = "s\<lparr>fs_peer_kexinit_payload := ip, fs_rng := r2, fs_own_kexinit_payload := sp,
    fs_phase := AwaitingKexEcdhInit\<rparr>"
  obtain ps where p: "payload_fits ip" "ip = MSG_KEXINIT # ps"
    using ip by (auto simp: is_kexinit_payload_def)
  have h: "fs_handle E ip (s\<lparr>fs_incoming := []\<rparr>) = (Ok w2, ?t\<lparr>fs_incoming := []\<rparr>)"
    using k sp w2 p(2)
    by (simp add: fs_handle_def fs_dispatch_def fs_handle_kexinit_def fs_seal_plaintext_def fill
        and_then_def)
  have l: "fs_loop E (?t\<lparr>fs_incoming := []\<rparr>) = (Ok [], ?t\<lparr>fs_incoming := []\<rparr>)"
    by (rule fs_loop_idle) simp_all
  have "fs_loop E (s\<lparr>fs_incoming := w\<rparr>) = (Ok (w2 @ []), ?t\<lparr>fs_incoming := []\<rparr>)"
    by (rule fs_loop_plain_packet [where F = E and p = ip and rest = "[]", OF p(1) _ _ _ _ _ l])
      (use s w h in \<open>simp_all add: fill\<close>)
  with s sp(2) w2 show ?thesis
    by (intro exI [of _ sp] exI [of _ w2] exI [of _ r1] exI [of _ r2]) (simp add: fs_feed_def)
qed

definition is_keypair :: "u64 crates \<Rightarrow> ephemeral_keypair \<Rightarrow> bool" where
  "is_keypair E kp \<longleftrightarrow> kp_public_bytes kp = x25519_public E (kp_secret kp)"

lemma generated_keypair: "keypair_generate E r = (kp, r') \<Longrightarrow> is_keypair E kp"
  by (auto simp: keypair_generate_def is_keypair_def split: prod.splits)

lemma client_kexinit:
  assumes E: "bench_ok E" and c: "phase (core c) = KexInProgress" "incoming c = []"
    "sc_cipher (core c) = None" "cs_cipher (core c) = None"
    and ip: "is_kexinit_payload E (own_kexinit_payload (core c))"
    and sp: "is_kexinit_payload E sp" and w: "seal_plaintext test_rng_fill sp r = (w, r')"
  shows "\<exists>kp w3 r1 r2. is_keypair E kp \<and>
    seal_plaintext test_rng_fill (ecdh_build_init_message kp) r1 = (w3, r2) \<and>
    feed_incoming E w c = (Ok (), c\<lparr>core := (core c)\<lparr>peer_kexinit_payload := sp, rng := r2,
      active_kex := Some (Curve25519 kp), outgoing := outgoing (core c) @ w3,
      negotiated := Some our_choice\<rparr>\<rparr>)"
proof -
  note fill = bench_laws(4) [OF E]
  obtain kp r1 where kp: "keypair_generate E (rng (core c)) = (kp, r1)" by fastforce
  obtain w3 r2 where w3: "seal_plaintext test_rng_fill (ecdh_build_init_message kp) r1 = (w3, r2)"
    by fastforce
  let ?c = "(core c)\<lparr>peer_kexinit_payload := sp, rng := r2, active_kex := Some (Curve25519 kp),
      outgoing := outgoing (core c) @ w3, negotiated := Some our_choice\<rparr>"
  obtain ps k' where p: "payload_fits sp" "sp = MSG_KEXINIT # ps" "kexinit_parse E sp = Ok k'" "our_kexinit k'"
    using sp by (auto simp: is_kexinit_payload_def)
  obtain k where k: "kexinit_parse E (own_kexinit_payload (core c)) = Ok k" "our_kexinit k"
    using ip by (auto simp: is_kexinit_payload_def)
  have "dispatch E MSG_KEXINIT sp (core c) = (Ok (), ?c)"
    using k p our_negotiation [OF k(2) p(4)] kp w3 c
    by (simp add: dispatch_def msg_codes handle_peer_kexinit_def and_then_def our_choice_def
        with_rng_def send_plaintext_or_ciphered_def send_plaintext_def fill)
  then have "drive E (c\<lparr>incoming := w\<rparr>) = drive E ((c\<lparr>incoming := w\<rparr>)\<lparr>core := ?c, incoming := []\<rparr>)"
    using p(2) w c
    by (intro drive_plain_packet [where F = E and p = sp and t = MSG_KEXINIT and ps = ps, OF p(1)])
      (simp_all add: fill paused_def)
  also have "\<dots> = (Ok (), c\<lparr>core := ?c\<rparr>)"
    using c by (subst drive_idle) simp_all
  finally show ?thesis
    using w3 generated_keypair [OF kp] c
    by (intro exI [of _ kp] exI [of _ w3] exI [of _ r1] exI [of _ r2]) (simp add: feed_incoming_def)
qed

section \<open>The Diffie-Hellman exchange\<close>

lemma ecdh_init_public_built:
  assumes "bench_ok E" and "is_keypair E kp"
  shows "ecdh_init_public (ecdh_build_init_message kp) = Ok (kp_public_bytes kp)"
proof -
  have len: "length (kp_public_bytes kp) = 32"
    using assms bench_laws(5) by (simp add: is_keypair_def)
  then have "reads (and_then read_u8 (\<lambda>_. and_then read_string (\<lambda>q_c.
        if length q_c = 32 then ret q_c else lift_r Panic)))
      (MSG_KEX_ECDH_INIT # write_string (kp_public_bytes kp) @ []) (kp_public_bytes kp) []"
    by (intro reads_and_then [OF reads_u8] reads_and_then [OF reads_string])
      (simp_all add: fits_u32_def reads_ret)
  then have "parse_with (and_then read_u8 (\<lambda>_. and_then read_string (\<lambda>q_c.
        if length q_c = 32 then ret q_c else lift_r Panic)))
      (MSG_KEX_ECDH_INIT # write_string (kp_public_bytes kp)) = Ok (kp_public_bytes kp)"
    by (intro reads_parse_with) simp
  then show ?thesis by (simp add: ecdh_init_public_def ecdh_build_init_message_def)
qed

definition ecdh_reply_message :: "bytes \<Rightarrow> bytes \<Rightarrow> bytes \<Rightarrow> bytes" where
  "ecdh_reply_message blob q_s sg =
     MSG_KEX_ECDH_REPLY # write_string blob @ write_string q_s @ write_string sg"

text \<open>What both sides know after the exchange: the key pairs, the hash and the two ciphers.\<close>

definition agreed ::
    "u64 crates \<Rightarrow> ephemeral_keypair \<Rightarrow> ephemeral_keypair \<Rightarrow> bytes list \<Rightarrow> bytes \<Rightarrow> bytes \<Rightarrow> bytes \<Rightarrow>
     derived_ciphers \<Rightarrow> bool" where
  "agreed E kpc kps transcript blob sg h ciphers \<longleftrightarrow>
     is_keypair E kpc \<and> is_keypair E kps \<and> length blob \<le> 1000 \<and> length sg \<le> 1000 \<and>
     sig_valid E blob h sg \<and>
     (\<exists>K km. K = x25519_dh E (kp_secret kps) (kp_public_bytes kpc) \<and> encode_mpint E K = Ok km \<and>
        ecdh_exchange_hash E (transcript ! 0) (transcript ! 1) (transcript ! 2) (transcript ! 3) blob
          (kp_public_bytes kpc) (kp_public_bytes kps) K = Ok h \<and>
        derive_ciphers E ChaCha20Poly1305OpenSsh km h h = Ok ciphers)"

text \<open>Every step of the exchange the server computes succeeds, and its values are the agreed ones.\<close>

lemma server_computes:
  assumes E: "bench_ok E" and key: "signs_ok E (fs_host_key s)" and kp: "is_keypair E kp"
  obtains kps r1 K km blob h sig sg ciphers where "keypair_generate E (fs_rng s) = (kps, r1)"
    and "ecdh_diffie_hellman E kps (kp_public_bytes kp) = Ok K" and "encode_mpint E K = Ok km"
    and "pubkey_to_bytes E (privkey_public E (fs_host_key s)) = Inr blob"
    and "ecdh_exchange_hash E (fs_peer_ident_line s) (fs_own_ident_line s)
      (fs_peer_kexinit_payload s) (fs_own_kexinit_payload s) blob (kp_public_bytes kp)
      (kp_public_bytes kps) K = Ok h"
    and "privkey_try_sign E (fs_host_key s) h = Some sig" and "signature_to_bytes E sig = Inr sg"
    and "derive_ciphers E ChaCha20Poly1305OpenSsh km h h = Ok ciphers"
    and "agreed E kp kps [fs_peer_ident_line s, fs_own_ident_line s, fs_peer_kexinit_payload s,
      fs_own_kexinit_payload s] blob sg h ciphers"
proof -
  obtain kps r1 where kps: "keypair_generate E (fs_rng s) = (kps, r1)" by fastforce
  then have pair: "is_keypair E kps" by (rule generated_keypair)
  let ?K = "x25519_dh E (kp_secret kps) (kp_public_bytes kp)"
  have K: "ecdh_diffie_hellman E kps (kp_public_bytes kp) = Ok ?K"
    using kp bench_laws(7) [OF E] by (simp add: ecdh_diffie_hellman_def is_keypair_def)
  obtain km where km: "encode_mpint E ?K = Ok km" using bench_mpint [OF E] by blast
  obtain blob where blob: "pubkey_to_bytes E (privkey_public E (fs_host_key s)) = Inr blob"
    "length blob \<le> 1000"
    and sign: "\<And>m. \<exists>sig wire. privkey_try_sign E (fs_host_key s) m = Some sig \<and>
      signature_to_bytes E sig = Inr wire \<and> length wire \<le> 1000 \<and> sig_valid E blob m wire"
    using key unfolding signs_ok_def by blast
  obtain h where h: "ecdh_exchange_hash E (fs_peer_ident_line s) (fs_own_ident_line s)
      (fs_peer_kexinit_payload s) (fs_own_kexinit_payload s) blob (kp_public_bytes kp)
      (kp_public_bytes kps) ?K = Ok h"
    using km by (simp add: ecdh_exchange_hash_def ecdh_transcript_def)
  obtain sig sg where sg: "privkey_try_sign E (fs_host_key s) h = Some sig"
    "signature_to_bytes E sig = Inr sg" "length sg \<le> 1000" "sig_valid E blob h sg"
    using sign by blast
  obtain ciphers where ci: "derive_ciphers E ChaCha20Poly1305OpenSsh km h h = Ok ciphers"
    by (simp add: derive_ciphers_def with_initial_seq_def Let_def)
  have "agreed E kp kps [fs_peer_ident_line s, fs_own_ident_line s, fs_peer_kexinit_payload s,
      fs_own_kexinit_payload s] blob sg h ciphers"
    using kp pair blob sg km h ci by (auto simp: agreed_def)
  with kps K km blob(1) h sg(1,2) ci show thesis by (rule that)
qed

lemma server_exchange:
  assumes E: "bench_ok E" and s: "fs_cs_cipher s = None" "fs_phase s \<noteq> AwaitingIdent" "fs_incoming s = []"
    and key: "signs_ok E (fs_host_key s)" and kp: "is_keypair E kp"
    and w: "seal_plaintext test_rng_fill (ecdh_build_init_message kp) r = (w, r')"
  shows "\<exists>kps blob sg h ciphers w4 w5 r1 r2 r3.
    pubkey_to_bytes E (privkey_public E (fs_host_key s)) = Inr blob \<and>
    agreed E kp kps [fs_peer_ident_line s, fs_own_ident_line s, fs_peer_kexinit_payload s,
      fs_own_kexinit_payload s] blob sg h ciphers \<and>
    seal_plaintext test_rng_fill (ecdh_reply_message blob (kp_public_bytes kps) sg) r1 = (w4, r2) \<and>
    seal_plaintext test_rng_fill [MSG_NEWKEYS] r2 = (w5, r3) \<and>
    fs_feed E w s = (Ok (w4 @ w5), s\<lparr>fs_rng := r3, fs_session_id := h,
      fs_cs_cipher_pending := Some (dc_cs ciphers), fs_phase := AwaitingNewKeys,
      fs_sc_cipher := Some (dc_sc ciphers)\<rparr>)"
proof -
  obtain kps r1 K km blob h sig sg ciphers where v: "keypair_generate E (fs_rng s) = (kps, r1)"
    "ecdh_diffie_hellman E kps (kp_public_bytes kp) = Ok K" "encode_mpint E K = Ok km"
    "pubkey_to_bytes E (privkey_public E (fs_host_key s)) = Inr blob"
    "ecdh_exchange_hash E (fs_peer_ident_line s) (fs_own_ident_line s)
      (fs_peer_kexinit_payload s) (fs_own_kexinit_payload s) blob (kp_public_bytes kp)
      (kp_public_bytes kps) K = Ok h"
    "privkey_try_sign E (fs_host_key s) h = Some sig" "signature_to_bytes E sig = Inr sg"
    "derive_ciphers E ChaCha20Poly1305OpenSsh km h h = Ok ciphers"
    and agreed: "agreed E kp kps [fs_peer_ident_line s, fs_own_ident_line s, fs_peer_kexinit_payload s,
      fs_own_kexinit_payload s] blob sg h ciphers"
    by (rule server_computes [OF E key kp])
  obtain w4 r2 where w4: "seal_plaintext test_rng_fill (ecdh_reply_message blob (kp_public_bytes kps) sg) r1
      = (w4, r2)" by fastforce
  obtain w5 r3 where w5: "seal_plaintext test_rng_fill [MSG_NEWKEYS] r2 = (w5, r3)" by fastforce
  let ?t = "s\<lparr>fs_rng := r3, fs_session_id := h,
      fs_cs_cipher_pending := Some (dc_cs ciphers), fs_phase := AwaitingNewKeys,
      fs_sc_cipher := Some (dc_sc ciphers)\<rparr>"
  have handle: "fs_handle E (ecdh_build_init_message kp) (s\<lparr>fs_incoming := []\<rparr>) =
      (Ok (w4 @ w5), ?t\<lparr>fs_incoming := []\<rparr>)"
    using ecdh_init_public_built [OF E kp] v w4 w5
    by (auto simp: fs_handle_def ecdh_build_init_message_def fs_dispatch_def MSG_KEXINIT_def
        MSG_KEX_ECDH_INIT_def fs_handle_kex_ecdh_init_def and_then_def key_result_def
        fs_seal_plaintext_def ecdh_reply_message_def derive_ciphers_def Let_def
        PLAINTEXT_PACKETS_BEFORE_NEWKEYS_def)
  have fits: "payload_fits (ecdh_build_init_message kp)"
    using kp bench_laws(5) [OF E]
    by (simp add: payload_fits_def ecdh_build_init_message_def is_keypair_def MAX_PACKET_LENGTH_def)
  have l: "fs_loop E (?t\<lparr>fs_incoming := []\<rparr>) = (Ok [], ?t\<lparr>fs_incoming := []\<rparr>)"
    by (rule fs_loop_idle) simp_all
  have "fs_loop E (s\<lparr>fs_incoming := w\<rparr>) = (Ok ((w4 @ w5) @ []), ?t\<lparr>fs_incoming := []\<rparr>)"
    by (rule fs_loop_plain_packet [where F = E and rest = "[]", OF fits _ _ _ _ _ l])
      (use s w handle in \<open>simp_all add: bench_laws(4) [OF E]\<close>)
  then have "fs_feed E w s = (Ok (w4 @ w5), ?t)" using s by (simp add: fs_feed_def)
  with agreed w4 w5 v(4) show ?thesis by blast
qed

end
