(* ===== verification/Interop_Login.thy ===== *)
theory Interop_Login
  imports Interop Channel_Setup
begin

text \<open>
  The second half of the handshake of Interop: the client checks the reply and asks the host, the
  accepted key switches both directions to their ciphers, and from there on every message of
  either side reaches the other (\<open>linked\<close>): the service request, the login and the command.
\<close>

section \<open>The reply reaches the client\<close>

lemma agreed_secret:
  assumes "bench_ok E" and "is_keypair E kpc" and "is_keypair E kps"
  shows "ecdh_diffie_hellman E kpc (kp_public_bytes kps) =
      Ok (x25519_dh E (kp_secret kps) (kp_public_bytes kpc))"
  using assms bench_laws(6,7) [OF assms(1)] by (simp add: ecdh_diffie_hellman_def is_keypair_def)

lemma our_cipher: "cipher_from_name (neg_encryption_client_to_server our_choice) = Some ChaCha20Poly1305OpenSsh"
  using cipher_from_name_name [of ChaCha20Poly1305OpenSsh] by (simp add: our_choice_def)

lemma client_reply:
  assumes E: "bench_ok E" and c: "phase (core c) = KexInProgress" "incoming c = []"
    "sc_cipher (core c) = None" "active_kex (core c) = Some (Curve25519 kp)"
    "negotiated (core c) = Some our_choice" "session_id (core c) = None"
    and ag: "agreed E kp kps [own_ident_line (core c), peer_ident_line (core c),
      own_kexinit_payload (core c), peer_kexinit_payload (core c)] blob sg h ciphers"
    and w: "seal_plaintext test_rng_fill (ecdh_reply_message blob (kp_public_bytes kps) sg) r = (w, r')"
  shows "\<exists>k K. hk_blob k = blob \<and> hostkey_parse E blob = Ok k \<and> feed_incoming E (w @ w') c =
    (Ok (), c\<lparr>core := (core c)\<lparr>active_kex := None, pending_ciphers := Some ciphers,
       session_id := Some h, pending_host_key := Some (k, h, K), phase := AwaitingHostKeyDecision,
       events := events (core c) @ [HostKeyVerify (algorithm_name E k) (fingerprint_sha256 E k) blob]\<rparr>,
     incoming := w'\<rparr>)"
proof -
  note fill = bench_laws(4) [OF E]
  let ?K = "x25519_dh E (kp_secret kps) (kp_public_bytes kp)"
  from ag obtain km where a: "is_keypair E kp" "is_keypair E kps" "length blob \<le> 1000"
      "length sg \<le> 1000" "sig_valid E blob h sg" and km: "encode_mpint E ?K = Ok km"
    and h: "ecdh_exchange_hash E (own_ident_line (core c)) (peer_ident_line (core c))
      (own_kexinit_payload (core c)) (peer_kexinit_payload (core c)) blob (kp_public_bytes kp)
      (kp_public_bytes kps) ?K = Ok h"
    and ci: "derive_ciphers E ChaCha20Poly1305OpenSsh km h h = Ok ciphers"
    by (auto simp: agreed_def)
  have len: "length (kp_public_bytes kps) = 32"
    using a(2) bench_laws(5) [OF E] by (simp add: is_keypair_def)
  let ?m = "ecdh_reply_message blob (kp_public_bytes kps) sg"
  have parse: "ecdh_parse_reply ?m = Ok \<lparr>er_host_key_blob = blob,
      er_server_public = kp_public_bytes kps, er_signature_blob = sg\<rparr>"
    using ecdh_parse_reply_round_trip [of blob "kp_public_bytes kps" sg "[]"] a len
    by (simp add: fits_u32_def ecdh_reply_message_def)
  obtain k where k: "verify_reply E blob sg h = Ok k" "hk_blob k = blob" "hostkey_parse E blob = Ok k"
    using verify_reply_complete [OF a(5)] verify_reply_Ok verify_reply_parsed by blast
  let ?c = "(core c)\<lparr>active_kex := None, pending_ciphers := Some ciphers,
       session_id := Some h, pending_host_key := Some (k, h, ?K), phase := AwaitingHostKeyDecision,
       events := events (core c) @ [HostKeyVerify (algorithm_name E k) (fingerprint_sha256 E k) blob]\<rparr>"
  have "handle_curve25519_reply E ?m (core c) = (Ok (), ?c)"
    using c parse k km h ci agreed_secret [OF E a(1,2)] our_cipher
    by (simp add: handle_curve25519_reply_def on_kex_result_def push_event_def
        ecdh_verify_reply_signature_def)
  then have "dispatch E MSG_KEX_ECDH_REPLY ?m (core c) = (Ok (), ?c)"
    using c by (simp add: dispatch_def msg_codes active_kex_is_curve25519_def)
  moreover have "payload_fits ?m"
    using a len by (simp add: payload_fits_def MAX_PACKET_LENGTH_def ecdh_reply_message_def)
  ultimately have "drive E (c\<lparr>incoming := w @ w'\<rparr>) = drive E ((c\<lparr>incoming := w @ w'\<rparr>)\<lparr>core := ?c, incoming := w'\<rparr>)"
    using w c
    by (intro drive_plain_packet [where F = E and p = ?m and t = MSG_KEX_ECDH_REPLY])
      (simp_all add: fill paused_def ecdh_reply_message_def)
  also have "\<dots> = (Ok (), c\<lparr>core := ?c, incoming := w'\<rparr>)"
    by (subst drive_paused) (simp_all add: paused_def)
  finally show ?thesis using c k(2,3)
    by (intro exI [of _ k] exI [of _ ?K]) (simp add: feed_incoming_def)
qed

section \<open>The host accepts the key\<close>

lemma newkeys_fits: "payload_fits [MSG_NEWKEYS]"
  by (simp add: payload_fits_def MAX_PACKET_LENGTH_def)

lemma seals:
  assumes "bench_ok E" and "payload_fits p"
  obtains wire c' r' where "cipher_seal E p (c, r) = (Ok wire, (c', r'))" and "wire \<noteq> []"
proof -
  obtain wire c' r' where "cipher_seal E p (c, r) = (Ok wire, (c', r'))" "4 \<le> length wire"
    using cipher_link [OF bench_laws(2) [OF assms(1)] assms(2), of c r] by metis
  then show thesis by (intro that) auto
qed

text \<open>NEWKEYS in plaintext, then the service request under the new cipher; the client then takes the
  NEWKEYS of the server from its buffer.\<close>

lemma client_accepts:
  assumes E: "bench_ok E" and c: "phase (core c) = AwaitingHostKeyDecision"
    "pending_ciphers (core c) = Some ciphers" "sc_cipher (core c) = None" "outgoing (core c) = []"
    and w: "incoming c = w" "seal_plaintext test_rng_fill [MSG_NEWKEYS] r0 = (w, r0')"
  shows "\<exists>nk wire a r1 r2 r3. seal_plaintext test_rng_fill [MSG_NEWKEYS] r1 = (nk, r2) \<and>
    cipher_seal E (build_service_request SERVICE_USERAUTH) (dc_cs ciphers, r2) = (Ok wire, (a, r3)) \<and>
    provide_host_key_decision E True c = (Ok (), c\<lparr>core := (core c)\<lparr>pending_host_key := None,
      rng := r3, outgoing := nk @ wire, pending_ciphers := None, cs_cipher := Some a,
      pending_sc_cipher := None, sc_cipher := Some (dc_sc ciphers), phase := ServiceRequest\<rparr>,
      incoming := []\<rparr>)"
proof -
  note fill = bench_laws(4) [OF E]
  obtain nk r2 where nk: "seal_plaintext test_rng_fill [MSG_NEWKEYS] (rng (core c)) = (nk, r2)"
    by fastforce
  obtain wire a r3 where seal: "cipher_seal E (build_service_request SERVICE_USERAUTH)
      (dc_cs ciphers, r2) = (Ok wire, (a, r3))"
    using seals [OF E service_request_fits] .
  let ?c = "(core c)\<lparr>pending_host_key := None, rng := r3, outgoing := nk @ wire,
      pending_ciphers := None, cs_cipher := Some a, pending_sc_cipher := Some (dc_sc ciphers),
      phase := ServiceRequest\<rparr>"
  let ?d = "?c\<lparr>pending_sc_cipher := None, sc_cipher := Some (dc_sc ciphers)\<rparr>"
  have accept: "accept_host_key E (core c) = (Ok (), ?c)"
    using c nk seal
    by (simp add: accept_host_key_def send_plaintext_def fill set_phase_def send_ciphered_def
        and_then_def)
  have "dispatch E MSG_NEWKEYS [MSG_NEWKEYS] ?c = (Ok (), ?d)"
    by (simp add: dispatch_def msg_codes handle_newkeys_def)
  then have "drive E (c\<lparr>core := ?c\<rparr>) = drive E ((c\<lparr>core := ?c\<rparr>)\<lparr>core := ?d, incoming := []\<rparr>)"
    using w c newkeys_fits
    by (intro drive_plain_packet [where F = E and p = "[MSG_NEWKEYS]" and t = MSG_NEWKEYS])
      (simp_all add: fill paused_def)
  also have "\<dots> = (Ok (), c\<lparr>core := ?d, incoming := []\<rparr>)"
    by (subst drive_idle) simp_all
  finally have "provide_host_key_decision E True c = (Ok (), c\<lparr>core := ?d, incoming := []\<rparr>)"
    using c accept by (simp add: provide_host_key_decision_def on_core_def and_then_def)
  with nk seal show ?thesis
    by (intro exI [of _ nk] exI [of _ wire] exI [of _ a] exI [of _ "rng (core c)"] exI [of _ r2]
        exI [of _ r3]) simp
qed

section \<open>Both directions are linked\<close>

text \<open>Each direction has one cipher state, held by both ends; nothing is in flight.\<close>

definition linked :: "u64 session \<Rightarrow> fake_server \<Rightarrow> bool" where
  "linked c s \<longleftrightarrow>
     incoming c = [] \<and> fs_incoming s = [] \<and> fs_phase s \<noteq> AwaitingIdent \<and>
     cs_cipher (core c) \<noteq> None \<and> fs_cs_cipher s = cs_cipher (core c) \<and>
     sc_cipher (core c) \<noteq> None \<and> fs_sc_cipher s = sc_cipher (core c) \<and>
     session_id (core c) = Some (fs_session_id s)"

lemma fs_seals:
  assumes E: "bench_ok E" and "fs_sc_cipher s = Some b" and "payload_fits p"
  obtains wire b' r where "fs_seal E p s = (Ok wire, s\<lparr>fs_sc_cipher := Some b', fs_rng := r\<rparr>)"
    and "cipher_seal E p (b, fs_rng s) = (Ok wire, (b', r))" and "wire \<noteq> []"
proof -
  obtain wire b' r where "cipher_seal E p (b, fs_rng s) = (Ok wire, (b', r))" "wire \<noteq> []"
    using seals [OF E assms(3)] .
  then show thesis using that assms(2) bench_laws(1) [OF E] by (simp add: fs_seal_def)
qed

lemma server_serves:
  assumes E: "bench_ok E" and s: "fs_cs_cipher s = None" "fs_incoming s = []" "fs_phase s = AwaitingNewKeys"
    "fs_cs_cipher_pending s = Some a" "fs_sc_cipher s = Some b"
    and nk: "seal_plaintext test_rng_fill [MSG_NEWKEYS] r1 = (nk, r2)"
    and w: "cipher_seal E (build_service_request SERVICE_USERAUTH) (a, r2) = (Ok wire, (a', r3))"
  shows "\<exists>reply b' r. cipher_seal E (MSG_SERVICE_ACCEPT # write_string SERVICE_USERAUTH) (b, fs_rng s)
      = (Ok reply, (b', r)) \<and> reply \<noteq> [] \<and>
    fs_feed E (nk @ wire) s = (Ok reply, s\<lparr>fs_cs_cipher := Some a', fs_cs_cipher_pending := None,
      fs_phase := AwaitingUserAuth, fs_sc_cipher := Some b', fs_rng := r\<rparr>)"
proof -
  note fill = bench_laws(4) [OF E]
  let ?p = "MSG_SERVICE_ACCEPT # write_string SERVICE_USERAUTH"
  let ?m = "build_service_request SERVICE_USERAUTH"
  have "payload_fits ?p" by (simp add: payload_fits_def MAX_PACKET_LENGTH_def SERVICE_USERAUTH_def)
  then obtain reply b' r where seal: "cipher_seal E ?p (b, fs_rng s) = (Ok reply, (b', r))" "reply \<noteq> []"
    using seals [OF E] by blast
  let ?s1 = "s\<lparr>fs_incoming := wire, fs_cs_cipher := Some a, fs_cs_cipher_pending := None\<rparr>"
  let ?s2 = "s\<lparr>fs_cs_cipher := Some a', fs_cs_cipher_pending := None,
      fs_phase := AwaitingUserAuth, fs_sc_cipher := Some b', fs_rng := r\<rparr>"
  have first: "fs_handle E [MSG_NEWKEYS] (s\<lparr>fs_incoming := wire\<rparr>) = (Ok [], ?s1)"
    using s by (simp add: fs_handle_def fs_dispatch_def MSG_NEWKEYS_def MSG_KEXINIT_def MSG_KEX_ECDH_INIT_def)
  have "reads (and_then read_u8 (\<lambda>_. read_utf8_string))
      (MSG_SERVICE_REQUEST # write_string SERVICE_USERAUTH @ []) SERVICE_USERAUTH []"
    by (intro reads_and_then [OF reads_u8] reads_utf8_string)
      (simp_all add: fits_u32_def SERVICE_USERAUTH_def utf8_valid_lit_ascii)
  then have "parse_with (and_then read_u8 (\<lambda>_. read_utf8_string)) ?m = Ok SERVICE_USERAUTH"
    by (intro reads_parse_with) (simp add: build_service_request_def)
  then have handle: "fs_handle E ?m (?s1\<lparr>fs_incoming := [], fs_cs_cipher := Some a'\<rparr>) = (Ok reply, ?s2)"
    using s seal bench_laws(1) [OF E]
    by (simp add: fs_handle_def fs_dispatch_def fs_handle_service_request_def MSG_NEWKEYS_def
        MSG_KEXINIT_def MSG_KEX_ECDH_INIT_def MSG_SERVICE_REQUEST_def fs_seal_def SERVICE_USERAUTH_def
        build_service_request_def)
  have idle: "fs_loop E ?s2 = (Ok [], ?s2)" using s by (intro fs_loop_idle) simp_all
  have rest: "fs_loop E ?s1 = (Ok (reply @ []), ?s2)"
    by (rule fs_loop_sealed_packet [OF bench_laws(2,1) [OF E] service_request_fits _ w _ _ handle idle])
      (use s in simp_all)
  have "fs_loop E (s\<lparr>fs_incoming := nk @ wire\<rparr>) = (Ok ([] @ (reply @ [])), ?s2)"
    by (rule fs_loop_plain_packet [where F = E, OF newkeys_fits _ _ _ _ _ rest])
      (use s nk first in \<open>simp_all add: fill\<close>)
  with seal s show ?thesis by (intro exI [of _ reply] exI [of _ b'] exI [of _ r]) (simp add: fs_feed_def)
qed

section \<open>One message, once linked\<close>

text \<open>The one message \<open>m\<close> of the client is on its way, and nothing else.\<close>

definition in_flight :: "u64 crates \<Rightarrow> bytes \<Rightarrow> u64 session \<Rightarrow> fake_server \<Rightarrow> bool" where
  "in_flight E m c s \<longleftrightarrow>
     linked c (s\<lparr>fs_cs_cipher := cs_cipher (core c)\<rparr>) \<and> payload_fits m \<and>
     outgoing (core c) \<noteq> [] \<and>
     (\<exists>a a' r r'. fs_cs_cipher s = Some a \<and> cs_cipher (core c) = Some a' \<and>
        cipher_seal E m (a, r) = (Ok (outgoing (core c)), (a', r')))"

lemma server_hears:
  assumes E: "bench_ok E" and f: "in_flight E m c s"
    and h: "fs_handle E m (s\<lparr>fs_cs_cipher := cs_cipher (core c)\<rparr>) = (Ok out, s1)"
    and p: "fs_phase s1 \<noteq> AwaitingIdent"
  shows "fs_feed E (outgoing (core c)) s = (Ok out, s1)"
proof -
  from f obtain a a' r r' where a: "fs_cs_cipher s = Some a" "cs_cipher (core c) = Some a'"
    and w: "cipher_seal E m (a, r) = (Ok (outgoing (core c)), (a', r'))" and fits: "payload_fits m"
    and i: "fs_incoming s = []" "fs_phase s \<noteq> AwaitingIdent"
    by (auto simp: in_flight_def linked_def)
  have "s\<lparr>fs_incoming := []\<rparr> = s" using i by simp
  then have h': "fs_handle E m ((s\<lparr>fs_incoming := []\<rparr>)\<lparr>fs_cs_cipher := Some a'\<rparr>) = (Ok out, s1)"
    using h a by (simp only:)
  have "fs_incoming s1 = []"
    using triple_Ok [OF fs_handle_incoming _ h, of "[]"] i by simp
  then have "fs_loop E s1 = (Ok [], s1)" using p by (rule fs_loop_idle)
  then have "fs_loop E (s\<lparr>fs_incoming := outgoing (core c)\<rparr>) = (Ok (out @ []), s1)"
    using h' by (intro fs_loop_sealed_packet [OF bench_laws(2,1) [OF E] fits _ w])
      (simp_all add: i a)
  with i show ?thesis by (simp add: fs_feed_def)
qed

lemma client_hears:
  assumes E: "bench_ok E" and "sc_cipher (core c) = Some b" and "payload_fits m"
    and w: "cipher_seal E m (b, r) = (Ok wire, (b', r'))" and m: "m = t # ms"
    and "\<not> paused (core c)" "phase (core c) \<noteq> VersionExchange"
    and "dispatch E t m ((core c)\<lparr>sc_cipher := Some b'\<rparr>) = (Ok (), d)"
  shows "drive E (c\<lparr>incoming := wire @ rest\<rparr>) = drive E (c\<lparr>core := d, incoming := rest\<rparr>)"
  by (subst drive_sealed_packet [OF bench_laws(2) [OF E] assms(3) m _ w]) (use assms in simp_all)

lemma client_done:
  assumes "phase d \<noteq> VersionExchange"
  shows "drive E (c\<lparr>core := d, incoming := []\<rparr>) = (Ok (), c\<lparr>core := d, incoming := []\<rparr>)"
  using assms by (intro drive_idle) simp_all

lemma client_hears_one:
  assumes E: "bench_ok E" and "sc_cipher (core c) = Some b" and "payload_fits m"
    and w: "cipher_seal E m (b, r) = (Ok wire, (b', r'))" and m: "m = t # ms"
    and c: "\<not> paused (core c)" "phase (core c) \<noteq> VersionExchange" "incoming c = []"
    and d: "dispatch E t m ((core c)\<lparr>sc_cipher := Some b'\<rparr>) = (Ok (), d)" "phase d \<noteq> VersionExchange"
  shows "feed_incoming E wire c = (Ok (), c\<lparr>core := d\<rparr>)"
proof -
  have "drive E (c\<lparr>incoming := wire @ []\<rparr>) = drive E (c\<lparr>core := d, incoming := []\<rparr>)"
    by (rule client_hears [OF E assms(2-5) c(1,2) d(1)])
  also have "\<dots> = (Ok (), c\<lparr>core := d, incoming := []\<rparr>)" by (rule client_done [OF d(2)])
  finally show ?thesis using c by (simp add: feed_incoming_def)
qed

text \<open>What the client sends under its cipher is on its way.\<close>

lemmas client_sends = sealed_send [OF bench_laws(2)]

lemma sent_in_flight:
  assumes "fs_incoming s = []" "fs_phase s \<noteq> AwaitingIdent" "incoming c = []"
    and "sc_cipher (core c) \<noteq> None" "fs_sc_cipher s = sc_cipher (core c)"
    and "session_id (core c) = Some (fs_session_id s)"
    and "fs_cs_cipher s = Some a" "cs_cipher (core c) = Some a'" "payload_fits m" "wire \<noteq> []"
    and "cipher_seal E m (a, r) = (Ok wire, (a', r'))" "outgoing (core c) = wire"
  shows "in_flight E m c s"
  using assms by (auto simp: in_flight_def linked_def)

section \<open>Login with a password\<close>

lemma reads_utf8_end: "fits_u32 d \<Longrightarrow> utf8_valid d \<Longrightarrow> reads read_utf8_string (write_string d) d []"
  using reads_utf8_string [of d "[]"] by simp

lemma read_password:
  assumes "length user \<le> 1000" "length password \<le> 1000" "utf8_valid user" "utf8_valid password"
  shows "parse_with read_auth_request (password_build_request user password) =
    Ok (user, TriesPassword password)"
proof -
  have "reads read_auth_request (password_build_request user password @ []) (user, TriesPassword password) []"
    unfolding read_auth_request_def password_build_request_def write_request_prefix_def append_Cons append_assoc
    using assms
    by (intro reads_and_then [OF reads_u8] reads_and_then [OF reads_utf8_string]
        reads_and_then [of "read_attempt _"] reads_ret)
      (auto simp: fits_u32_def SERVICE_CONNECTION_def utf8_valid_lit_ascii read_attempt_def
        intro!: reads_and_then [OF reads_bool] reads_and_then [OF reads_utf8_end] reads_ret)
  then show ?thesis by (intro reads_parse_with) simp
qed

text \<open>The reply of the server to either kind of attempt, as a list of payloads.\<close>

definition auth_replies :: "bool \<Rightarrow> bool \<Rightarrow> bytes list" where
  "auth_replies ok g =
     (if ok then
        [[MSG_USERAUTH_SUCCESS]] @
        (if g then [80 # write_string (lit ''test-global-request@example.com'') @ write_bool True] else [])
      else [MSG_USERAUTH_FAILURE # write_string (lit ''password,publickey'') @ write_bool False])"

lemma auth_replies_fit: "\<forall>m \<in> set (auth_replies ok g). payload_fits m"
  by (auto simp: auth_replies_def write_bool_def intro!: small_fits)

text \<open>The reply of the server, and what the client makes of it.\<close>

lemma server_refuses:
  assumes E: "bench_ok E" and "fs_sc_cipher s = Some b"
  obtains w b' r where "fs_auth_reply E False s = (Ok w, s\<lparr>fs_sc_cipher := Some b', fs_rng := r\<rparr>)"
    and "cipher_seal E (MSG_USERAUTH_FAILURE # write_string (lit ''password,publickey'') @
        write_bool False) (b, fs_rng s) = (Ok w, (b', r))" and "w \<noteq> []"
proof -
  have "payload_fits (MSG_USERAUTH_FAILURE # write_string (lit ''password,publickey'') @ write_bool False)"
    by (rule small_fits) (simp add: write_bool_def)
  then show thesis
    by (rule fs_seals [OF assms]) (rule that, simp_all add: fs_auth_reply_def)
qed

lemma failure_methods:
  "parse_userauth_failure (MSG_USERAUTH_FAILURE # write_string (lit ''password,publickey'') @ write_bool False)
     = Ok \<lparr>af_remaining_methods = [lit ''password'', lit ''publickey''], af_partial_success = False\<rparr>"
proof -
  have "join_with 44 [lit ''password'', lit ''publickey''] = lit ''password,publickey''"
    by (simp add: lit_def)
  then show ?thesis
    using parse_userauth_failure_round_trip [of "[lit ''password'', lit ''publickey'']" False "[]"]
    by (simp add: fits_u32_def utf8_valid_lit_ascii) (simp add: lit_def)
qed

lemma server_welcomes:
  assumes E: "bench_ok E" and "fs_sc_cipher s = Some b"
  obtains w b' r where "fs_seal E [MSG_USERAUTH_SUCCESS] s = (Ok w, s\<lparr>fs_sc_cipher := Some b', fs_rng := r\<rparr>)"
    and "cipher_seal E [MSG_USERAUTH_SUCCESS] (b, fs_rng s) = (Ok w, (b', r))" and "w \<noteq> []"
  by (rule fs_seals [OF assms, of "[MSG_USERAUTH_SUCCESS]"]) (simp add: small_fits, rule that)

text \<open>The parts of the server a login does not change.\<close>

definition same_account :: "fake_server \<Rightarrow> fake_server \<Rightarrow> bool" where
  "same_account s s' \<longleftrightarrow> fs_username s' = fs_username s \<and> fs_password s' = fs_password s \<and>
     fs_default_exec_output s' = fs_default_exec_output s \<and>
     fs_last_exec_command s' = fs_last_exec_command s \<and>
     fs_send_global_request s' = fs_send_global_request s \<and> fs_session_id s' = fs_session_id s"

definition keeps_channels :: "'r engine \<Rightarrow> 'r engine \<Rightarrow> bool" where
  "keeps_channels c c' \<longleftrightarrow> channels c' = channels c \<and> channel_setup c' = channel_setup c \<and>
     pending_exec c' = pending_exec c \<and> pending_pty c' = pending_pty c"

lemma refused_round:
  assumes E: "bench_ok E" and f: "in_flight E m c s" and c: "phase (core c) = UserAuth"
    and h: "\<And>t. fs_username t = fs_username s \<Longrightarrow> fs_password t = fs_password s \<Longrightarrow>
      fs_session_id t = fs_session_id s \<Longrightarrow> fs_handle E m t = fs_auth_reply E False t"
  shows "\<exists>c' s'. pump E (Suc (Suc n)) (c, s) = Some (c', s') \<and> linked c' s' \<and>
    outgoing (core c') = [] \<and> phase (core c') = UserAuth \<and> keeps_channels (core c) (core c') \<and>
    same_account s s' \<and>
    events (core c') = events (core c) @ [AuthFailure [lit ''password'', lit ''publickey'']]"
proof -
  let ?t = "s\<lparr>fs_cs_cipher := cs_cipher (core c)\<rparr>" and ?e = "AuthFailure [lit ''password'', lit ''publickey'']"
  let ?p = "MSG_USERAUTH_FAILURE # write_string (lit ''password,publickey'') @ write_bool False"
  from f have l: "linked c ?t" and out: "outgoing (core c) \<noteq> []" by (simp_all add: in_flight_def)
  then obtain b where b: "fs_sc_cipher ?t = Some b" "sc_cipher (core c) = Some b" "incoming c = []"
    by (auto simp: linked_def)
  obtain w b' r where r: "fs_auth_reply E False ?t = (Ok w, ?t\<lparr>fs_sc_cipher := Some b', fs_rng := r\<rparr>)"
    and w: "cipher_seal E ?p (b, fs_rng ?t) = (Ok w, (b', r))" and "w \<noteq> []"
    using server_refuses [OF E b(1)] .
  let ?s = "?t\<lparr>fs_sc_cipher := Some b', fs_rng := r\<rparr>"
  have feed: "fs_feed E (outgoing (core c)) s = (Ok w, ?s)"
    using h r l by (intro server_hears [OF E f]) (simp_all add: linked_def)
  let ?c = "c\<lparr>core := (core c)\<lparr>outgoing := []\<rparr>\<rparr>"
  let ?d = "(core ?c)\<lparr>sc_cipher := Some b', pending_auth := None, events := events (core c) @ [?e]\<rparr>"
  have "dispatch E MSG_USERAUTH_FAILURE ?p ((core ?c)\<lparr>sc_cipher := Some b'\<rparr>) = (Ok (), ?d)"
    by (simp add: dispatch_def msg_codes handle_userauth_failure_def push_event_def
        failure_methods [unfolded MSG_USERAUTH_FAILURE_def])
  then have "feed_incoming E w ?c = (Ok (), ?c\<lparr>core := ?d\<rparr>)"
    using b c by (intro client_hears_one [OF E _ _ w refl])
      (auto simp: paused_def write_bool_def intro!: small_fits)
  then have "pump E (Suc (Suc n)) (c, s) = pump E (Suc n) (?c\<lparr>core := ?d\<rparr>, ?s)"
    using feed out \<open>w \<noteq> []\<close> by (intro pump_round [OF refl])
  also have "\<dots> = Some (?c\<lparr>core := ?d\<rparr>, ?s)" by (rule pump_settled) simp
  finally show ?thesis
    using l c b by (intro exI [of _ "?c\<lparr>core := ?d\<rparr>"] exI [of _ ?s])
      (simp add: linked_def keeps_channels_def same_account_def)
qed

definition logged_in :: "u64 session \<Rightarrow> u64 session \<Rightarrow> fake_server \<Rightarrow> fake_server \<Rightarrow> bool" where
  "logged_in c c' s s' \<longleftrightarrow> linked c' s' \<and> outgoing (core c') = [] \<and> phase (core c') = Connected \<and>
     keeps_channels (core c) (core c') \<and> same_account s s' \<and>
     events (core c') = events (core c) @ [AuthSuccess]"

lemma client_welcomed:
  assumes E: "bench_ok E" and "phase c = UserAuth"
  shows "dispatch E MSG_USERAUTH_SUCCESS [MSG_USERAUTH_SUCCESS] c =
    (Ok (), c\<lparr>pending_auth := None, phase := Connected, events := events c @ [AuthSuccess]\<rparr>)"
  by (simp add: dispatch_def msg_codes handle_userauth_success_def push_event_def set_phase_def)

lemma welcomed_round:
  assumes E: "bench_ok E" and f: "in_flight E m c s" and c: "phase (core c) = UserAuth"
    and g: "\<not> fs_send_global_request s"
    and h: "\<And>t. fs_username t = fs_username s \<Longrightarrow> fs_password t = fs_password s \<Longrightarrow>
      fs_session_id t = fs_session_id s \<Longrightarrow> fs_handle E m t = fs_auth_reply E True t"
  shows "\<exists>c' s'. pump E (Suc (Suc n)) (c, s) = Some (c', s') \<and> logged_in c c' s s'"
proof -
  let ?t = "s\<lparr>fs_cs_cipher := cs_cipher (core c)\<rparr>" and ?p = "[MSG_USERAUTH_SUCCESS]"
  from f have l: "linked c ?t" and out: "outgoing (core c) \<noteq> []" by (simp_all add: in_flight_def)
  then obtain b where b: "fs_sc_cipher ?t = Some b" "sc_cipher (core c) = Some b" "incoming c = []"
    by (auto simp: linked_def)
  obtain w b' r where r: "fs_seal E ?p ?t = (Ok w, ?t\<lparr>fs_sc_cipher := Some b', fs_rng := r\<rparr>)"
    and w: "cipher_seal E ?p (b, fs_rng ?t) = (Ok w, (b', r))" and "w \<noteq> []"
    using server_welcomes [OF E b(1)] .
  let ?s = "?t\<lparr>fs_sc_cipher := Some b', fs_rng := r\<rparr>"
  have "fs_handle E m ?t = (Ok w, ?s)" using h g r by (simp add: fs_auth_reply_def and_then_def)
  then have feed: "fs_feed E (outgoing (core c)) s = (Ok w, ?s)"
    using l by (intro server_hears [OF E f]) (simp_all add: linked_def)
  let ?c = "c\<lparr>core := (core c)\<lparr>outgoing := []\<rparr>\<rparr>"
  let ?d = "(core ?c)\<lparr>sc_cipher := Some b', pending_auth := None, phase := Connected,
      events := events (core c) @ [AuthSuccess]\<rparr>"
  have "dispatch E MSG_USERAUTH_SUCCESS ?p ((core ?c)\<lparr>sc_cipher := Some b'\<rparr>) = (Ok (), ?d)"
    using client_welcomed [OF E, of "(core ?c)\<lparr>sc_cipher := Some b'\<rparr>"] c by simp
  then have "feed_incoming E w ?c = (Ok (), ?c\<lparr>core := ?d\<rparr>)"
    using b c by (intro client_hears_one [OF E _ _ w refl])
      (auto simp: paused_def intro!: small_fits)
  then have "pump E (Suc (Suc n)) (c, s) = pump E (Suc n) (?c\<lparr>core := ?d\<rparr>, ?s)"
    using feed out \<open>w \<noteq> []\<close> by (intro pump_round [OF refl])
  also have "\<dots> = Some (?c\<lparr>core := ?d\<rparr>, ?s)" by (rule pump_settled) simp
  finally show ?thesis
    using l c b by (intro exI [of _ "?c\<lparr>core := ?d\<rparr>"] exI [of _ ?s])
      (simp add: linked_def keeps_channels_def same_account_def logged_in_def)
qed

text \<open>
  With the unprompted global request after the success, which the client answers with
  REQUEST_FAILURE, and the server ignores.
\<close>

definition global_request :: bytes where
  "global_request = 80 # write_string (lit ''test-global-request@example.com'') @ write_bool True"

lemma client_declines:
  assumes "bench_ok E" and "cs_cipher c = Some a"
  obtains wire a' r where "cipher_seal E [MSG_REQUEST_FAILURE] (a, rng c) = (Ok wire, (a', r))"
    and "wire \<noteq> []" and "dispatch E 80 global_request c =
      (Ok (), c\<lparr>cs_cipher := Some a', rng := r, outgoing := outgoing c @ wire\<rparr>)"
proof -
  have "reads (and_then read_u8 (\<lambda>_. and_then read_string (\<lambda>_. read_bool))) (global_request @ []) True []"
    unfolding global_request_def append_Cons append_assoc
    by (intro reads_and_then [OF reads_u8] reads_and_then [OF reads_string] reads_bool)
      (simp add: fits_u32_def)
  then have p: "parse_with (and_then read_u8 (\<lambda>_. and_then read_string (\<lambda>_. read_bool))) global_request = Ok True"
    by (intro reads_parse_with) simp
  have "payload_fits [MSG_REQUEST_FAILURE]" by (simp add: small_fits)
  then show thesis
    by (rule client_sends [OF assms])
      (rule that, simp_all add: dispatch_def msg_codes handle_global_request_def p)
qed

lemma server_ignores:
  assumes E: "bench_ok E" and f: "in_flight E [MSG_REQUEST_FAILURE] c s"
  shows "pump E (Suc (Suc n)) (c, s) =
    Some (c\<lparr>core := (core c)\<lparr>outgoing := []\<rparr>\<rparr>, s\<lparr>fs_cs_cipher := cs_cipher (core c)\<rparr>)"
proof -
  let ?t = "s\<lparr>fs_cs_cipher := cs_cipher (core c)\<rparr>"
  have "fs_handle E [MSG_REQUEST_FAILURE] ?t = (Ok [], ?t)"
    by (simp add: fs_handle_def fs_dispatch_def MSG_REQUEST_FAILURE_def MSG_KEXINIT_def
        MSG_KEX_ECDH_INIT_def MSG_NEWKEYS_def MSG_SERVICE_REQUEST_def MSG_USERAUTH_REQUEST_def
        MSG_CHANNEL_OPEN_def MSG_CHANNEL_REQUEST_def)
  moreover have "fs_phase s \<noteq> AwaitingIdent" "outgoing (core c) \<noteq> []"
    using f by (auto simp: in_flight_def linked_def)
  ultimately have "pump E (Suc (Suc n)) (c, s) = pump E (Suc n) (c\<lparr>core := (core c)\<lparr>outgoing := []\<rparr>\<rparr>, ?t)"
    by (intro pump_quiet [OF refl] server_hears [OF E f]) simp_all
  then show ?thesis by (simp add: pump_settled)
qed

lemma welcomed_with_request_round:
  assumes E: "bench_ok E" and f: "in_flight E m c s" and c: "phase (core c) = UserAuth"
    and g: "fs_send_global_request s"
    and h: "\<And>t. fs_username t = fs_username s \<Longrightarrow> fs_password t = fs_password s \<Longrightarrow>
      fs_session_id t = fs_session_id s \<Longrightarrow> fs_handle E m t = fs_auth_reply E True t"
  shows "\<exists>c' s'. pump E (Suc (Suc (Suc n))) (c, s) = Some (c', s') \<and> logged_in c c' s s'"
proof -
  let ?t = "s\<lparr>fs_cs_cipher := cs_cipher (core c)\<rparr>" and ?p = "[MSG_USERAUTH_SUCCESS]"
  from f have l: "linked c ?t" and out: "outgoing (core c) \<noteq> []" by (simp_all add: in_flight_def)
  then obtain a b where b: "fs_sc_cipher ?t = Some b" "sc_cipher (core c) = Some b" "incoming c = []"
    and a: "cs_cipher (core c) = Some a"
    by (auto simp: linked_def)
  obtain w b' r where r: "fs_seal E ?p ?t = (Ok w, ?t\<lparr>fs_sc_cipher := Some b', fs_rng := r\<rparr>)"
    and w: "cipher_seal E ?p (b, fs_rng ?t) = (Ok w, (b', r))" and "w \<noteq> []"
    using server_welcomes [OF E b(1)] .
  let ?s = "?t\<lparr>fs_sc_cipher := Some b', fs_rng := r\<rparr>"
  have fits: "payload_fits global_request" by (simp add: global_request_def write_bool_def small_fits)
  obtain w2 b2 r2 where r2: "fs_seal E global_request ?s = (Ok w2, ?s\<lparr>fs_sc_cipher := Some b2, fs_rng := r2\<rparr>)"
    and w2: "cipher_seal E global_request (b', fs_rng ?s) = (Ok w2, (b2, r2))"
    by (rule fs_seals [OF E _ fits, of ?s b']) simp_all
  let ?s2 = "?s\<lparr>fs_sc_cipher := Some b2, fs_rng := r2\<rparr>"
  have "fs_handle E m ?t = (Ok (w @ w2), ?s2)"
    using h g r r2 by (simp add: fs_auth_reply_def and_then_def global_request_def)
  then have feed: "fs_feed E (outgoing (core c)) s = (Ok (w @ w2), ?s2)"
    using l by (intro server_hears [OF E f]) (simp_all add: linked_def)
  let ?c = "c\<lparr>core := (core c)\<lparr>outgoing := []\<rparr>\<rparr>"
  let ?d = "(core ?c)\<lparr>sc_cipher := Some b', pending_auth := None, phase := Connected,
      events := events (core c) @ [AuthSuccess]\<rparr>"
  have "dispatch E MSG_USERAUTH_SUCCESS ?p ((core ?c)\<lparr>sc_cipher := Some b'\<rparr>) = (Ok (), ?d)"
    using client_welcomed [OF E, of "(core ?c)\<lparr>sc_cipher := Some b'\<rparr>"] c by simp
  then have d1: "drive E (?c\<lparr>incoming := w @ w2\<rparr>) = drive E (?c\<lparr>core := ?d, incoming := w2\<rparr>)"
    using b c by (intro client_hears [OF E _ _ w refl])
      (auto simp: paused_def intro!: small_fits)
  obtain wire a' r3 where seal: "cipher_seal E [MSG_REQUEST_FAILURE] (a, rng ?d) = (Ok wire, (a', r3))"
    and "wire \<noteq> []" and d: "dispatch E 80 global_request (?d\<lparr>sc_cipher := Some b2\<rparr>) =
      (Ok (), ?d\<lparr>sc_cipher := Some b2, cs_cipher := Some a', rng := r3, outgoing := wire\<rparr>)"
    by (rule client_declines [OF E, of "?d\<lparr>sc_cipher := Some b2\<rparr>" a]) (simp_all add: a)
  let ?d2 = "?d\<lparr>sc_cipher := Some b2, cs_cipher := Some a', rng := r3, outgoing := wire\<rparr>"
  have "drive E ((?c\<lparr>core := ?d\<rparr>)\<lparr>incoming := w2 @ []\<rparr>) =
      drive E ((?c\<lparr>core := ?d\<rparr>)\<lparr>core := ?d2, incoming := []\<rparr>)"
    using d by (intro client_hears [OF E _ fits w2 global_request_def]) (simp_all add: paused_def)
  also have "\<dots> = (Ok (), (?c\<lparr>core := ?d\<rparr>)\<lparr>core := ?d2, incoming := []\<rparr>)"
    by (rule client_done) simp
  finally have "feed_incoming E (w @ w2) ?c = (Ok (), ?c\<lparr>core := ?d2\<rparr>)"
    using d1 b by (simp add: feed_incoming_def)
  then have "pump E (Suc (Suc (Suc n))) (c, s) = pump E (Suc (Suc n)) (?c\<lparr>core := ?d2\<rparr>, ?s2)"
    using feed out \<open>w \<noteq> []\<close> by (intro pump_round [OF refl]) simp_all
  moreover have "in_flight E [MSG_REQUEST_FAILURE] (?c\<lparr>core := ?d2\<rparr>) ?s2"
    using l b a seal \<open>wire \<noteq> []\<close>
    by (intro sent_in_flight [where a = a and a' = a' and r = "rng ?d" and r' = r3])
      (simp_all add: linked_def small_fits)
  ultimately show ?thesis
    using l c b server_ignores [OF E, of "?c\<lparr>core := ?d2\<rparr>" ?s2]
    by (simp add: linked_def keeps_channels_def same_account_def logged_in_def)
qed

text \<open>An attempt the server answers by its verdict \<open>ok\<close>.\<close>

definition refused :: "u64 session \<Rightarrow> u64 session \<Rightarrow> fake_server \<Rightarrow> fake_server \<Rightarrow> bool" where
  "refused c c' s s' \<longleftrightarrow> linked c' s' \<and> outgoing (core c') = [] \<and> phase (core c') = UserAuth \<and>
     keeps_channels (core c) (core c') \<and> same_account s s' \<and>
     events (core c') = events (core c) @ [AuthFailure [lit ''password'', lit ''publickey'']]"

lemma verdict_round:
  assumes E: "bench_ok E" and f: "in_flight E m c s" and c: "phase (core c) = UserAuth"
    and h: "\<And>t. fs_username t = fs_username s \<Longrightarrow> fs_password t = fs_password s \<Longrightarrow>
      fs_session_id t = fs_session_id s \<Longrightarrow> fs_handle E m t = fs_auth_reply E ok t"
  shows "\<exists>c' s'. pump E (Suc (Suc (Suc n))) (c, s) = Some (c', s') \<and>
    (if ok then logged_in c c' s s' else refused c c' s s')"
proof (cases ok)
  case True
  then show ?thesis
    using welcomed_with_request_round [OF E f c, of n] welcomed_round [OF E f c, of "Suc n"] h
    by (cases "fs_send_global_request s") auto
next
  case False
  then show ?thesis using refused_round [OF E f c, of "Suc n"] h by (auto simp: refused_def)
qed

lemma handles_password:
  assumes "length user \<le> 1000" "length password \<le> 1000" "utf8_valid user" "utf8_valid password"
  shows "fs_handle E (password_build_request user password) s =
    fs_auth_reply E (user = fs_username s \<and> password = fs_password s) s"
proof -
  have "password_build_request user password = MSG_USERAUTH_REQUEST #
      tl (password_build_request user password)"
    by (simp add: password_build_request_def write_request_prefix_def)
  then have "fs_handle E (password_build_request user password) s =
      fs_handle_userauth_request E (password_build_request user password) s"
    by (subst fs_handle_def) (simp add: fs_dispatch_def MSG_KEXINIT_def password_build_request_def
        MSG_KEX_ECDH_INIT_def MSG_NEWKEYS_def MSG_SERVICE_REQUEST_def MSG_USERAUTH_REQUEST_def
        write_request_prefix_def)
  then show ?thesis by (simp add: fs_handle_userauth_request_def read_password [OF assms])
qed

lemma password_login:
  assumes E: "bench_ok E" and l: "linked c s" and c: "outgoing (core c) = []" "phase (core c) = UserAuth"
    and len: "length user \<le> 1000" "length password \<le> 1000" "utf8_valid user" "utf8_valid password"
  shows "\<exists>c1 c' s'. authenticate_password E user password (core c) = (Ok (), c1) \<and>
    pump E (Suc (Suc (Suc n))) (c\<lparr>core := c1\<rparr>, s) = Some (c', s') \<and>
    (if user = fs_username s \<and> password = fs_password s then logged_in c c' s s' else refused c c' s s')"
proof -
  let ?m = "password_build_request user password" and
    ?c = "(core c)\<lparr>username := Some user, pending_auth := Some Password\<rparr>"
  obtain a where a: "cs_cipher ?c = Some a" using l by (auto simp: linked_def)
  have fits: "payload_fits ?m"
    using len by (intro small_fits)
      (simp add: password_build_request_def write_request_prefix_def SERVICE_CONNECTION_def write_bool_def)
  obtain wire a' r where w: "cipher_seal E ?m (a, rng ?c) = (Ok wire, (a', r))" "wire \<noteq> []"
    and send: "send_ciphered E ?m ?c =
      (Ok (), ?c\<lparr>cs_cipher := Some a', rng := r, outgoing := outgoing ?c @ wire\<rparr>)"
    using client_sends [OF E a fits] .
  let ?d = "?c\<lparr>cs_cipher := Some a', rng := r, outgoing := wire\<rparr>"
  have auth: "authenticate_password E user password (core c) = (Ok (), ?d)"
    using c send by (simp add: authenticate_password_def)
  have "in_flight E ?m (c\<lparr>core := ?d\<rparr>) s"
    using l a w fits
    by (intro sent_in_flight [where a = a and a' = a' and r = "rng ?c" and r' = r])
      (simp_all add: linked_def)
  from verdict_round [OF E this, where ok = "user = fs_username s \<and> password = fs_password s" and n = n]
  obtain c' s' where "pump E (Suc (Suc (Suc n))) (c\<lparr>core := ?d\<rparr>, s) = Some (c', s')"
    and "if user = fs_username s \<and> password = fs_password s then logged_in (c\<lparr>core := ?d\<rparr>) c' s s'
      else refused (c\<lparr>core := ?d\<rparr>) c' s s'"
    using c handles_password [OF len, of E] by auto
  with auth show ?thesis
    by (intro exI [of _ ?d] exI [of _ c'] exI [of _ s'])
      (simp add: logged_in_def refused_def keeps_channels_def split: if_splits)
qed

end
