(* ===== verification/Interop_Session.thy ===== *)
theory Interop_Session
  imports Interop_Login
begin

text \<open>
  Over the linked connection of Interop_Login: the login with a key, in its two phases, and the
  command, from the request for a channel to its close.
\<close>

section \<open>Login with a key\<close>

lemma read_query:
  assumes "length (pka_username a) \<le> 1000" "utf8_valid (pka_username a)"
    and "length (pka_algorithm_name a) \<le> 1000" "utf8_valid (pka_algorithm_name a)"
    and "length (pka_public_key_blob a) \<le> 1000"
  shows "parse_with read_auth_request (build_query a) =
    Ok (pka_username a, OffersKey (pka_algorithm_name a) (pka_public_key_blob a))"
proof -
  have fits: "fits_u32 (pka_username a)" "fits_u32 (pka_algorithm_name a)" "fits_u32 (pka_public_key_blob a)"
    "fits_u32 SERVICE_CONNECTION" "utf8_valid SERVICE_CONNECTION"
    "fits_u32 (lit ''publickey'')" "utf8_valid (lit ''publickey'')"
    using assms by (simp_all add: fits_u32_def SERVICE_CONNECTION_def utf8_valid_lit_ascii)
  have attempt: "reads (read_attempt (lit ''publickey'')) (write_bool False @
      write_string (pka_algorithm_name a) @ write_string (pka_public_key_blob a) @ [])
      (OffersKey (pka_algorithm_name a) (pka_public_key_blob a)) []"
    using fits assms
    by (simp only: read_attempt_def lit_eq_iff)
      (simp, intro reads_and_then [OF reads_bool] reads_and_then [OF reads_utf8_string]
        reads_and_then [OF reads_string [of _ "[]", simplified]], auto intro: reads_ret)
  have "reads read_auth_request (build_query a @ [])
      (pka_username a, OffersKey (pka_algorithm_name a) (pka_public_key_blob a)) []"
    unfolding read_auth_request_def build_query_def write_request_prefix_def append_Cons append_assoc
    using fits assms
    by (intro reads_and_then [OF reads_u8] reads_and_then [OF reads_utf8_string]
        reads_and_then [OF attempt] reads_ret)
  then show ?thesis by (intro reads_parse_with) simp
qed

lemma read_signed:
  assumes "length (pka_username a) \<le> 1000" "utf8_valid (pka_username a)"
    and "length (pka_algorithm_name a) \<le> 1000" "utf8_valid (pka_algorithm_name a)"
    and "length (pka_public_key_blob a) \<le> 1000" "length sg \<le> 1000"
  shows "parse_with read_auth_request (request_body_through_key_blob a True @ write_string sg) =
    Ok (pka_username a, SignsWithKey (pka_algorithm_name a) (pka_public_key_blob a) sg)"
proof -
  have fits: "fits_u32 (pka_username a)" "fits_u32 (pka_algorithm_name a)" "fits_u32 (pka_public_key_blob a)"
    "fits_u32 SERVICE_CONNECTION" "utf8_valid SERVICE_CONNECTION" "fits_u32 sg"
    "fits_u32 (lit ''publickey'')" "utf8_valid (lit ''publickey'')"
    using assms by (simp_all add: fits_u32_def SERVICE_CONNECTION_def utf8_valid_lit_ascii)
  have attempt: "reads (read_attempt (lit ''publickey'')) (write_bool True @
      write_string (pka_algorithm_name a) @ write_string (pka_public_key_blob a) @ write_string sg @ [])
      (SignsWithKey (pka_algorithm_name a) (pka_public_key_blob a) sg) []"
    using fits assms
    by (simp only: read_attempt_def lit_eq_iff)
      (simp, intro reads_and_then [OF reads_bool] reads_and_then [OF reads_utf8_string]
        reads_and_then [OF reads_string], auto intro!: reads_ret
        reads_and_then [OF reads_string [of _ "[]", simplified]])
  have "reads read_auth_request ((request_body_through_key_blob a True @ write_string sg) @ [])
      (pka_username a, SignsWithKey (pka_algorithm_name a) (pka_public_key_blob a) sg) []"
    unfolding read_auth_request_def request_body_through_key_blob_def write_request_prefix_def
      append_Cons append_assoc
    using fits assms
    by (intro reads_and_then [OF reads_u8] reads_and_then [OF reads_utf8_string]
        reads_and_then [OF attempt] reads_ret)
  then show ?thesis by (intro reads_parse_with) simp
qed

text \<open>What the server checks is what the client signed.\<close>

lemma server_signed_data_eq:
  "server_signed_data sid (pka_username a) (pka_algorithm_name a) (pka_public_key_blob a) = signed_data a sid"
  by (simp add: server_signed_data_def signed_data_def request_body_through_key_blob_def
      write_request_prefix_def SERVICE_CONNECTION_def write_bool_def)

lemma pk_ok_read:
  assumes "length algo \<le> 1000" "utf8_valid algo" "length blob \<le> 1000"
  shows "parse_pk_ok (60 # write_string algo @ write_string blob) = Ok (algo, blob)"
proof -
  have "reads (and_then read_u8 (\<lambda>msg_type.
      if msg_type \<noteq> MSG_USERAUTH_PK_OK
      then fail_with (UnexpectedMessage (lit ''UserAuthPkOk'') msg_type)
      else and_then read_utf8_string (\<lambda>algorithm_name.
           and_then read_string (\<lambda>key_blob. ret (algorithm_name, key_blob)))))
      (60 # write_string algo @ write_string blob @ []) (algo, blob) []"
    using assms
    by (intro reads_and_then [OF reads_u8] reads_guard reads_and_then [OF reads_utf8_string]
        reads_and_then [OF reads_string] reads_ret) (simp_all add: MSG_USERAUTH_PK_OK_def fits_u32_def)
  then show ?thesis unfolding parse_pk_ok_def by (intro reads_parse_with) simp
qed

lemma auth_request_handled:
  "m = MSG_USERAUTH_REQUEST # ms \<Longrightarrow> fs_handle E m s = fs_handle_userauth_request E m s"
  by (simp add: fs_handle_def fs_dispatch_def MSG_KEXINIT_def MSG_KEX_ECDH_INIT_def MSG_NEWKEYS_def
      MSG_SERVICE_REQUEST_def MSG_USERAUTH_REQUEST_def)

text \<open>
  A key of the client that the code can log in with, Ed25519 or RSA: the crates sign any message
  with it, and what they sign verifies under its public blob.
\<close>

definition rsa_signs_ok :: "u64 crates \<Rightarrow> bytes \<Rightarrow> bool" where
  "rsa_signs_ok E key \<longleftrightarrow>
     (\<exists>blob rsa_private_key. pubkey_to_bytes E (privkey_public E key) = Inr blob \<and> length blob \<le> 1000 \<and>
        rsa_private E key rsa_private_key \<and>
        (\<forall>m. \<exists>raw sig wire. rsa_sign_sha512 E rsa_private_key m = Some raw \<and>
           signature_new_rsa512 E raw = Some sig \<and> signature_to_bytes E sig = Inr wire \<and>
           length wire \<le> 1000 \<and> sig_valid E blob m wire))"

definition login_key :: "u64 crates \<Rightarrow> bytes \<Rightarrow> bool" where
  "login_key E key \<longleftrightarrow>
     privkey_algorithm E key = Ed25519 \<and> privkey_rsa E key = None \<and> signs_ok E key \<or>
     privkey_algorithm E key = Rsa \<and> rsa_signs_ok E key"

abbreviation login_algorithm :: "str \<Rightarrow> bool" where
  "login_algorithm name \<equiv> name \<in> {lit ''ssh-ed25519'', lit ''rsa-sha2-512''}"

lemma login_algorithm_small:
  "login_algorithm name \<Longrightarrow> length name \<le> 1000 \<and> utf8_valid name"
  by (auto simp: utf8_valid_lit_ascii)

lemma login_key_signs:
  assumes "login_key E key"
  obtains name blob where "client_auth_algorithm_name E key = Ok name" and "login_algorithm name"
    and "pubkey_to_bytes E (privkey_public E key) = Inr blob" and "length blob \<le> 1000"
    and "\<And>m. \<exists>sig wire. sign_message E key m = Ok sig \<and> signature_to_bytes E sig = Inr wire \<and>
      length wire \<le> 1000 \<and> sig_valid E blob m wire"
proof (cases "privkey_algorithm E key = Rsa")
  case True
  with assms obtain blob rsa_private_key where
    blob: "pubkey_to_bytes E (privkey_public E key) = Inr blob" "length blob \<le> 1000"
    and rsa: "rsa_private E key rsa_private_key"
    and sign: "\<And>m. \<exists>raw sig wire. rsa_sign_sha512 E rsa_private_key m = Some raw \<and>
      signature_new_rsa512 E raw = Some sig \<and> signature_to_bytes E sig = Inr wire \<and>
      length wire \<le> 1000 \<and> sig_valid E blob m wire"
    unfolding login_key_def rsa_signs_ok_def by auto
  have "\<exists>sig wire. sign_message E key m = Ok sig \<and> signature_to_bytes E sig = Inr wire \<and>
      length wire \<le> 1000 \<and> sig_valid E blob m wire" for m
    using sign [of m] by (auto simp: sign_message_rsa [OF rsa])
  with True blob that [of "lit ''rsa-sha2-512''"] show thesis
    by (simp add: client_auth_algorithm_name_def)
next
  case False
  with assms obtain blob where a: "privkey_algorithm E key = Ed25519" "privkey_rsa E key = None"
    and blob: "pubkey_to_bytes E (privkey_public E key) = Inr blob" "length blob \<le> 1000"
    and sign: "\<And>m. \<exists>sig wire. privkey_try_sign E key m = Some sig \<and>
      signature_to_bytes E sig = Inr wire \<and> length wire \<le> 1000 \<and> sig_valid E blob m wire"
    unfolding login_key_def signs_ok_def by auto
  have "\<exists>sig wire. sign_message E key m = Ok sig \<and> signature_to_bytes E sig = Inr wire \<and>
      length wire \<le> 1000 \<and> sig_valid E blob m wire" for m
    using sign [of m] a by (auto simp: sign_message_def)
  with a blob that [of "lit ''ssh-ed25519''"] show thesis
    by (simp add: client_auth_algorithm_name_def)
qed

lemma offers_login_key:
  assumes "login_key E key" and "length user \<le> 1000"
  obtains a where "public_key_auth_new E user key = Ok a" and "pka_username a = user"
    and "login_algorithm (pka_algorithm_name a)" and "length (pka_public_key_blob a) \<le> 1000"
    and "payload_fits (build_query a)"
    and "\<And>sid. \<exists>sg. build_signed_request E a sid key =
        Ok (request_body_through_key_blob a True @ write_string sg) \<and> length sg \<le> 1000 \<and>
        sig_valid E (pka_public_key_blob a) (signed_data a sid) sg"
proof -
  obtain name blob where name: "client_auth_algorithm_name E key = Ok name" "login_algorithm name"
    and blob: "pubkey_to_bytes E (privkey_public E key) = Inr blob" "length blob \<le> 1000"
    and sign: "\<And>m. \<exists>sig wire. sign_message E key m = Ok sig \<and>
      signature_to_bytes E sig = Inr wire \<and> length wire \<le> 1000 \<and> sig_valid E blob m wire"
    by (rule login_key_signs [OF assms(1)]) (rule that)
  let ?a = "\<lparr>pka_username = user, pka_algorithm_name = name, pka_public_key_blob = blob\<rparr>"
  show thesis
  proof (rule that)
    show "public_key_auth_new E user key = Ok ?a"
      using blob name by (simp add: public_key_auth_new_def)
    show "payload_fits (build_query ?a)"
      using assms(2) blob(2) login_algorithm_small [OF name(2)] by (intro small_fits)
        (simp add: build_query_def write_request_prefix_def SERVICE_CONNECTION_def write_bool_def)
    show "\<exists>sg. build_signed_request E ?a sid key =
        Ok (request_body_through_key_blob ?a True @ write_string sg) \<and> length sg \<le> 1000 \<and>
        sig_valid E (pka_public_key_blob ?a) (signed_data ?a sid) sg" for sid
      using sign [of "signed_data ?a sid"] by (auto simp: build_signed_request_def)
  qed (use name blob in simp_all)
qed

text \<open>The server answers the query with PK_OK, and the client answers PK_OK with the signed request.\<close>

definition small_auth :: "public_key_auth \<Rightarrow> bool" where
  "small_auth a \<longleftrightarrow> length (pka_username a) \<le> 1000 \<and> utf8_valid (pka_username a) \<and>
     length (pka_algorithm_name a) \<le> 1000 \<and> utf8_valid (pka_algorithm_name a) \<and>
     length (pka_public_key_blob a) \<le> 1000"

definition pk_ok_message :: "public_key_auth \<Rightarrow> bytes" where
  "pk_ok_message a = 60 # write_string (pka_algorithm_name a) @ write_string (pka_public_key_blob a)"

lemma pk_ok_fits: "small_auth a \<Longrightarrow> payload_fits (pk_ok_message a)"
  unfolding pk_ok_message_def by (intro small_fits) (simp add: small_auth_def)

lemma query_answered:
  assumes E: "bench_ok E" and flight: "in_flight E (build_query a) c s" and a: "small_auth a"
    and s: "fs_sc_cipher s = Some b" "fs_phase s \<noteq> AwaitingIdent"
  obtains w b' r where "cipher_seal E (pk_ok_message a) (b, fs_rng s) = (Ok w, (b', r))" and "w \<noteq> []"
    and "fs_feed E (outgoing (core c)) s =
      (Ok w, s\<lparr>fs_cs_cipher := cs_cipher (core c), fs_sc_cipher := Some b', fs_rng := r\<rparr>)"
proof -
  let ?t = "s\<lparr>fs_cs_cipher := cs_cipher (core c)\<rparr>"
  obtain w b' r where reply: "fs_seal E (pk_ok_message a) ?t =
      (Ok w, ?t\<lparr>fs_sc_cipher := Some b', fs_rng := r\<rparr>)"
    and w: "cipher_seal E (pk_ok_message a) (b, fs_rng ?t) = (Ok w, (b', r))" "w \<noteq> []"
    by (rule fs_seals [OF E _ pk_ok_fits [OF a], of ?t b]) (simp_all add: s)
  have "fs_handle E (build_query a) ?t = fs_handle_userauth_request E (build_query a) ?t"
    by (rule auth_request_handled) (simp add: build_query_def write_request_prefix_def)
  also have "\<dots> = (Ok w, ?t\<lparr>fs_sc_cipher := Some b', fs_rng := r\<rparr>)"
    using reply read_query [of a] a
    by (simp add: fs_handle_userauth_request_def small_auth_def pk_ok_message_def)
  finally show thesis
    using server_hears [OF E flight, of w] w s by (intro that [of w b' r]) simp_all
qed

lemma pk_ok_answered:
  assumes E: "bench_ok E" and a: "small_auth a" and m: "payload_fits m"
    "build_signed_request E a sid key = Ok m" and c: "phase (core c) = UserAuth" "incoming c = []"
    "outgoing (core c) = []" "session_id (core c) = Some sid" "sc_cipher (core c) = Some b"
    "cs_cipher (core c) = Some k" "pending_auth (core c) = Some (PublicKeyQuery a key)"
    and w: "cipher_seal E (pk_ok_message a) (b, r) = (Ok w, (b', r'))"
  obtains w' k' r2 where "cipher_seal E m (k, rng (core c)) = (Ok w', (k', r2))" and "w' \<noteq> []"
    and "feed_incoming E w c = (Ok (), c\<lparr>core := (core c)\<lparr>sc_cipher := Some b',
      pending_auth := Some PublicKeySigned, cs_cipher := Some k', rng := r2, outgoing := w'\<rparr>\<rparr>)"
proof -
  let ?e = "(core c)\<lparr>sc_cipher := Some b', pending_auth := Some PublicKeySigned\<rparr>"
  obtain w' k' r2 where w': "cipher_seal E m (k, rng ?e) = (Ok w', (k', r2))" "w' \<noteq> []"
    and send: "send_ciphered E m ?e =
      (Ok (), ?e\<lparr>cs_cipher := Some k', rng := r2, outgoing := outgoing ?e @ w'\<rparr>)"
    by (rule client_sends [OF E _ m(1), of ?e k]) (simp_all add: c)
  have "dispatch E 60 (pk_ok_message a) ((core c)\<lparr>sc_cipher := Some b'\<rparr>) =
      (Ok (), ?e\<lparr>cs_cipher := Some k', rng := r2, outgoing := w'\<rparr>)"
    using send c m(2) a pk_ok_read
    by (simp add: dispatch_def msg_codes handle_userauth_pk_ok_def small_auth_def pk_ok_message_def)
  then have "feed_incoming E w c =
      (Ok (), c\<lparr>core := ?e\<lparr>cs_cipher := Some k', rng := r2, outgoing := w'\<rparr>\<rparr>)"
    using c by (intro client_hears_one [OF E _ pk_ok_fits [OF a] w pk_ok_message_def])
      (simp_all add: paused_def)
  with w' show thesis by (intro that) simp_all
qed

text \<open>The first round: the query, PK_OK, and the signed request on its way.\<close>

lemma query_round:
  assumes E: "bench_ok E" and l: "linked c s" and c: "outgoing (core c) = []" "phase (core c) = UserAuth"
    and user: "length user \<le> 1000" "utf8_valid user" and key: "login_key E key"
  shows "\<exists>c1 c2 s2 a sg. authenticate_publickey E user key (core c) = (Ok (), c1) \<and>
    pump E (Suc n) (c\<lparr>core := c1\<rparr>, s) = pump E n (c2, s2) \<and>
    in_flight E (request_body_through_key_blob a True @ write_string sg) c2 s2 \<and>
    pka_username a = user \<and> login_algorithm (pka_algorithm_name a) \<and>
    length (pka_public_key_blob a) \<le> 1000 \<and> length sg \<le> 1000 \<and>
    sig_valid E (pka_public_key_blob a) (signed_data a (fs_session_id s)) sg \<and>
    phase (core c2) = UserAuth \<and> keeps_channels (core c) (core c2) \<and> same_account s s2 \<and>
    events (core c2) = events (core c)"
proof -
  obtain a where a: "public_key_auth_new E user key = Ok a" "pka_username a = user"
      "login_algorithm (pka_algorithm_name a)" "length (pka_public_key_blob a) \<le> 1000"
    and fits: "payload_fits (build_query a)"
    and signed: "\<And>sid. \<exists>sg. build_signed_request E a sid key =
        Ok (request_body_through_key_blob a True @ write_string sg) \<and> length sg \<le> 1000 \<and>
        sig_valid E (pka_public_key_blob a) (signed_data a sid) sg"
    using offers_login_key [OF key user(1)] by blast
  have sa: "small_auth a"
    using a user login_algorithm_small [OF a(3)] by (simp add: small_auth_def)
  obtain sg where sg: "build_signed_request E a (fs_session_id s) key =
        Ok (request_body_through_key_blob a True @ write_string sg)" "length sg \<le> 1000"
      "sig_valid E (pka_public_key_blob a) (signed_data a (fs_session_id s)) sg"
    using signed by blast
  let ?m = "request_body_through_key_blob a True @ write_string sg"
  have mf: "payload_fits ?m" using sa sg by (intro small_fits)
      (simp add: request_body_through_key_blob_def write_request_prefix_def SERVICE_CONNECTION_def
        write_bool_def small_auth_def)
  let ?c = "(core c)\<lparr>username := Some user, pending_auth := Some (PublicKeyQuery a key)\<rparr>"
  obtain k b where k: "cs_cipher ?c = Some k" "fs_sc_cipher s = Some b" "sc_cipher (core c) = Some b"
    using l by (auto simp: linked_def)
  obtain wire k' r where w: "cipher_seal E (build_query a) (k, rng ?c) = (Ok wire, (k', r))" "wire \<noteq> []"
    and send: "send_ciphered E (build_query a) ?c =
      (Ok (), ?c\<lparr>cs_cipher := Some k', rng := r, outgoing := outgoing ?c @ wire\<rparr>)"
    using client_sends [OF E k(1) fits] .
  let ?d = "?c\<lparr>cs_cipher := Some k', rng := r, outgoing := wire\<rparr>"
  let ?c1 = "c\<lparr>core := ?d\<lparr>outgoing := []\<rparr>\<rparr>"
  have auth: "authenticate_publickey E user key (core c) = (Ok (), ?d)"
    using c send a by (simp add: authenticate_publickey_def)
  have flight: "in_flight E (build_query a) (c\<lparr>core := ?d\<rparr>) s"
    using l k w fits
    by (intro sent_in_flight [where a = k and a' = k' and r = "rng ?c" and r' = r])
      (simp_all add: linked_def)
  obtain w2 b' r2 where w2: "cipher_seal E (pk_ok_message a) (b, fs_rng s) = (Ok w2, (b', r2))" "w2 \<noteq> []"
    and feed: "fs_feed E wire s =
      (Ok w2, s\<lparr>fs_cs_cipher := Some k', fs_sc_cipher := Some b', fs_rng := r2\<rparr>)"
    by (rule query_answered [OF E flight sa k(2)]) (use l in \<open>simp_all add: linked_def\<close>)
  let ?s = "s\<lparr>fs_cs_cipher := Some k', fs_sc_cipher := Some b', fs_rng := r2\<rparr>"
  obtain w3 k2 r3 where w3: "cipher_seal E ?m (k', rng (core ?c1)) = (Ok w3, (k2, r3))" "w3 \<noteq> []"
    and heard: "feed_incoming E w2 ?c1 = (Ok (), ?c1\<lparr>core := (core ?c1)\<lparr>sc_cipher := Some b',
      pending_auth := Some PublicKeySigned, cs_cipher := Some k2, rng := r3, outgoing := w3\<rparr>\<rparr>)"
    by (rule pk_ok_answered [OF E sa mf sg(1), of ?c1 b k'])
      (use l k c w2 in \<open>simp_all add: linked_def\<close>)
  let ?c2 = "c\<lparr>core := ?d\<lparr>sc_cipher := Some b', pending_auth := Some PublicKeySigned,
      cs_cipher := Some k2, rng := r3, outgoing := w3\<rparr>\<rparr>"
  have "pump E (Suc n) (c\<lparr>core := ?d\<rparr>, s) = pump E n (?c2, ?s)"
    using feed heard w w2 by (subst pump_round [OF refl _ _ w2(2), of "c\<lparr>core := ?d\<rparr>"]) simp_all
  moreover have "in_flight E ?m ?c2 ?s"
    using l k w3 mf
    by (intro sent_in_flight [where a = k' and a' = k2 and r = r and r' = r3])
      (simp_all add: linked_def)
  ultimately show ?thesis
    using auth a sg c
    by (intro exI [of _ ?d] exI [of _ ?c2] exI [of _ ?s] exI [of _ a] exI [of _ sg])
      (simp add: keeps_channels_def same_account_def)
qed

lemma handles_signed:
  assumes "length (pka_username a) \<le> 1000" "utf8_valid (pka_username a)"
    and "length (pka_algorithm_name a) \<le> 1000" "utf8_valid (pka_algorithm_name a)"
    and "length (pka_public_key_blob a) \<le> 1000" "length sg \<le> 1000"
    and "sig_valid E (pka_public_key_blob a) (signed_data a (fs_session_id s)) sg"
  shows "fs_handle E (request_body_through_key_blob a True @ write_string sg) s =
    fs_auth_reply E (pka_username a = fs_username s) s"
proof -
  let ?m = "request_body_through_key_blob a True @ write_string sg"
  obtain k where k: "hostkey_parse E (pka_public_key_blob a) = Ok k"
    "verify_signature E k (signed_data a (fs_session_id s)) sg = Ok ()"
    using verify_reply_complete [OF assms(7)] by (auto simp: verify_reply_def)
  have "fs_handle E ?m s = fs_handle_userauth_request E ?m s"
    by (rule auth_request_handled)
      (simp add: request_body_through_key_blob_def write_request_prefix_def)
  also have "\<dots> = fs_auth_reply E (pka_username a = fs_username s) s"
    using k by (simp add: fs_handle_userauth_request_def read_signed [OF assms(1-6)] server_signed_data_eq)
  finally show ?thesis .
qed

lemma key_login:
  assumes E: "bench_ok E" and l: "linked c s" and c: "outgoing (core c) = []" "phase (core c) = UserAuth"
    and user: "length user \<le> 1000" "utf8_valid user" and key: "login_key E key"
  shows "\<exists>c1 c' s'. authenticate_publickey E user key (core c) = (Ok (), c1) \<and>
    pump E (Suc (Suc (Suc (Suc n)))) (c\<lparr>core := c1\<rparr>, s) = Some (c', s') \<and>
    (if user = fs_username s then logged_in c c' s s' else refused c c' s s')"
proof -
  obtain c1 c2 s2 a sg where auth: "authenticate_publickey E user key (core c) = (Ok (), c1)"
    and pump: "pump E (Suc (Suc (Suc (Suc n)))) (c\<lparr>core := c1\<rparr>, s) = pump E (Suc (Suc (Suc n))) (c2, s2)"
    and flight: "in_flight E (request_body_through_key_blob a True @ write_string sg) c2 s2"
    and a: "pka_username a = user" "login_algorithm (pka_algorithm_name a)"
      "length (pka_public_key_blob a) \<le> 1000" "length sg \<le> 1000"
      "sig_valid E (pka_public_key_blob a) (signed_data a (fs_session_id s)) sg"
    and same: "phase (core c2) = UserAuth" "keeps_channels (core c) (core c2)" "same_account s s2"
      "events (core c2) = events (core c)"
    using query_round [OF E l c user key, of "Suc (Suc (Suc n))"] by blast
  have h: "fs_handle E (request_body_through_key_blob a True @ write_string sg) t =
      fs_auth_reply E (user = fs_username s2) t"
    if "fs_username t = fs_username s2" "fs_session_id t = fs_session_id s2" for t
    using handles_signed [of a sg E t] a user same that login_algorithm_small [OF a(2)]
    by (simp add: same_account_def)
  from verdict_round [OF E flight same(1), where ok = "user = fs_username s2" and n = n] h
  obtain c' s' where "pump E (Suc (Suc (Suc n))) (c2, s2) = Some (c', s')"
    and "if user = fs_username s2 then logged_in c2 c' s2 s' else refused c2 c' s2 s'"
    by blast
  with auth pump same show ?thesis
    by (intro exI [of _ c1] exI [of _ c'] exI [of _ s'])
      (auto simp: logged_in_def refused_def keeps_channels_def same_account_def split: if_splits)
qed

section \<open>The command\<close>

lemma server_confirms:
  assumes E: "bench_ok E" and b: "fs_sc_cipher s = Some b"
  obtains w b' r where "fs_handle E (build_open_message (channel_new cid k)) s =
      (Ok w, s\<lparr>fs_phase := ServerConnected, fs_sc_cipher := Some b', fs_rng := r\<rparr>)"
    and "cipher_seal E (MSG_CHANNEL_OPEN_CONFIRMATION # write_u32 cid @ write_u32 0 @
        write_u32 INITIAL_WINDOW_SIZE @ write_u32 MAX_PACKET_SIZE) (b, fs_rng s) = (Ok w, (b', r))"
    and "w \<noteq> []"
proof -
  let ?m = "build_open_message (channel_new cid k)" and ?s = "s\<lparr>fs_phase := ServerConnected\<rparr>"
  let ?q = "and_then read_u8 (\<lambda>_. and_then read_string (\<lambda>_. and_then read_u32 (\<lambda>sender_channel.
        and_then read_u32 (\<lambda>_. and_then read_u32 (\<lambda>_. ret sender_channel)))))"
  have "reads ?q (?m @ []) cid []"
    unfolding build_open_message_def append_Cons append_assoc
    by (intro reads_and_then [OF reads_u8] reads_and_then [OF reads_string] reads_and_then [OF reads_u32])
      (simp_all add: fits_u32_def channel_new_def reads_ret)
  then have p: "parse_with ?q ?m = Ok cid" by (intro reads_parse_with) simp
  have "fs_handle E ?m s = fs_handle_channel_open E ?m s"
    by (simp add: fs_handle_def fs_dispatch_def MSG_KEXINIT_def MSG_KEX_ECDH_INIT_def MSG_NEWKEYS_def
        MSG_SERVICE_REQUEST_def MSG_USERAUTH_REQUEST_def MSG_CHANNEL_OPEN_def build_open_message_def)
  also have "\<dots> = fs_seal E (MSG_CHANNEL_OPEN_CONFIRMATION # write_u32 cid @ write_u32 0 @
        write_u32 INITIAL_WINDOW_SIZE @ write_u32 MAX_PACKET_SIZE) ?s"
    by (simp add: fs_handle_channel_open_def p)
  finally have h: "fs_handle E ?m s = \<dots>" .
  have fits: "payload_fits (MSG_CHANNEL_OPEN_CONFIRMATION # write_u32 cid @ write_u32 0 @
        write_u32 INITIAL_WINDOW_SIZE @ write_u32 MAX_PACKET_SIZE)" by (rule small_fits) simp
  show thesis
    by (rule fs_seals [OF E _ fits, of ?s b]) (use b in simp, rule that, simp_all add: h)
qed

text \<open>The five messages the server answers a command with, on its own channel number 0.\<close>

definition command_replies :: "bytes \<Rightarrow> bytes list" where
  "command_replies output =
     [MSG_CHANNEL_SUCCESS # write_u32 0,
      MSG_CHANNEL_DATA # write_u32 0 @ write_string output,
      MSG_CHANNEL_REQUEST # write_u32 0 @ write_string (lit ''exit-status'') @ write_bool False @ write_u32 0,
      MSG_CHANNEL_EOF # write_u32 0,
      MSG_CHANNEL_CLOSE # write_u32 0]"

lemma command_replies_fit:
  "length output \<le> 100000 \<Longrightarrow> \<forall>m \<in> set (command_replies output). payload_fits m"
  by (auto simp: command_replies_def write_bool_def intro!: small_fits)

lemma fs_seals_all:
  assumes E: "bench_ok E"
  shows "fs_sc_cipher s = Some b \<Longrightarrow> \<forall>p \<in> set ps. payload_fits p \<Longrightarrow>
    \<exists>w b' r'. send_many (fs_seal E) ps s = (Ok w, s\<lparr>fs_sc_cipher := Some b', fs_rng := r'\<rparr>) \<and>
      send_many (cipher_seal E) ps (b, fs_rng s) = (Ok w, (b', r')) \<and> (ps \<noteq> [] \<longrightarrow> w \<noteq> [])"
proof (induction ps arbitrary: s b)
  case Nil
  then show ?case by (intro exI [of _ "[]"] exI [of _ b] exI [of _ "fs_rng s"]) simp
next
  case (Cons p ps)
  from Cons.prems(2) have p: "payload_fits p" by simp
  obtain w1 b1 r1 where one: "fs_seal E p s = (Ok w1, s\<lparr>fs_sc_cipher := Some b1, fs_rng := r1\<rparr>)"
    "cipher_seal E p (b, fs_rng s) = (Ok w1, (b1, r1))" "w1 \<noteq> []"
    by (rule fs_seals [OF E Cons.prems(1) p])
  from Cons.IH [of "s\<lparr>fs_sc_cipher := Some b1, fs_rng := r1\<rparr>" b1] Cons.prems(2)
  obtain w b' r' where "send_many (fs_seal E) ps (s\<lparr>fs_sc_cipher := Some b1, fs_rng := r1\<rparr>) =
      (Ok w, s\<lparr>fs_sc_cipher := Some b', fs_rng := r'\<rparr>)"
    "send_many (cipher_seal E) ps (b1, r1) = (Ok w, (b', r'))" by auto
  with one show ?case
    by (intro exI [of _ "w1 @ w"] exI [of _ b'] exI [of _ r']) (simp add: and_then_def)
qed

lemma fs_seal_output: "fs_seal E p s = (r, s') \<Longrightarrow> fs_default_exec_output s' = fs_default_exec_output s"
  by (auto simp: fs_seal_def fs_seal_plaintext_def split: option.splits prod.splits)

lemma command_answer:
  assumes "send_many (fs_seal E) (command_replies (fs_default_exec_output s))
      (s\<lparr>fs_last_exec_command := Some command\<rparr>) = (Ok w, s')"
    and "parse_with read_exec_request m = Ok (0, Some command)"
  shows "fs_handle_channel_request E m s = (Ok w, s')"
proof -
  let ?o = "fs_default_exec_output s" and ?s = "s\<lparr>fs_last_exec_command := Some command\<rparr>"
  from assms(1) obtain s1 s2 s3 s4 w1 w2 w3 w4 w5 where
    "fs_seal E (MSG_CHANNEL_SUCCESS # write_u32 0) ?s = (Ok w1, s1)"
    "fs_seal E (MSG_CHANNEL_DATA # write_u32 0 @ write_string ?o) s1 = (Ok w2, s2)"
    "fs_seal E (MSG_CHANNEL_REQUEST # write_u32 0 @ write_string (lit ''exit-status'') @
        write_bool False @ write_u32 0) s2 = (Ok w3, s3)"
    "fs_seal E (MSG_CHANNEL_EOF # write_u32 0) s3 = (Ok w4, s4)"
    "fs_seal E (MSG_CHANNEL_CLOSE # write_u32 0) s4 = (Ok w5, s')" "w = w1 @ w2 @ w3 @ w4 @ w5"
    by (auto simp: command_replies_def and_then_eq_Ok)
  moreover from this(1) have "fs_default_exec_output s1 = ?o" using fs_seal_output by fastforce
  ultimately show ?thesis
    by (simp add: fs_handle_channel_request_def and_then_def assms(2))
qed

lemma server_runs:
  assumes E: "bench_ok E" and b: "fs_sc_cipher s = Some b"
    and cmd: "length command \<le> 100000" "utf8_valid command" and out: "length (fs_default_exec_output s) \<le> 100000"
  shows "\<exists>w b' r'. fs_handle E (exec_build_request 0 command) s =
      (Ok w, s\<lparr>fs_last_exec_command := Some command, fs_sc_cipher := Some b', fs_rng := r'\<rparr>) \<and>
    send_many (cipher_seal E) (command_replies (fs_default_exec_output s)) (b, fs_rng s) = (Ok w, (b', r')) \<and>
    w \<noteq> []"
proof -
  let ?m = "exec_build_request 0 command"
  have "reads read_exec_request (?m @ []) (0, Some command) []"
    unfolding read_exec_request_def exec_build_request_def build_channel_request_def append_Cons append_assoc
    using cmd
    by (intro reads_and_then [OF reads_u8] reads_and_then [OF reads_u32]
        reads_and_then [OF reads_utf8_string] reads_and_then [OF reads_bool] reads_guard reads_ret)
      (simp_all add: fits_u32_def utf8_valid_lit_ascii)
  then have p: "parse_with read_exec_request ?m = Ok (0, Some command)" by (intro reads_parse_with) simp
  have h: "fs_handle E ?m s = fs_handle_channel_request E ?m s"
    by (simp add: fs_handle_def fs_dispatch_def MSG_KEXINIT_def MSG_KEX_ECDH_INIT_def MSG_NEWKEYS_def
        MSG_SERVICE_REQUEST_def MSG_USERAUTH_REQUEST_def MSG_CHANNEL_OPEN_def MSG_CHANNEL_REQUEST_def
        exec_build_request_def build_channel_request_def)
  obtain w b' r' where "send_many (fs_seal E) (command_replies (fs_default_exec_output s))
      (s\<lparr>fs_last_exec_command := Some command\<rparr>) =
      (Ok w, s\<lparr>fs_last_exec_command := Some command, fs_sc_cipher := Some b', fs_rng := r'\<rparr>)"
    and "send_many (cipher_seal E) (command_replies (fs_default_exec_output s)) (b, fs_rng s) = (Ok w, (b', r'))"
    and "w \<noteq> []"
    using fs_seals_all [OF E, of "s\<lparr>fs_last_exec_command := Some command\<rparr>" b
        "command_replies (fs_default_exec_output s)"] b command_replies_fit [OF out]
    by (auto simp: command_replies_def)
  with h command_answer [OF _ p] show ?thesis by auto
qed

definition others_kept :: "u32 \<Rightarrow> 'r engine \<Rightarrow> 'r engine \<Rightarrow> bool" where
  "others_kept cid c c' \<longleftrightarrow>
     (\<forall>i. i \<noteq> cid \<longrightarrow> ct_channels (channels c') i = ct_channels (channels c) i \<and>
        channel_setup c' i = channel_setup c i)"

text \<open>The client opens the channel: the request for it is on its way.\<close>

lemma client_opens:
  assumes E: "bench_ok E" and l: "linked c s" and out: "outgoing (core c) = []"
    and cid: "ct_next_id (channels (core c)) = cid"
  shows "\<exists>c1 t. open_exec E command (core c) = (Ok cid, c1) \<and>
    in_flight E (build_open_message (channel_new cid Exec)) (c\<lparr>core := c1\<rparr>) s \<and>
    channels c1 = t \<and> ct_channels t cid = Some (channel_new cid Exec) \<and>
    channel_setup c1 cid = Some AwaitingExecReply \<and> pending_exec c1 cid = Some command \<and>
    others_kept cid (core c) c1 \<and> phase c1 = phase (core c) \<and> events c1 = events (core c)"
proof -
  let ?m = "build_open_message (channel_new cid Exec)"
  obtain t where t: "table_open Exec (channels (core c)) = ((cid, ?m), t)"
    "ct_channels t cid = Some (channel_new cid Exec)"
    "\<forall>i. i \<noteq> cid \<longrightarrow> ct_channels t i = ct_channels (channels (core c)) i"
    using cid by (simp add: table_open_def Let_def)
  let ?c = "(core c)\<lparr>channels := t, channel_setup := (channel_setup (core c))(cid \<mapsto> AwaitingExecReply),
      pending_exec := (pending_exec (core c))(cid \<mapsto> command)\<rparr>"
  obtain a where a: "cs_cipher ?c = Some a" using l by (auto simp: linked_def)
  have fits: "payload_fits ?m" by (rule small_fits) (simp add: build_open_message_def)
  obtain wire a' r where w: "cipher_seal E ?m (a, rng ?c) = (Ok wire, (a', r))" "wire \<noteq> []"
    and send: "send_ciphered E ?m ?c =
      (Ok (), ?c\<lparr>cs_cipher := Some a', rng := r, outgoing := outgoing ?c @ wire\<rparr>)"
    using client_sends [OF E a fits] .
  let ?d = "?c\<lparr>cs_cipher := Some a', rng := r, outgoing := wire\<rparr>"
  have "open_exec E command (core c) = (Ok cid, ?d)"
    using t send out by (simp add: open_exec_def on_channels_def and_then_def)
  moreover have "in_flight E ?m (c\<lparr>core := ?d\<rparr>) s"
    using l a w fits
    by (intro sent_in_flight [where a = a and a' = a' and r = "rng ?c" and r' = r])
      (simp_all add: linked_def)
  ultimately show ?thesis using t by (intro exI [of _ ?d] exI [of _ t]) (simp add: others_kept_def)
qed

section \<open>A run of messages\<close>

text \<open>\<open>takes E ms c d\<close>: the messages \<open>ms\<close> take the client from \<open>c\<close> to \<open>d\<close>, whatever its receiving cipher.\<close>

primrec takes :: "u64 crates \<Rightarrow> bytes list \<Rightarrow> u64 engine \<Rightarrow> u64 engine \<Rightarrow> bool" where
  "takes E [] c d \<longleftrightarrow> d = c"
| "takes E (m # ms) c d \<longleftrightarrow>
     (\<exists>c1. m \<noteq> [] \<and> phase c1 = phase c \<and>
        (\<forall>x. dispatch E (hd m) m (c\<lparr>sc_cipher := x\<rparr>) = (Ok (), c1\<lparr>sc_cipher := x\<rparr>)) \<and> takes E ms c1 d)"

lemma takes_cipher:
  "takes E ms c d \<Longrightarrow> takes E ms (c\<lparr>sc_cipher := x\<rparr>) (d\<lparr>sc_cipher := x\<rparr>)"
proof (induction ms arbitrary: c)
  case (Cons m ms)
  then obtain c1 where "m \<noteq> []" "phase c1 = phase c" "takes E ms c1 d"
    and "\<forall>y. dispatch E (hd m) m (c\<lparr>sc_cipher := y\<rparr>) = (Ok (), c1\<lparr>sc_cipher := y\<rparr>)" by auto
  with Cons.IH [of c1] show ?case by (auto intro!: exI [of _ "c1\<lparr>sc_cipher := x\<rparr>"])
qed simp

lemma client_hears_all:
  assumes E: "bench_ok E"
  shows "\<lbrakk>sc_cipher (core c) = Some b; \<forall>m \<in> set ms. payload_fits m;
    send_many (cipher_seal E) ms (b, r) = (Ok w, (b', r'));
    \<not> paused (core c); phase (core c) \<noteq> VersionExchange; takes E ms (core c) d\<rbrakk> \<Longrightarrow>
    drive E (c\<lparr>incoming := w @ rest\<rparr>) =
      drive E (c\<lparr>core := d\<lparr>sc_cipher := Some b'\<rparr>, incoming := rest\<rparr>)"
proof (induction ms arbitrary: c d b r w)
  case Nil
  then have same: "(core c)\<lparr>sc_cipher := Some b\<rparr> = core c" by simp
  have "drive E (c\<lparr>incoming := rest\<rparr>) = drive E (c\<lparr>core := core c, incoming := rest\<rparr>)" by simp
  also have "\<dots> = drive E (c\<lparr>core := (core c)\<lparr>sc_cipher := Some b\<rparr>, incoming := rest\<rparr>)"
    by (simp only: same)
  finally show ?case using Nil by simp
next
  case (Cons m ms)
  from Cons.prems(3) obtain w1 b1 r1 w2 where w: "cipher_seal E m (b, r) = (Ok w1, (b1, r1))"
    "send_many (cipher_seal E) ms (b1, r1) = (Ok w2, (b', r'))" "w = w1 @ w2"
    by (auto simp: and_then_eq_Ok)
  from Cons.prems(6) obtain c1 where m: "m \<noteq> []" "phase c1 = phase (core c)" "takes E ms c1 d"
    and d: "\<And>x. dispatch E (hd m) m ((core c)\<lparr>sc_cipher := x\<rparr>) = (Ok (), c1\<lparr>sc_cipher := x\<rparr>)" by auto
  let ?c = "c\<lparr>core := c1\<lparr>sc_cipher := Some b1\<rparr>\<rparr>"
  have first: "drive E (c\<lparr>incoming := w1 @ (w2 @ rest)\<rparr>) =
      drive E (c\<lparr>core := c1\<lparr>sc_cipher := Some b1\<rparr>, incoming := w2 @ rest\<rparr>)"
    using Cons.prems(2) m(1)
    by (intro client_hears [where ms = "tl m", OF E Cons.prems(1) _ w(1) _ Cons.prems(4,5) d]) simp_all
  have "drive E (?c\<lparr>incoming := w2 @ rest\<rparr>) = drive E (?c\<lparr>core := (d\<lparr>sc_cipher := Some b1\<rparr>)\<lparr>sc_cipher := Some b'\<rparr>, incoming := rest\<rparr>)"
    using Cons.prems m takes_cipher [OF m(3)] w(2)
    by (intro Cons.IH) (auto simp: paused_def)
  with first show ?case using w by simp
qed

text \<open>What a message about a channel does, when it raises one event and needs no answer.\<close>

lemma takes_channel:
  assumes "is_channel_message t" and "t \<notin> {1, 2, 3, 4, 6, 20, 21, 31, 51, 52, 60}"
    and "table_handle t (t # p) (channels c) = (Ok ([ev], []), tab)" and "\<forall>cid. ev \<noteq> ChannelOpened cid"
    and "takes E ms (c\<lparr>channels := tab, events := events c @ [ev]\<rparr>) d"
  shows "takes E ((t # p) # ms) c d"
proof -
  have "(case ev of ChannelOpened cid \<Rightarrow> continue_channel_setup E cid None | _ \<Rightarrow> ret ()) = ret ()"
    using assms(4) by (cases ev) auto
  then have "handle_channel_message E t (t # p) (c\<lparr>sc_cipher := x\<rparr>) =
      (Ok (), c\<lparr>channels := tab, events := events c @ [ev], sc_cipher := x\<rparr>)" for x
    using assms(3) by (simp add: handle_channel_message_def on_channels_def and_then_def push_event_def)
  then have "dispatch E t (t # p) (c\<lparr>sc_cipher := x\<rparr>) =
      (Ok (), c\<lparr>channels := tab, events := events c @ [ev], sc_cipher := x\<rparr>)" for x
    using assms(1,2)
    by (simp add: dispatch_def MSG_KEXINIT_def MSG_KEX_ECDH_REPLY_def MSG_KEXDH_REPLY_def MSG_NEWKEYS_def
        MSG_SERVICE_ACCEPT_def MSG_USERAUTH_FAILURE_def MSG_USERAUTH_SUCCESS_def MSG_USERAUTH_PK_OK_def)
  with assms(5) show ?thesis
    by (auto intro!: exI [of _ "c\<lparr>channels := tab, events := events c @ [ev]\<rparr>"])
qed

lemma takes_success:
  assumes "channel_setup c cid = Some AwaitingExecReply" and "remote_id_of cid c = Some rid"
    and "takes E ms (c\<lparr>channel_setup := (channel_setup c)(cid := None)\<rparr>) d"
  shows "takes E ((MSG_CHANNEL_SUCCESS # write_u32 cid) # ms) c d"
proof -
  have "reads channel_id_of_reply ((MSG_CHANNEL_SUCCESS # write_u32 cid) @ []) cid []"
    unfolding channel_id_of_reply_def append_Cons
    by (intro reads_and_then [OF reads_u8] reads_u32)
  then have "parse_with channel_id_of_reply (MSG_CHANNEL_SUCCESS # write_u32 cid) = Ok cid"
    by (intro reads_parse_with) simp
  then have "dispatch E MSG_CHANNEL_SUCCESS (MSG_CHANNEL_SUCCESS # write_u32 cid) (c\<lparr>sc_cipher := x\<rparr>) =
      (Ok (), c\<lparr>channel_setup := (channel_setup c)(cid := None), sc_cipher := x\<rparr>)" for x
    using assms(1,2)
    by (simp add: dispatch_def msg_codes handle_channel_success_def continue_channel_setup_def
        remove_setup_def remote_id_of_def)
  with assms(3) show ?thesis
    by (auto intro!: exI [of _ "c\<lparr>channel_setup := (channel_setup c)(cid := None)\<rparr>"])
qed

lemma small_data:
  assumes "local_window_unadvertised ch = 0" and "length data \<le> 100000"
  shows "\<exists>ch'. on_data_consumed (word_of_nat (length data)) ch = (Ok None, ch') \<and>
    remote_id ch' = remote_id ch"
proof -
  have n: "unat (word_of_nat (length data) :: u32) = length data"
    using assms(2) by (simp add: unat_of_nat)
  then have "saturating_add 0 (word_of_nat (length data)) = (word_of_nat (length data) :: u32)"
    using assms(2) by (simp add: saturating_add_def)
  moreover have "(word_of_nat (length data) :: u32) < WINDOW_ADJUST_THRESHOLD"
    using n assms(2) by (simp add: window_constants word_less_nat_alt)
  ultimately show ?thesis using assms(1) by (simp add: on_data_consumed_def)
qed

lemma exit_status_effect:
  assumes "ct_channels t cid = Some ch"
  shows "table_handle MSG_CHANNEL_REQUEST (MSG_CHANNEL_REQUEST # write_u32 cid @
      write_string (lit ''exit-status'') @ write_bool b @ write_u32 code) t =
    (Ok ([ChannelExitStatus cid (Some code) None], []), t)"
proof -
  have "channel_mut cid (ret ()) t = (Ok (), t)" using assms by (simp add: channel_mut_def fun_upd_idem)
  moreover have "fits_u32 (lit ''exit-status'')" "utf8_valid (lit ''exit-status'')"
    by (simp_all add: fits_u32_def utf8_valid_lit_ascii)
  moreover have "reads read_u32 (write_u32 code) code []" using reads_u32 [of code "[]"] by simp
  ultimately show ?thesis
    by (intro handles_new, unfold handle_message_cases handle_channel_request_def)
      (rule handles_read reads_u8 reads_u32 reads_utf8_string reads_bool handles_table handles_ret
        | assumption | simp)+
qed

lemma eof_effect:
  assumes "ct_channels t cid = Some ch"
  shows "table_handle MSG_CHANNEL_EOF (MSG_CHANNEL_EOF # write_u32 cid) t =
    (Ok ([ChannelEof cid], []), t\<lparr>ct_channels := (ct_channels t)(cid \<mapsto> ch\<lparr>lifecycle := EofSent\<rparr>)\<rparr>)"
proof -
  have "channel_mut cid (update (\<lambda>ch. ch\<lparr>lifecycle := EofSent\<rparr>)) t =
      (Ok (), t\<lparr>ct_channels := (ct_channels t)(cid \<mapsto> ch\<lparr>lifecycle := EofSent\<rparr>)\<rparr>)"
    using assms by (simp add: channel_mut_def)
  moreover have "reads read_u32 (write_u32 cid) cid []" using reads_u32 [of cid "[]"] by simp
  ultimately show ?thesis
    by (intro handles_new, unfold handle_message_cases)
      (rule handles_read reads_u8 handles_table handles_ret | assumption)+
qed

lemma close_effect:
  "table_handle MSG_CHANNEL_CLOSE (MSG_CHANNEL_CLOSE # write_u32 cid) t =
    (Ok ([ChannelClosed cid], []), table_remove cid t)"
proof -
  have "reads read_u32 (write_u32 cid) cid []" using reads_u32 [of cid "[]"] by simp
  moreover have "update (table_remove cid) t = (Ok (), table_remove cid t)" by simp
  ultimately show ?thesis
    by (intro handles_new, unfold handle_message_cases)
      (rule handles_read reads_u8 handles_table handles_ret | assumption)+
qed

lemma client_finishes:
  assumes "channel_setup c 0 = Some AwaitingExecReply" and ch: "ct_channels (channels c) 0 = Some ch"
    and "remote_id ch = Some rid" "local_window_unadvertised ch = 0" and len: "length output \<le> 100000"
  shows "takes E (command_replies output) c
    (c\<lparr>channel_setup := (channel_setup c)(0 := None), channels := table_remove 0 (channels c),
       events := events c @ [ChannelData 0 Stdout output, ChannelExitStatus 0 (Some 0) None,
         ChannelEof 0, ChannelClosed 0]\<rparr>)"
proof -
  obtain ch' where d: "on_data_consumed (word_of_nat (length output)) ch = (Ok None, ch')"
    using small_data [OF assms(4) len] by blast
  let ?c1 = "c\<lparr>channel_setup := (channel_setup c)(0 := None)\<rparr>" and ?t = "channels c"
  let ?t1 = "?t\<lparr>ct_channels := (ct_channels ?t)(0 \<mapsto> ch')\<rparr>"
  let ?t2 = "?t1\<lparr>ct_channels := (ct_channels ?t1)(0 \<mapsto> ch'\<lparr>lifecycle := EofSent\<rparr>)\<rparr>"
  have fits: "fits_u32 output" using len by (simp add: fits_u32_def)
  have t1: "table_handle MSG_CHANNEL_DATA (MSG_CHANNEL_DATA # write_u32 0 @ write_string output) ?t =
      (Ok ([ChannelData 0 Stdout output], []), ?t1)"
    using data_effect [OF ch assms(3) fits, of "[]"] d by (auto simp: data_reaction_def)
  have c1: "ct_channels ?t1 0 = Some ch'" by simp
  note t2 = exit_status_effect [OF c1, of False 0] and t3 = eof_effect [OF c1]
  have gone: "table_remove 0 ?t2 = table_remove 0 ?t" by (simp add: table_remove_def)
  show ?thesis
    unfolding command_replies_def
  proof (rule takes_success [OF assms(1)])
    show "remote_id_of 0 c = Some rid" using ch assms(3) by (simp add: remote_id_of_def table_get_def)
    show "takes E [MSG_CHANNEL_DATA # write_u32 0 @ write_string output,
        MSG_CHANNEL_REQUEST # write_u32 0 @ write_string (lit ''exit-status'') @ write_bool False @ write_u32 0,
        MSG_CHANNEL_EOF # write_u32 0, MSG_CHANNEL_CLOSE # write_u32 0] ?c1
      (c\<lparr>channel_setup := (channel_setup c)(0 := None), channels := table_remove 0 (channels c),
         events := events c @ [ChannelData 0 Stdout output, ChannelExitStatus 0 (Some 0) None,
           ChannelEof 0, ChannelClosed 0]\<rparr>)"
      by (intro takes_channel [where tab = ?t1] takes_channel [where tab = ?t1]
          takes_channel [where tab = ?t2] takes_channel [where tab = "table_remove 0 ?t2"])
        (use t1 t2 t3 gone close_effect [of 0 ?t2] in
          \<open>simp_all add: is_channel_message_def channel_msg_defs\<close>)
  qed
qed

text \<open>Round one: the channel is confirmed, and the command is on its way.\<close>

lemma confirm_round:
  assumes E: "bench_ok E" and f: "in_flight E (build_open_message (channel_new cid k)) c s"
    and c: "phase (core c) = Connected" and ch: "ct_channels (channels (core c)) cid = Some ch"
    and su: "channel_setup (core c) cid = Some AwaitingExecReply" "pending_exec (core c) cid = Some command"
    and len: "length command \<le> 100000"
  shows "\<exists>c' s'. pump E (Suc n) (c, s) = pump E n (c', s') \<and>
    in_flight E (exec_build_request 0 command) c' s' \<and> phase (core c') = Connected \<and>
    channel_setup (core c') cid = Some AwaitingExecReply \<and>
    ct_channels (channels (core c')) cid =
      Some (on_open_confirmation 0 INITIAL_WINDOW_SIZE MAX_PACKET_SIZE ch) \<and>
    events (core c') = events (core c) @ [ChannelOpened cid] \<and> others_kept cid (core c) (core c') \<and>
    fs_default_exec_output s' = fs_default_exec_output s"
proof -
  let ?t = "s\<lparr>fs_cs_cipher := cs_cipher (core c)\<rparr>"
  let ?p = "MSG_CHANNEL_OPEN_CONFIRMATION # write_u32 cid @ write_u32 0 @
        write_u32 INITIAL_WINDOW_SIZE @ write_u32 MAX_PACKET_SIZE"
  from f have l: "linked c ?t" and out: "outgoing (core c) \<noteq> []" by (simp_all add: in_flight_def)
  then obtain a b where b: "fs_sc_cipher ?t = Some b" "sc_cipher (core c) = Some b"
    and a: "cs_cipher (core c) = Some a" by (auto simp: linked_def)
  obtain w b' r where h: "fs_handle E (build_open_message (channel_new cid k)) ?t =
      (Ok w, ?t\<lparr>fs_phase := ServerConnected, fs_sc_cipher := Some b', fs_rng := r\<rparr>)"
    and w: "cipher_seal E ?p (b, fs_rng ?t) = (Ok w, (b', r))" "w \<noteq> []"
    using server_confirms [OF E b(1)] .
  let ?s = "?t\<lparr>fs_phase := ServerConnected, fs_sc_cipher := Some b', fs_rng := r\<rparr>"
  have feed: "fs_feed E (outgoing (core c)) s = (Ok w, ?s)"
    using h by (intro server_hears [OF E f]) simp_all
  let ?d = "(core c)\<lparr>outgoing := [], sc_cipher := Some b'\<rparr>"
  obtain wire a' r2 where seal: "cipher_seal E (exec_build_request 0 command) (a, rng ?d) = (Ok wire, (a', r2))"
      "wire \<noteq> []"
    and disp: "dispatch E MSG_CHANNEL_OPEN_CONFIRMATION ?p ?d =
      (Ok (), ?d\<lparr>channels := (channels ?d)\<lparr>ct_channels := (ct_channels (channels ?d))
         (cid \<mapsto> on_open_confirmation 0 INITIAL_WINDOW_SIZE MAX_PACKET_SIZE ch)\<rparr>,
        pending_exec := (pending_exec ?d)(cid := None), cs_cipher := Some a', rng := r2,
        outgoing := outgoing ?d @ wire, events := events ?d @ [ChannelOpened cid]\<rparr>)"
    using exec_confirmed [OF bench_laws(2) [OF E], where c = ?d and a = a and cid = cid and ch = ch
        and sid = 0 and w = INITIAL_WINDOW_SIZE and p = MAX_PACKET_SIZE] a ch su len
    by (auto simp: pending_command_def)
  let ?e = "?d\<lparr>channels := (channels ?d)\<lparr>ct_channels := (ct_channels (channels ?d))
         (cid \<mapsto> on_open_confirmation 0 INITIAL_WINDOW_SIZE MAX_PACKET_SIZE ch)\<rparr>,
        pending_exec := (pending_exec ?d)(cid := None), cs_cipher := Some a', rng := r2,
        outgoing := wire, events := events ?d @ [ChannelOpened cid]\<rparr>"
  let ?c = "c\<lparr>core := (core c)\<lparr>outgoing := []\<rparr>\<rparr>"
  have fits: "payload_fits ?p" by (rule small_fits) simp
  have "feed_incoming E w ?c = (Ok (), ?c\<lparr>core := ?e\<rparr>)"
    using l b c disp by (intro client_hears_one [OF E _ fits w(1) refl])
      (simp_all add: linked_def paused_def)
  then have "pump E (Suc n) (c, s) = pump E n (?c\<lparr>core := ?e\<rparr>, ?s)"
    by (intro pump_round [OF refl out feed w(2)])
  moreover have "payload_fits (exec_build_request 0 command)"
    using len by (intro small_fits)
      (simp add: exec_build_request_def build_channel_request_def write_bool_def)
  then have "in_flight E (exec_build_request 0 command) (?c\<lparr>core := ?e\<rparr>) ?s"
    using l a b seal
    by (intro sent_in_flight [where a = a and a' = a' and r = "rng ?d" and r' = r2])
      (simp_all add: linked_def)
  ultimately show ?thesis
    using su c by (intro exI [of _ "?c\<lparr>core := ?e\<rparr>"] exI [of _ ?s]) (simp add: others_kept_def)
qed

text \<open>Round two: the command runs, and its output, status, end and close arrive.\<close>

lemma command_round:
  assumes E: "bench_ok E" and f: "in_flight E (exec_build_request 0 command) c s"
    and c: "phase (core c) = Connected" and ch: "ct_channels (channels (core c)) 0 = Some ch"
      "remote_id ch = Some rid" "local_window_unadvertised ch = 0"
    and su: "channel_setup (core c) 0 = Some AwaitingExecReply"
    and len: "length command \<le> 100000" "utf8_valid command" "length (fs_default_exec_output s) \<le> 100000"
  shows "\<exists>c' s'. pump E (Suc (Suc n)) (c, s) = Some (c', s') \<and> linked c' s' \<and>
    outgoing (core c') = [] \<and> phase (core c') = Connected \<and> channel_setup (core c') 0 = None \<and>
    ct_channels (channels (core c')) 0 = None \<and> fs_last_exec_command s' = Some command \<and>
    events (core c') = events (core c) @ [ChannelData 0 Stdout (fs_default_exec_output s),
      ChannelExitStatus 0 (Some 0) None, ChannelEof 0, ChannelClosed 0]"
proof -
  let ?t = "s\<lparr>fs_cs_cipher := cs_cipher (core c)\<rparr>" and ?o = "fs_default_exec_output s"
  from f have l: "linked c ?t" and out: "outgoing (core c) \<noteq> []" by (simp_all add: in_flight_def)
  then obtain b where b: "fs_sc_cipher ?t = Some b" "sc_cipher (core c) = Some b"
    by (auto simp: linked_def)
  obtain w b' r where h: "fs_handle E (exec_build_request 0 command) ?t =
      (Ok w, ?t\<lparr>fs_last_exec_command := Some command, fs_sc_cipher := Some b', fs_rng := r\<rparr>)"
    and w: "send_many (cipher_seal E) (command_replies ?o) (b, fs_rng ?t) = (Ok w, (b', r))" "w \<noteq> []"
    using server_runs [OF E b(1) len(1,2)] len(3) by auto
  let ?s = "?t\<lparr>fs_last_exec_command := Some command, fs_sc_cipher := Some b', fs_rng := r\<rparr>"
  have feed: "fs_feed E (outgoing (core c)) s = (Ok w, ?s)"
    using h l by (intro server_hears [OF E f]) (simp_all add: linked_def)
  let ?c = "c\<lparr>core := (core c)\<lparr>outgoing := []\<rparr>\<rparr>"
  let ?d = "(core ?c)\<lparr>channel_setup := (channel_setup (core ?c))(0 := None),
       channels := table_remove 0 (channels (core ?c)),
       events := events (core ?c) @ [ChannelData 0 Stdout ?o, ChannelExitStatus 0 (Some 0) None,
         ChannelEof 0, ChannelClosed 0]\<rparr>"
  have "takes E (command_replies ?o) (core ?c) ?d"
    by (rule client_finishes [OF _ _ ch(2,3) len(3)]) (simp_all add: su ch)
  then have "drive E (?c\<lparr>incoming := w @ []\<rparr>) =
      drive E (?c\<lparr>core := ?d\<lparr>sc_cipher := Some b'\<rparr>, incoming := []\<rparr>)"
    using b c command_replies_fit [OF len(3)] w(1)
    by (intro client_hears_all [OF E]) (simp_all add: paused_def)
  also have "\<dots> = (Ok (), ?c\<lparr>core := ?d\<lparr>sc_cipher := Some b'\<rparr>, incoming := []\<rparr>)"
    using c by (intro client_done) simp
  finally have "feed_incoming E w ?c = (Ok (), ?c\<lparr>core := ?d\<lparr>sc_cipher := Some b'\<rparr>\<rparr>)"
    using l by (simp add: feed_incoming_def linked_def)
  then have "pump E (Suc (Suc n)) (c, s) = pump E (Suc n) (?c\<lparr>core := ?d\<lparr>sc_cipher := Some b'\<rparr>\<rparr>, ?s)"
    by (intro pump_round [OF refl out feed w(2)])
  also have "\<dots> = Some (?c\<lparr>core := ?d\<lparr>sc_cipher := Some b'\<rparr>\<rparr>, ?s)" by (rule pump_settled) simp
  finally show ?thesis
    using l c b by (intro exI [of _ "?c\<lparr>core := ?d\<lparr>sc_cipher := Some b'\<rparr>\<rparr>"] exI [of _ ?s])
      (simp add: linked_def table_remove_def)
qed

lemma run_command:
  assumes E: "bench_ok E" and l: "linked c s" and c: "outgoing (core c) = []" "phase (core c) = Connected"
    and first: "ct_next_id (channels (core c)) = 0"
    and len: "length command \<le> 100000" "utf8_valid command" "length (fs_default_exec_output s) \<le> 100000"
  shows "\<exists>c1 c' s'. open_exec E command (core c) = (Ok 0, c1) \<and>
    pump E (Suc (Suc (Suc n))) (c\<lparr>core := c1\<rparr>, s) = Some (c', s') \<and> linked c' s' \<and>
    outgoing (core c') = [] \<and> phase (core c') = Connected \<and> channel_setup (core c') 0 = None \<and>
    ct_channels (channels (core c')) 0 = None \<and> fs_last_exec_command s' = Some command \<and>
    events (core c') = events (core c) @ [ChannelOpened 0, ChannelData 0 Stdout (fs_default_exec_output s),
      ChannelExitStatus 0 (Some 0) None, ChannelEof 0, ChannelClosed 0]"
proof -
  obtain c1 where o: "open_exec E command (core c) = (Ok 0, c1)"
      "in_flight E (build_open_message (channel_new 0 Exec)) (c\<lparr>core := c1\<rparr>) s"
      "ct_channels (channels c1) 0 = Some (channel_new 0 Exec)"
      "channel_setup c1 0 = Some AwaitingExecReply" "pending_exec c1 0 = Some command"
      "phase c1 = Connected" "events c1 = events (core c)"
    using client_opens [OF E l c(1) first, of command] c(2) by auto
  then obtain c2 s2 where p: "pump E (Suc (Suc (Suc n))) (c\<lparr>core := c1\<rparr>, s) = pump E (Suc (Suc n)) (c2, s2)"
    and q: "in_flight E (exec_build_request 0 command) c2 s2" "phase (core c2) = Connected"
      "ct_channels (channels (core c2)) 0 =
        Some (on_open_confirmation 0 INITIAL_WINDOW_SIZE MAX_PACKET_SIZE (channel_new 0 Exec))"
      "channel_setup (core c2) 0 = Some AwaitingExecReply"
    and e: "events (core c2) = events c1 @ [ChannelOpened 0]"
      "fs_default_exec_output s2 = fs_default_exec_output s"
    using confirm_round [OF E o(2), where n = "Suc (Suc n)" and ch = "channel_new 0 Exec"
        and command = command] len(1) by auto
  have ch: "remote_id (on_open_confirmation 0 INITIAL_WINDOW_SIZE MAX_PACKET_SIZE (channel_new 0 Exec)) = Some 0"
    "local_window_unadvertised (on_open_confirmation 0 INITIAL_WINDOW_SIZE MAX_PACKET_SIZE (channel_new 0 Exec)) = 0"
    by (simp_all add: on_open_confirmation_def channel_new_def)
  show ?thesis
    using command_round [OF E q(1-3) ch q(4) len(1,2), of n] len(3) e p o(1,7)
    by (intro exI [of _ c1]) auto
qed

section \<open>A second channel\<close>

text \<open>
  The server answers on its own channel number, which is always 0. A client that has given the
  channel another number takes the output for one of a channel it does not know.
\<close>

lemma client_rejects:
  assumes E: "bench_ok E" and "sc_cipher (core c) = Some b" and "payload_fits m"
    and w: "cipher_seal E m (b, r) = (Ok wire, (b', r'))" and m: "m = t # ms"
    and "\<not> paused (core c)" "phase (core c) \<noteq> VersionExchange"
    and d: "dispatch E t m ((core c)\<lparr>sc_cipher := Some b'\<rparr>) = (Err e, d)"
  shows "drive E (c\<lparr>incoming := wire @ rest\<rparr>) = (Ok (), fail_session e (c\<lparr>core := d, incoming := rest\<rparr>))"
proof -
  have l: "4 \<le> length wire" "peek_total_length E b (take 4 wire) = Ok (length wire)"
    "cipher_open E wire b = (Ok m, b')"
    using cipher_link [OF bench_laws(2) [OF E] assms(3), of b r] w by auto
  have "drive_step E (c\<lparr>incoming := wire @ rest\<rparr>) = (Err e, c\<lparr>core := d, incoming := rest\<rparr>)"
    using l assms
    by (simp add: drive_step_def drive_packet_phase_def expected_len_def handle_packet_def
        open_packet_def and_then_def on_core_def)
  then show ?thesis using assms(6) by (simp add: drive.simps [of E "c\<lparr>incoming := wire @ rest\<rparr>"])
qed

lemma unknown_data:
  assumes "ct_channels (channels c) 0 = None" and "length data \<le> 100000"
  shows "dispatch E MSG_CHANNEL_DATA (MSG_CHANNEL_DATA # write_u32 0 @ write_string data) c =
    (Err (unknown_channel 0), c)"
proof -
  let ?m = "MSG_CHANNEL_DATA # write_u32 0 @ write_string data" and ?t = "channels c"
  have "channel_mut 0 (on_data_consumed (word_of_nat (length data))) ?t = (Err (unknown_channel 0), ?t)"
    using assms(1) by (simp add: channel_mut_def)
  moreover have "reads read_string (write_string data) data []"
    using reads_string [of data "[]"] assms(2) by (simp add: fits_u32_def)
  ultimately have "table_handle MSG_CHANNEL_DATA ?m ?t = (Err (unknown_channel 0), ?t)"
    by (intro handles_new, unfold handle_message_cases)
      (rule handles_read reads_u8 reads_u32 handles_table_Err | assumption)+
  then show ?thesis
    by (simp add: dispatch_def msg_codes handle_channel_message_def on_channels_def and_then_def)
qed

lemma unknown_success:
  assumes "channel_setup c 0 = None"
  shows "dispatch E MSG_CHANNEL_SUCCESS (MSG_CHANNEL_SUCCESS # write_u32 0) c = (Ok (), c)"
proof -
  have "reads channel_id_of_reply ((MSG_CHANNEL_SUCCESS # write_u32 0) @ []) 0 []"
    unfolding channel_id_of_reply_def append_Cons
    by (intro reads_and_then [OF reads_u8] reads_u32)
  then have "parse_with channel_id_of_reply (MSG_CHANNEL_SUCCESS # write_u32 0) = Ok 0"
    by (intro reads_parse_with) simp
  then show ?thesis using assms
    by (simp add: dispatch_def msg_codes handle_channel_success_def continue_channel_setup_def)
qed

lemma lost_round:
  assumes E: "bench_ok E" and f: "in_flight E (exec_build_request 0 command) c s"
    and c: "phase (core c) = Connected" "ct_channels (channels (core c)) 0 = None"
      "channel_setup (core c) 0 = None"
    and len: "length command \<le> 100000" "utf8_valid command" "length (fs_default_exec_output s) \<le> 100000"
  shows "\<exists>c' s'. pump E (Suc (Suc n)) (c, s) = Some (c', s') \<and> phase (core c') = Closed \<and>
    fs_last_exec_command s' = Some command \<and>
    events (core c') = events (core c) @ [Unrecoverable (unknown_channel 0)]"
proof -
  let ?t = "s\<lparr>fs_cs_cipher := cs_cipher (core c)\<rparr>" and ?o = "fs_default_exec_output s"
  from f have l: "linked c ?t" and out: "outgoing (core c) \<noteq> []" by (simp_all add: in_flight_def)
  then obtain b where b: "fs_sc_cipher ?t = Some b" "sc_cipher (core c) = Some b"
    by (auto simp: linked_def)
  obtain w b' r where h: "fs_handle E (exec_build_request 0 command) ?t =
      (Ok w, ?t\<lparr>fs_last_exec_command := Some command, fs_sc_cipher := Some b', fs_rng := r\<rparr>)"
    and w: "send_many (cipher_seal E) (command_replies ?o) (b, fs_rng ?t) = (Ok w, (b', r))" "w \<noteq> []"
    using server_runs [OF E b(1) len(1,2)] len(3) by auto
  let ?s = "?t\<lparr>fs_last_exec_command := Some command, fs_sc_cipher := Some b', fs_rng := r\<rparr>"
  have feed: "fs_feed E (outgoing (core c)) s = (Ok w, ?s)"
    using h l by (intro server_hears [OF E f]) (simp_all add: linked_def)
  let ?m = "MSG_CHANNEL_DATA # write_u32 0 @ write_string ?o"
  from w(1) obtain w1 b1 r1 w2 b2 r2 w3 where p: "cipher_seal E (MSG_CHANNEL_SUCCESS # write_u32 0) (b, fs_rng ?t) = (Ok w1, (b1, r1))"
    "cipher_seal E ?m (b1, r1) = (Ok w2, (b2, r2))" "w = w1 @ w2 @ w3"
    by (auto simp: command_replies_def and_then_eq_Ok)
  have fits: "payload_fits (MSG_CHANNEL_SUCCESS # write_u32 0)" "payload_fits ?m"
    using len by (auto intro: small_fits)
  let ?c = "c\<lparr>core := (core c)\<lparr>outgoing := []\<rparr>\<rparr>"
  let ?d = "(core ?c)\<lparr>sc_cipher := Some b1\<rparr>"
  have first: "drive E (?c\<lparr>incoming := w1 @ w2 @ w3\<rparr>) = drive E (?c\<lparr>core := ?d, incoming := w2 @ w3\<rparr>)"
    using b c by (intro client_hears [OF E _ fits(1) p(1) refl])
      (simp_all add: paused_def unknown_success)
  have "drive E ((?c\<lparr>core := ?d\<rparr>)\<lparr>incoming := w2 @ w3\<rparr>) =
      (Ok (), fail_session (unknown_channel 0) ((?c\<lparr>core := ?d\<rparr>)\<lparr>core := ?d\<lparr>sc_cipher := Some b2\<rparr>, incoming := w3\<rparr>))"
    using c len(3) by (intro client_rejects [OF E _ fits(2) p(2) refl])
      (simp_all add: paused_def unknown_data)
  with first have "feed_incoming E w ?c = (Ok (), fail_session (unknown_channel 0)
      (?c\<lparr>core := ?d\<lparr>sc_cipher := Some b2\<rparr>, incoming := w3\<rparr>))"
    using l p(3) by (simp add: feed_incoming_def linked_def)
  then have "pump E (Suc (Suc n)) (c, s) = pump E (Suc n) (fail_session (unknown_channel 0)
      (?c\<lparr>core := ?d\<lparr>sc_cipher := Some b2\<rparr>, incoming := w3\<rparr>), ?s)"
    by (intro pump_round [OF refl out feed w(2)])
  then show ?thesis by (simp add: pump_settled fail_session_def fail_def)
qed

lemma second_command:
  assumes E: "bench_ok E" and l: "linked c s" and c: "outgoing (core c) = []" "phase (core c) = Connected"
    and cid: "ct_next_id (channels (core c)) = cid" "cid \<noteq> 0"
    and none: "ct_channels (channels (core c)) 0 = None" "channel_setup (core c) 0 = None"
    and len: "length command \<le> 100000" "utf8_valid command" "length (fs_default_exec_output s) \<le> 100000"
  shows "\<exists>c1 c' s'. open_exec E command (core c) = (Ok cid, c1) \<and>
    pump E (Suc (Suc (Suc n))) (c\<lparr>core := c1\<rparr>, s) = Some (c', s') \<and> phase (core c') = Closed \<and>
    fs_last_exec_command s' = Some command \<and>
    events (core c') = events (core c) @ [ChannelOpened cid, Unrecoverable (unknown_channel 0)]"
proof -
  obtain c1 where o: "open_exec E command (core c) = (Ok cid, c1)"
      "in_flight E (build_open_message (channel_new cid Exec)) (c\<lparr>core := c1\<rparr>) s"
      "ct_channels (channels c1) cid = Some (channel_new cid Exec)"
      "channel_setup c1 cid = Some AwaitingExecReply" "pending_exec c1 cid = Some command"
      "others_kept cid (core c) c1" "phase c1 = Connected" "events c1 = events (core c)"
    using client_opens [OF E l c(1) cid(1), of command] c(2) by auto
  then obtain c2 s2 where p: "pump E (Suc (Suc (Suc n))) (c\<lparr>core := c1\<rparr>, s) = pump E (Suc (Suc n)) (c2, s2)"
    and q: "in_flight E (exec_build_request 0 command) c2 s2" "phase (core c2) = Connected"
      "others_kept cid c1 (core c2)"
    and e: "events (core c2) = events c1 @ [ChannelOpened cid]"
      "fs_default_exec_output s2 = fs_default_exec_output s"
    using confirm_round [OF E o(2), where n = "Suc (Suc n)" and ch = "channel_new cid Exec"
        and command = command] len(1) by auto
  have "ct_channels (channels (core c2)) 0 = None" "channel_setup (core c2) 0 = None"
    using o(6) q(3) none cid(2) by (simp_all add: others_kept_def)
  then show ?thesis
    using lost_round [OF E q(1,2) _ _ len(1,2), of n] len(3) e p o(1,8)
    by (intro exI [of _ c1]) auto
qed

end
