(* ===== verification/Fake_Sshd.thy ===== *)
theory Fake_Sshd
  imports Fake_Server Chunked
begin

text \<open>
  \<open>ssh-core-testkit/src/bin/fake_sshd.rs\<close>: the process that puts the fake server behind a TCP
  socket, for the tests of the JavaScript client. What the operating system gives is data: the
  arguments, whether the port can be bound, for every accepted connection whether writes succeed and
  what each \<open>read\<close> returns. The lemmas show that the server does not depend on how its input was cut
  into reads, as long as no packet fails to open.
\<close>

section \<open>More input behind the buffer of the server\<close>

definition fs_push :: "bytes \<Rightarrow> fake_server \<Rightarrow> fake_server" where
  "fs_push ys s = s\<lparr>fs_incoming := fs_incoming s @ ys\<rparr>"

lemma fs_push_simps [simp]:
  "fs_incoming (fs_push ys s) = fs_incoming s @ ys" "fs_phase (fs_push ys s) = fs_phase s"
  "fs_cs_cipher (fs_push ys s) = fs_cs_cipher s" "fs_push [] s = s"
  "fs_push ys (fs_push xs s) = fs_push (xs @ ys) s"
  by (simp_all add: fs_push_def)

lemma fs_push_eq [simp]: "fs_push ys s = fs_push ys s' \<longleftrightarrow> s = s'"
  by (cases s; cases s') (simp add: fs_push_def)

text \<open>Operations that do not look at the buffer.\<close>

definition blind :: "(fake_server, 'a) op \<Rightarrow> bool" where
  "blind m \<longleftrightarrow> (\<forall>s v. m (s\<lparr>fs_incoming := v\<rparr>) = (case m s of (r, s') \<Rightarrow> (r, s'\<lparr>fs_incoming := v\<rparr>)))"

lemma blindI:
  "(\<And>s v. m (s\<lparr>fs_incoming := v\<rparr>) = (case m s of (r, s') \<Rightarrow> (r, s'\<lparr>fs_incoming := v\<rparr>))) \<Longrightarrow> blind m"
  by (simp add: blind_def)

lemma blind_and_then: "blind m \<Longrightarrow> (\<And>a. blind (f a)) \<Longrightarrow> blind (and_then m f)"
  by (auto simp: blind_def and_then_def split: prod.splits result.splits)

lemma blind_simple:
  "blind (ret a)" "blind (lift_r r)"
  "(\<And>s v. g (s\<lparr>fs_incoming := v\<rparr>) = (g s)\<lparr>fs_incoming := v\<rparr>) \<Longrightarrow> blind (update g)"
  "(\<And>s v. h (s\<lparr>fs_incoming := v\<rparr>) = h s) \<Longrightarrow> blind (look h)"
  by (cases r; simp add: blind_def)+

lemma blind_look_then:
  "(\<And>s. blind (f s)) \<Longrightarrow> (\<And>s v. f (s\<lparr>fs_incoming := v\<rparr>) = f s) \<Longrightarrow> blind (and_then (look (\<lambda>s. s)) f)"
  by (simp add: blind_def and_then_def)

lemma blind_if: "blind m \<Longrightarrow> blind n \<Longrightarrow> blind (if c then m else n)"
  by simp

lemma blind_option: "blind m \<Longrightarrow> (\<And>a. blind (f a)) \<Longrightarrow> blind (case x of None \<Rightarrow> m | Some a \<Rightarrow> f a)"
  by (cases x) auto

lemma blind_seal: "blind (fs_seal_plaintext p)" "blind (fs_seal E p)"
  by (rule blindI, auto simp: fs_seal_def fs_seal_plaintext_def split: prod.splits option.splits)+

lemma blind_draws:
  "blind (\<lambda>s. case kexinit_ours test_rng_fill (fs_rng s) of
     (k, r) \<Rightarrow> (kexinit_to_payload E k, s\<lparr>fs_rng := r\<rparr>))"
  "blind (\<lambda>s. case keypair_generate E (fs_rng s) of (kp, r) \<Rightarrow> (Ok kp, s\<lparr>fs_rng := r\<rparr>))"
  by (rule blindI, auto split: prod.splits)+

lemmas blind_rules = blind_seal blind_draws blind_if blind_option blind_look_then blind_and_then blind_simple

lemma fs_handle_blind: "blind (fs_handle E p)"
proof -
  note rules = blind_rules
  have auth: "blind (fs_auth_reply E b)" for b
    unfolding fs_auth_reply_def by (intro rules) simp
  have kexinit: "blind (fs_handle_kexinit E p)"
    unfolding fs_handle_kexinit_def by (intro rules) simp_all
  have ecdh: "blind (fs_handle_kex_ecdh_init E p)"
    unfolding fs_handle_kex_ecdh_init_def Let_def case_prod_beta
    by (intro rules blind_draws [unfolded case_prod_beta]) simp_all
  have user: "blind (fs_handle_userauth_request E p)"
    unfolding fs_handle_userauth_request_def case_prod_beta
    by (intro blind_and_then [OF blind_simple(2)] blind_look_then)
      (auto split: auth_attempt.split intro!: rules auth)
  have request: "blind (fs_handle_channel_request E p)"
    unfolding fs_handle_channel_request_def case_prod_beta by (intro rules) simp_all
  have service: "blind (fs_handle_service_request E p)"
    unfolding fs_handle_service_request_def by (intro rules) simp_all
  have chan: "blind (fs_handle_channel_open E p)"
    unfolding fs_handle_channel_open_def by (intro rules) simp_all
  have "blind (fs_dispatch E t p)" for t
    unfolding fs_dispatch_def
    by (intro blind_if kexinit ecdh user request service chan blind_simple blind_and_then) simp_all
  then show ?thesis
    by (cases p) (simp_all add: fs_handle_def blind_simple)
qed

lemma fs_handle_push:
  assumes "fs_handle E p s = (r, s1)" and "r \<noteq> Panic"
  shows "fs_handle E p (fs_push ys s) = (r, fs_push ys s1)"
proof -
  have "case fs_handle E p s of (Panic, t) \<Rightarrow> True | (_, t) \<Rightarrow> fs_incoming t = fs_incoming s"
    using fs_handle_incoming [of "fs_incoming s" E p] by (auto simp: triple_def split: prod.splits result.splits)
  then have "fs_incoming s1 = fs_incoming s" using assms by (cases r) auto
  then show ?thesis
    using fs_handle_blind [of E p] assms(1) by (simp add: blind_def fs_push_def)
qed

lemma fs_handle_push_panic:
  "fs_handle E p s = (Panic, s1) \<Longrightarrow> \<exists>t. fs_handle E p (fs_push ys s) = (Panic, t)"
  using fs_handle_blind [of E p] by (simp add: blind_def fs_push_def)

lemma fs_open_push: "fs_open E w (fs_push ys s) = (case fs_open E w s of (r, s') \<Rightarrow> (r, fs_push ys s'))"
  by (auto simp: fs_open_def fs_push_def split: option.splits prod.splits)

text \<open>A turn of the loop that is not the wait for more input is the same with more input behind it.\<close>

lemma fs_step_ident_push:
  assumes "fs_step_ident s = (r, s1)" and "(r, s1) \<noteq> (Ok None, s)"
  shows "fs_step_ident (fs_push ys s) = (r, fs_push ys s1)"
proof -
  have nl: "10 \<in> set (fs_incoming s)" using assms by (auto simp: fs_step_ident_def split: if_splits)
  then have tw: "takeWhile (\<lambda>b. b \<noteq> 10) (fs_incoming s @ ys) = takeWhile (\<lambda>b. b \<noteq> 10) (fs_incoming s)"
    by (intro takeWhile_append1 [of 10]) simp_all
  have len: "length (takeWhile (\<lambda>b. b \<noteq> 10) (fs_incoming s)) < length (fs_incoming s)"
    using nl by (metis (mono_tags) takeWhile_eq_take take_all not_less set_takeWhileD)
  show ?thesis
    using assms(1) nl len by (auto simp: fs_step_ident_def Let_def tw fs_push_def)
qed

lemma fs_step_packet_whole:
  assumes "4 \<le> length (fs_incoming s)"
    and "(case fs_cs_cipher s of None \<Rightarrow> peek_plaintext_length (take 4 (fs_incoming s))
      | Some c \<Rightarrow> peek_total_length (test_kit E) c (take 4 (fs_incoming s))) = Ok n"
    and "n \<le> length (fs_incoming s)"
  shows "fs_step_packet E (fs_push zs s) =
    (case fs_open E (take n (fs_incoming s)) (fs_push zs (s\<lparr>fs_incoming := drop n (fs_incoming s)\<rparr>)) of
       (Ok payload, s') \<Rightarrow> and_then (fs_handle E payload) (\<lambda>out. ret (Some out)) s'
     | (Err e, s') \<Rightarrow> (Ok None, s') | (Panic, s') \<Rightarrow> (Panic, s'))"
  by (cases "fs_cs_cipher s"; use assms in \<open>simp add: fs_step_packet_def fs_push_def\<close>)

lemma fs_step_packet_push:
  assumes "fs_step_packet E s = (r, s1)" and "(r, s1) \<noteq> (Ok None, s)" and "r \<noteq> Panic"
  shows "fs_step_packet E (fs_push ys s) = (r, fs_push ys s1)"
proof -
  let ?len = "case fs_cs_cipher s of None \<Rightarrow> peek_plaintext_length (take 4 (fs_incoming s))
    | Some c \<Rightarrow> peek_total_length (test_kit E) c (take 4 (fs_incoming s))"
  from assms obtain n where n: "4 \<le> length (fs_incoming s)" "?len = Ok n" "n \<le> length (fs_incoming s)"
    by (auto simp: fs_step_packet_def not_less split: if_splits result.splits)
  let ?t = "s\<lparr>fs_incoming := drop n (fs_incoming s)\<rparr>"
  note whole = fs_step_packet_whole [OF n]
  obtain q t where o: "fs_open E (take n (fs_incoming s)) ?t = (q, t)" by fastforce
  show ?thesis
  proof (cases q)
    case (Ok p)
    with assms(1,3) whole [of "[]"] o show ?thesis
      by (auto simp: whole [of ys] fs_open_push and_then_def fs_handle_push split: prod.splits result.splits)
  qed (use assms(1,3) whole [of "[]"] o in \<open>auto simp: whole [of ys] fs_open_push\<close>)
qed

lemma fs_step_push:
  "fs_step E s = (r, s1) \<Longrightarrow> (r, s1) \<noteq> (Ok None, s) \<Longrightarrow> r \<noteq> Panic \<Longrightarrow>
     fs_step E (fs_push ys s) = (r, fs_push ys s1)"
  by (auto simp: fs_step_def fs_step_ident_push fs_step_packet_push split: if_splits)

lemma fs_step_push_panic:
  assumes "fs_step E s = (Panic, s1)"
  shows "\<exists>t. fs_step E (fs_push ys s) = (Panic, t)"
proof (cases "fs_phase s = AwaitingIdent")
  case True
  with assms show ?thesis by (auto simp: fs_step_def dest: fs_step_ident_push [of s Panic _ ys])
next
  case False
  let ?len = "case fs_cs_cipher s of None \<Rightarrow> peek_plaintext_length (take 4 (fs_incoming s))
    | Some c \<Rightarrow> peek_total_length (test_kit E) c (take 4 (fs_incoming s))"
  from assms False have p: "fs_step_packet E s = (Panic, s1)" by (simp add: fs_step_def)
  have four: "4 \<le> length (fs_incoming s)" using p by (auto simp: fs_step_packet_def split: if_splits)
  show ?thesis
  proof (cases ?len)
    case (Ok n)
    with p four have n: "n \<le> length (fs_incoming s)" by (auto simp: fs_step_packet_def split: if_splits)
    note whole = fs_step_packet_whole [OF four Ok n]
    from p whole [of "[]"] have "\<exists>t. fs_step_packet E (fs_push ys s) = (Panic, t)"
      by (auto simp: whole [of ys] fs_open_push and_then_def dest: fs_handle_push_panic [of E _ _ _ ys]
          split: prod.splits result.splits)
    with False show ?thesis by (simp add: fs_step_def)
  next
    case Err
    with p four show ?thesis by (simp add: fs_step_packet_def)
  next
    case Panic
    then show ?thesis
      by (cases "fs_cs_cipher s"; use four False in \<open>simp add: fs_step_def fs_step_packet_def fs_push_def\<close>)
  qed
qed

section \<open>The answers of the server to a stream\<close>

text \<open>
  The loop ends because input is missing, and not on a packet that fails to open: after such a packet
  \<open>step\<close> also returns nothing, and what is behind it in the buffer waits for the next read.
\<close>

function fs_clean :: "u64 crates \<Rightarrow> fake_server \<Rightarrow> bool" where
  "fs_clean E s =
     (case fs_step E s of (Ok (Some _), s') \<Rightarrow> fs_clean E s' | (r, s') \<Rightarrow> (r, s') = (Ok None, s))"
  by pat_completeness auto
termination
  by (relation "measure (\<lambda>(E, s). length (fs_incoming s))") (auto dest: fs_step_progress [OF sym])

declare fs_clean.simps [simp del]

text \<open>What is left after a clean run is a server that waits, and waiting answers nothing.\<close>

lemma fs_clean_waits: "fs_clean E s \<Longrightarrow> \<exists>out s'. fs_loop E s = (Ok out, s') \<and> fs_step E s' = (Ok None, s')"
proof (induction E s rule: fs_clean.induct)
  case (1 E s)
  obtain r s1 where step: "fs_step E s = (r, s1)" by fastforce
  show ?case
  proof (cases "\<exists>out. r = Ok (Some out)")
    case True
    with 1 step show ?thesis
      by (fastforce simp: fs_clean.simps [of E s] fs_loop.simps [of E s])
  next
    case False
    with 1(2) step show ?thesis
      by (auto simp: fs_clean.simps [of E s] fs_loop.simps [of E s] split: result.splits option.splits)
  qed
qed

lemma fs_waits:
  assumes "fs_step E s = (Ok None, s)"
  shows "fs_loop E s = (Ok [], s)" and "fs_clean E s"
  using assms by (simp_all add: fs_loop.simps [of E s] fs_clean.simps [of E s])

lemma fs_clean_turn: "fs_step E s = (Ok (Some out), s1) \<Longrightarrow> fs_clean E s = fs_clean E s1"
  by (simp add: fs_clean.simps [of E s])

text \<open>A run with more input behind it: the run, then the run on the rest.\<close>

definition prepend :: "bytes \<Rightarrow> bytes result \<times> fake_server \<Rightarrow> bytes result \<times> fake_server" where
  "prepend out q = (case q of (Ok rest, t) \<Rightarrow> (Ok (out @ rest), t) | _ \<Rightarrow> q)"

lemma prepend_simps [simp]:
  "prepend [] q = q" "prepend xs (prepend ys q) = prepend (xs @ ys) q" "prepend out (Ok rest, t) = (Ok (out @ rest), t)"
  by (auto simp: prepend_def split: prod.splits result.splits)

lemma fs_loop_turn: "fs_step E s = (Ok (Some out), s1) \<Longrightarrow> fs_loop E s = prepend out (fs_loop E s1)"
  by (auto simp: fs_loop.simps [of E s] prepend_def split: prod.splits result.splits)

lemma fs_loop_push:
  "fs_clean E s \<Longrightarrow> \<exists>out s'. fs_loop E s = (Ok out, s') \<and>
     fs_clean E (fs_push ys s) = fs_clean E (fs_push ys s') \<and>
     fs_loop E (fs_push ys s) = prepend out (fs_loop E (fs_push ys s'))"
proof (induction E s rule: fs_clean.induct)
  case (1 E s)
  obtain r s1 where step: "fs_step E s = (r, s1)" by fastforce
  show ?case
  proof (cases "\<exists>out. r = Ok (Some out)")
    case True
    then obtain out where r: "r = Ok (Some out)" by blast
    have c: "fs_clean E s1" using 1(2) step r by (simp add: fs_clean.simps [of E s])
    have p: "fs_step E (fs_push ys s) = (Ok (Some out), fs_push ys s1)"
      using fs_step_push [OF step, of ys] r by simp
    from 1(1) [OF step [symmetric] r refl c] step r show ?thesis
      by (auto simp: fs_loop_turn [OF p] fs_loop_turn [of E s out s1] fs_clean.simps [of E "fs_push ys s"] p)
  next
    case False
    with 1(2) step have "fs_step E s = (Ok None, s)"
      by (auto simp: fs_clean.simps [of E s] split: result.splits option.splits)
    then show ?thesis by (simp add: fs_waits(1))
  qed
qed

lemma fs_unclean_push: "\<not> fs_clean E s \<Longrightarrow> \<not> fs_clean E (fs_push ys s)"
proof (induction E s rule: fs_clean.induct)
  case (1 E s)
  obtain r s1 where step: "fs_step E s = (r, s1)" by fastforce
  then consider "r = Panic" | "r \<noteq> Panic" "(r, s1) \<noteq> (Ok None, s)"
    using 1(2) by (auto simp: fs_clean.simps [of E s] split: result.splits option.splits)
  then show ?case
  proof cases
    case 1
    then obtain t where "fs_step E (fs_push ys s) = (Panic, t)"
      using fs_step_push_panic step by blast
    then show ?thesis by (simp add: fs_clean.simps [of E "fs_push ys s"])
  next
    case 2
    with fs_step_push [OF step 2(2,1), of ys] 1 step show ?thesis
      by (auto simp: fs_clean.simps [of E s] fs_clean.simps [of E "fs_push ys s"]
          split: result.splits option.splits)
  qed
qed

text \<open>
  The server as a consumer of a stream: all it has answered, and its state; nothing after a panic or
  a packet that fails to open.
\<close>

primrec fs_stream :: "u64 crates \<Rightarrow> bytes \<Rightarrow> (bytes \<times> fake_server) option \<Rightarrow> (bytes \<times> fake_server) option" where
  "fs_stream E data None = None"
| "fs_stream E data (Some q) =
     (if fs_clean E (fs_push data (snd q)) then
        (case fs_feed E data (snd q) of (Ok out, s) \<Rightarrow> Some (fst q @ out, s) | _ \<Rightarrow> None)
      else None)"

lemma fs_feed_push: "fs_feed E data s = fs_loop E (fs_push data s)"
  by (simp add: fs_feed_def fs_push_def)

lemma fs_stream_append: "fs_stream E (xs @ ys) q = fs_stream E ys (fs_stream E xs q)"
proof (cases q)
  case (Some p)
  obtain before s where p: "p = (before, s)" by fastforce
  show ?thesis
  proof (cases "fs_clean E (fs_push xs s)")
    case True
    from fs_loop_push [OF this, of ys] obtain out s' where "fs_loop E (fs_push xs s) = (Ok out, s')"
      "fs_clean E (fs_push (xs @ ys) s) = fs_clean E (fs_push ys s')"
      "fs_loop E (fs_push (xs @ ys) s) = prepend out (fs_loop E (fs_push ys s'))" by auto
    with True Some p show ?thesis
      by (auto simp: fs_feed_push prepend_def split: prod.splits result.splits)
  next
    case False
    with fs_unclean_push [OF this, of ys] Some p show ?thesis by simp
  qed
qed simp

interpretation server_stream: chunked "fs_stream E" "\<lambda>_. True" for E
proof unfold_locales
  fix xs q
  show "fs_stream E [] (fs_stream E xs q) = fs_stream E xs q"
    using fs_stream_append [of E xs "[]" q] by simp
qed (rule fs_stream_append TrueI)+

section \<open>The process\<close>

text \<open>\<open>str::parse\<close> to \<open>u16\<close>: digits after an optional plus sign, at least one, below 65536.\<close>

definition parse_u16 :: "str \<Rightarrow> 16 word option" where
  "parse_u16 s =
     (let ds = (case s of [] \<Rightarrow> [] | b # bs \<Rightarrow> if b = 43 then bs else s) in
      if ds = [] \<or> \<not> list_all is_digit ds \<or> decimal_value ds \<ge> 65536 then None
      else Some (of_nat (decimal_value ds)))"

definition arg :: "str list \<Rightarrow> nat \<Rightarrow> str option" where
  "arg args i = (if i < length args then Some (args ! i) else None)"

definition sshd_args :: "str list \<Rightarrow> (16 word \<times> str \<times> str) result" where
  "sshd_args args =
     (case (case arg args 1 of Some s \<Rightarrow> expect (parse_u16 s) | None \<Rightarrow> Ok 2222) of
        Ok port \<Rightarrow> Ok (port, case arg args 2 of Some u \<Rightarrow> u | None \<Rightarrow> lit ''bob'',
                       case arg args 3 of Some p \<Rightarrow> p | None \<Rightarrow> lit ''hunter2'')
      | Err e \<Rightarrow> Err e
      | Panic \<Rightarrow> Panic)"

text \<open>
  A connection: whether the identification line could be written, and the turns of the inner loop,
  each with what \<open>read\<close> returned (an error, or bytes, none at the end of the stream) and whether a
  write in that turn succeeds. When the list ends the process is waiting in \<open>read\<close>. The value is what
  was written; a panic of the server is one of the process.
\<close>

type_synonym turn = "bytes option \<times> bool"

fun serve :: "u64 crates \<Rightarrow> turn list \<Rightarrow> fake_server \<Rightarrow> bytes result" where
  "serve E [] server = Ok []"
| "serve E ((None, w) # turns) server = Ok []"
| "serve E ((Some data, w) # turns) server =
     (if data = [] then Ok []
      else case fs_feed E data server of
        (Ok outgoing, server') \<Rightarrow>
          if outgoing \<noteq> [] \<and> \<not> w then Ok []
          else (case serve E turns server' of
              Ok rest \<Rightarrow> Ok (outgoing @ rest) | Err e \<Rightarrow> Err e | Panic \<Rightarrow> Panic)
      | (Err e, _) \<Rightarrow> Err e
      | (Panic, _) \<Rightarrow> Panic)"

definition sshd_connection ::
    "u64 crates \<Rightarrow> (u64 \<Rightarrow> bytes) \<Rightarrow> str \<Rightarrow> str \<Rightarrow> bool \<times> turn list \<Rightarrow> bytes result" where
  "sshd_connection E keygen username password conn =
     (let server = fake_server_new keygen 42 username password in
      if \<not> fst conn then Ok []
      else (case serve E (snd conn) server of
          Ok out \<Rightarrow> Ok (initial_outgoing server @ out) | Err e \<Rightarrow> Err e | Panic \<Rightarrow> Panic))"

text \<open>The connections are served one after the other; one that could not be accepted is skipped.\<close>

fun accept_loop :: "u64 crates \<Rightarrow> (u64 \<Rightarrow> bytes) \<Rightarrow> str \<Rightarrow> str \<Rightarrow> (bool \<times> turn list) option list \<Rightarrow>
    bytes list result" where
  "accept_loop E keygen username password [] = Ok []"
| "accept_loop E keygen username password (None # conns) = accept_loop E keygen username password conns"
| "accept_loop E keygen username password (Some conn # conns) =
     (case sshd_connection E keygen username password conn of
        Ok out \<Rightarrow> (case accept_loop E keygen username password conns of
            Ok outs \<Rightarrow> Ok (out # outs) | Err e \<Rightarrow> Err e | Panic \<Rightarrow> Panic)
      | Err e \<Rightarrow> Err e
      | Panic \<Rightarrow> Panic)"

text \<open>\<open>main\<close>: the line on standard output and what was written to each connection.\<close>

definition sshd_main :: "u64 crates \<Rightarrow> (u64 \<Rightarrow> bytes) \<Rightarrow> str list \<Rightarrow> bool \<Rightarrow>
    (bool \<times> turn list) option list \<Rightarrow> (str \<times> bytes list) result" where
  "sshd_main E keygen args bind_ok conns =
     (case sshd_args args of
        Ok (port, username, password) \<Rightarrow>
          if \<not> bind_ok then Panic
          else (case accept_loop E keygen username password conns of
              Ok outs \<Rightarrow> Ok (lit ''LISTENING '' @ decimal (unat port) @ [10], outs)
            | Err e \<Rightarrow> Err e | Panic \<Rightarrow> Panic)
      | Err e \<Rightarrow> Err e
      | Panic \<Rightarrow> Panic)"

section \<open>What the process adds to the server\<close>

text \<open>The port it announces is the one it was given.\<close>

lemma parse_u16_decimal: "n < 65536 \<Longrightarrow> parse_u16 (decimal n) = Some (of_nat n)"
proof -
  assume n: "n < 65536"
  obtain b bs where d: "decimal n = b # bs" using decimal_neq_Nil by (cases "decimal n") auto
  have "list_all is_digit (decimal n)" by (auto simp: list_all_iff is_digit_def dest: decimal_digits)
  moreover have "b \<noteq> 43" using decimal_digits [of b n] d by auto
  ultimately show ?thesis
    using n d decimal_value_decimal [of n] by (simp add: parse_u16_def Let_def)
qed

text \<open>Reads that succeed, then the end of the stream.\<close>

definition reads_of :: "bytes list \<Rightarrow> turn list" where
  "reads_of chunks = map (\<lambda>d. (Some d, True)) chunks @ [(Some [], True)]"

lemma fold_None [simp]: "fold (fs_stream E) xss None = None"
  by (induction xss) simp_all

lemma serve_reads:
  assumes "fold (fs_stream E) chunks (Some (before, s)) = Some (out, s')" and "[] \<notin> set chunks"
  shows "\<exists>ans. out = before @ ans \<and> serve E (reads_of chunks) s = Ok ans"
  using assms
proof (induction chunks arbitrary: before s)
  case Nil
  then show ?case by (simp add: reads_of_def)
next
  case (Cons d chunks)
  from Cons.prems(1) obtain o1 s1 where f: "fs_feed E d s = (Ok o1, s1)"
    and rest: "fold (fs_stream E) chunks (Some (before @ o1, s1)) = Some (out, s')"
    by (auto split: if_splits prod.splits result.splits)
  from Cons.IH [OF rest] Cons.prems(2) obtain ans where "out = before @ o1 @ ans"
    "serve E (reads_of chunks) s1 = Ok ans" by auto
  with f Cons.prems(2) show ?case by (auto simp: reads_of_def)
qed

end
