(* ===== verification/Interop_Properties.thy ===== *)
theory Interop_Properties
  imports Interop_Session Sample_Run Fake_Sshd
begin

text \<open>
  The end-to-end tests of \<open>tests/end_to_end.rs\<close> as theorems: not for the seeds the tests fix, but
  for every seed, user, password, key, command and output, over every instance of the crates that
  behaves as documented.
\<close>

section \<open>The driver of the tests\<close>

text \<open>The identification lines are exchanged first; then the loop polls events and acts on them.\<close>

definition on_client :: "(u64 session, 'a) op \<Rightarrow> u64 session \<times> fake_server \<Rightarrow> (u64 session \<times> fake_server) option" where
  "on_client m st = (case m (fst st) of (Ok _, c) \<Rightarrow> Some (c, snd st) | _ \<Rightarrow> None)"

definition bootstrap :: "u64 crates \<Rightarrow> u64 session \<times> fake_server \<Rightarrow> (u64 session \<times> fake_server) option" where
  "bootstrap E st =
     (case take_outgoing [] (fst st) of ((client_ident, _), c) \<Rightarrow>
        Option.bind (on_client (feed_incoming E (initial_outgoing (snd st))) (c, snd st)) (\<lambda>(c1, s).
        case fs_feed E client_ident s of
          (Ok reply, s1) \<Rightarrow>
            if reply = [] then Some (c1, s1) else on_client (feed_incoming E reply) (c1, s1)
        | _ \<Rightarrow> None))"

text \<open>
  A host that accepts the key, logs in and runs one command, as the tests of \<open>end_to_end.rs\<close> do, for
  any login and command. It is not one of their loops, which are in End_To_End: it makes no assertions
  but gives back the events it saw, and a refused login or the end of the session stops it.
\<close>

fun host_loop ::
    "u64 crates \<Rightarrow> (u64 engine, unit) op \<Rightarrow> str \<Rightarrow> nat \<Rightarrow> event list \<Rightarrow> u64 session \<times> fake_server \<Rightarrow>
     (event list \<times> u64 session \<times> fake_server) option" where
  "host_loop E login command 0 seen st = None"
| "host_loop E login command (Suc k) seen (c, s) =
     (case poll_event c of
        (None, c1) \<Rightarrow> Option.bind (pump E 1000 (c1, s)) (host_loop E login command k seen)
      | (Some ev, c1) \<Rightarrow>
          (let act = (\<lambda>m. Option.bind (on_client m (c1, s)) (\<lambda>st.
                 Option.bind (pump E 1000 st) (host_loop E login command k (seen @ [ev]))))
           in case ev of
             HostKeyVerify _ _ _ \<Rightarrow> act (provide_host_key_decision E True)
           | ReadyForAuth \<Rightarrow> act (on_core login)
           | AuthSuccess \<Rightarrow> act (on_core (and_then (open_exec E command) (\<lambda>_. ret ())))
           | ChannelClosed _ \<Rightarrow> Some (seen @ [ev], c1, s)
           | AuthFailure _ \<Rightarrow> Some (seen @ [ev], c1, s)
           | Unrecoverable _ \<Rightarrow> Some (seen @ [ev], c1, s)
           | _ \<Rightarrow> host_loop E login command k (seen @ [ev]) (c1, s)))"

declare host_loop.simps(2) [simp del]

definition run_session ::
    "u64 crates \<Rightarrow> (u64 engine, unit) op \<Rightarrow> str \<Rightarrow> u64 session \<times> fake_server \<Rightarrow>
     (event list \<times> u64 session \<times> fake_server) option" where
  "run_session E login command st =
     Option.bind (bootstrap E st) (\<lambda>st. Option.bind (pump E 1000 st) (host_loop E login command 1000 []))"

text \<open>
  The test that rejects the key: any event but the question and the end is a panic of the test, here
  \<open>None\<close>; afterwards more bytes arrive, and the host polls once more.
\<close>

fun reject_loop :: "u64 crates \<Rightarrow> nat \<Rightarrow> event list \<Rightarrow> u64 session \<times> fake_server \<Rightarrow>
     (event list \<times> u64 session \<times> fake_server) option" where
  "reject_loop E 0 seen st = Some (seen, st)"
| "reject_loop E (Suc k) seen (c, s) =
     (case poll_event c of
        (None, c1) \<Rightarrow> Some (seen, c1, s)
      | (Some ev, c1) \<Rightarrow>
          (case ev of
             HostKeyVerify _ _ _ \<Rightarrow> Option.bind (on_client (provide_host_key_decision E False) (c1, s))
                 (reject_loop E k (seen @ [ev]))
           | Unrecoverable _ \<Rightarrow> Some (seen @ [ev], c1, s)
           | _ \<Rightarrow> None))"

definition reject_session :: "u64 crates \<Rightarrow> bytes \<Rightarrow> u64 session \<times> fake_server \<Rightarrow>
     (event list \<times> event option \<times> u64 session) option" where
  "reject_session E garbage st =
     Option.bind (bootstrap E st) (\<lambda>st. Option.bind (pump E 1000 st) (\<lambda>st.
     Option.bind (reject_loop E 1000 [] st) (\<lambda>(seen, st).
     Option.bind (on_client (feed_incoming E garbage) st) (\<lambda>(c, s).
       case poll_event c of (e, c1) \<Rightarrow> Some (seen, e, c1)))))"

lemma thousand: "(1000 :: nat) = Suc (Suc (Suc (Suc 996)))" "(996 :: nat) = Suc (Suc (Suc (Suc (Suc (Suc 990)))))"
  by simp_all

section \<open>The handshake\<close>

text \<open>The client has verified the key and asks the host; the server's NEWKEYS is in its buffer.\<close>

definition asks :: "u64 session \<Rightarrow> fake_server \<Rightarrow> bool" where
  "asks c s \<longleftrightarrow>
     phase (core c) = AwaitingHostKeyDecision \<and> sc_cipher (core c) = None \<and>
     cs_cipher (core c) = None \<and> outgoing (core c) = [] \<and>
     session_id (core c) = Some (fs_session_id s) \<and>
     channels (core c) = table_new \<and> fs_phase s = AwaitingNewKeys \<and> fs_incoming s = [] \<and> fs_cs_cipher s = None \<and>
     (\<exists>ciphers r r'. pending_ciphers (core c) = Some ciphers \<and>
        fs_cs_cipher_pending s = Some (dc_cs ciphers) \<and> fs_sc_cipher s = Some (dc_sc ciphers) \<and>
        seal_plaintext test_rng_fill [MSG_NEWKEYS] r = (incoming c, r'))"

definition new_bench :: "fake_server \<Rightarrow> bool" where
  "new_bench s \<longleftrightarrow> fs_phase s = AwaitingIdent \<and> fs_incoming s = [] \<and> fs_own_ident_line s = server_line \<and>
     fs_cs_cipher s = None \<and> fs_sc_cipher s = None"

lemma plaintext_not_empty: "seal_plaintext f p r = (w, r') \<Longrightarrow> w \<noteq> []"
  by (auto simp: seal_plaintext_def split: prod.splits dest: arg_cong [where f = length])

text \<open>Both identification lines have arrived, and the client's KEXINIT is queued (\<open>greeted\<close>).\<close>

lemma bootstrapped:
  assumes E: "bench_ok E" and s: "new_bench s" and key: "signs_ok E (fs_host_key s)"
  obtains c1 s1 where "bootstrap E (session_new seed, s) = Some (c1, s1)" and "greeted E c1 s1"
    and "same_account s s1" and "fs_host_key s1 = fs_host_key s"
proof -
  let ?c = "(session_new seed)\<lparr>core := (engine_new seed)\<lparr>outgoing := []\<rparr>\<rparr>"
  have take: "take_outgoing [] (session_new seed) = ((client_ident_line, length client_ident_line), ?c)"
    by (simp add: take_outgoing_def session_new_def engine_new_def)
  obtain ip w r1 r2 where ip: "is_kexinit_payload E ip" "seal_plaintext test_rng_fill ip r1 = (w, r2)"
    and feed: "feed_incoming E (server_line @ [13, 10]) ?c =
      (Ok (), ?c\<lparr>core := (core ?c)\<lparr>ident := \<lparr>scan_buf = [], total_scanned = 28,
        server_ident = Some server_line\<rparr>, peer_ident_line := server_line, phase := KexInProgress,
        rng := r2, own_kexinit_payload := ip, outgoing := w\<rparr>\<rparr>)"
    using client_greets [OF E, of ?c seed] by (auto simp: session_new_def)
  have boot: "bootstrap E (session_new seed, s) = Some (?c\<lparr>core := (core ?c)\<lparr>ident := \<lparr>scan_buf = [],
        total_scanned = 28, server_ident = Some server_line\<rparr>, peer_ident_line := server_line,
        phase := KexInProgress, rng := r2, own_kexinit_payload := ip, outgoing := w\<rparr>\<rparr>,
      s\<lparr>fs_peer_ident_line := take (length client_ident_line - 2) client_ident_line,
        fs_phase := AwaitingKexInit\<rparr>)"
    using s feed take server_greets [of s E]
    by (simp add: bootstrap_def on_client_def initial_outgoing_def new_bench_def)
  show thesis
    using ip s key by (intro that [OF boot])
      (auto simp: engine_new_def session_new_def new_bench_def greeted_def fresh_def same_account_def)
qed

text \<open>Both KEXINIT payloads are known to both sides, and the client's ECDH_INIT is on its way.\<close>

definition exchanging :: "u64 crates \<Rightarrow> u64 session \<Rightarrow> fake_server \<Rightarrow> bool" where
  "exchanging E c s \<longleftrightarrow>
     phase (core c) = KexInProgress \<and> incoming c = [] \<and> events (core c) = [] \<and> fresh (core c) \<and>
     own_ident_line (core c) = fs_peer_ident_line s \<and> peer_ident_line (core c) = fs_own_ident_line s \<and>
     own_kexinit_payload (core c) = fs_peer_kexinit_payload s \<and>
     peer_kexinit_payload (core c) = fs_own_kexinit_payload s \<and> negotiated (core c) = Some our_choice \<and>
     (\<exists>kp r r'. active_kex (core c) = Some (Curve25519 kp) \<and> is_keypair E kp \<and>
        seal_plaintext test_rng_fill (ecdh_build_init_message kp) r = (outgoing (core c), r')) \<and>
     fs_phase s = AwaitingKexEcdhInit \<and> fs_incoming s = [] \<and> fs_cs_cipher s = None \<and>
     signs_ok E (fs_host_key s)"

lemma kexinit_round:
  assumes E: "bench_ok E" and g: "greeted E c1 s1"
  obtains c2 s2 where "pump E (Suc n) (c1, s1) = pump E n (c2, s2)" and "exchanging E c2 s2"
    and "same_account s1 s2" and "fs_host_key s2 = fs_host_key s1"
proof -
  from g obtain r r' where ip: "is_kexinit_payload E (own_kexinit_payload (core c1))"
    and w1: "seal_plaintext test_rng_fill (own_kexinit_payload (core c1)) r = (outgoing (core c1), r')"
    and c1: "phase (core c1) = KexInProgress" "incoming c1 = []" "sc_cipher (core c1) = None"
      "cs_cipher (core c1) = None"
    and s1: "fs_cs_cipher s1 = None" "fs_phase s1 \<noteq> AwaitingIdent" "fs_incoming s1 = []"
    by (auto simp: greeted_def fresh_def)
  obtain sp w2 q1 q2 where sp: "is_kexinit_payload E sp" "seal_plaintext test_rng_fill sp q1 = (w2, q2)"
    and feed1: "fs_feed E (outgoing (core c1)) s1 = (Ok w2, s1\<lparr>fs_peer_kexinit_payload :=
      own_kexinit_payload (core c1), fs_rng := q2, fs_own_kexinit_payload := sp,
      fs_phase := AwaitingKexEcdhInit\<rparr>)"
    using server_kexinit [OF E s1 ip w1] by blast
  let ?s = "s1\<lparr>fs_peer_kexinit_payload := own_kexinit_payload (core c1), fs_rng := q2,
      fs_own_kexinit_payload := sp, fs_phase := AwaitingKexEcdhInit\<rparr>"
  let ?c1 = "c1\<lparr>core := (core c1)\<lparr>outgoing := []\<rparr>\<rparr>"
  obtain kp w3 q3 q4 where kp: "is_keypair E kp"
      "seal_plaintext test_rng_fill (ecdh_build_init_message kp) q3 = (w3, q4)"
    and recv1: "feed_incoming E w2 ?c1 = (Ok (), ?c1\<lparr>core := (core ?c1)\<lparr>peer_kexinit_payload := sp,
      rng := q4, active_kex := Some (Curve25519 kp), outgoing := outgoing (core ?c1) @ w3,
      negotiated := Some our_choice\<rparr>\<rparr>)"
    using client_kexinit [OF E, of ?c1 sp q1 w2 q2] c1 ip sp by auto
  let ?c = "?c1\<lparr>core := (core ?c1)\<lparr>peer_kexinit_payload := sp, rng := q4,
      active_kex := Some (Curve25519 kp), outgoing := w3, negotiated := Some our_choice\<rparr>\<rparr>"
  have round1: "pump E (Suc n) (c1, s1) = pump E n (?c, ?s)"
    using recv1 plaintext_not_empty [OF w1] plaintext_not_empty [OF sp(2)]
    by (intro pump_round [OF refl _ feed1]) simp_all
  show thesis
    using g kp by (intro that [OF round1])
      (auto simp: greeted_def exchanging_def fresh_def same_account_def)
qed

lemma exchange_round:
  assumes E: "bench_ok E" and x: "exchanging E c2 s2"
  obtains c3 s3 k where "pump E (Suc (Suc n)) (c2, s2) = Some (c3, s3)" and "asks c3 s3"
    and "same_account s2 (s3\<lparr>fs_session_id := fs_session_id s2\<rparr>)"
    and "pubkey_to_bytes E (privkey_public E (fs_host_key s2)) = Inr (hk_blob k)"
    and "hostkey_parse E (hk_blob k) = Ok k"
    and "events (core c3) = [HostKeyVerify (algorithm_name E k) (fingerprint_sha256 E k) (hk_blob k)]"
proof -
  from x obtain kp r r' where kp: "active_kex (core c2) = Some (Curve25519 kp)" "is_keypair E kp"
    and w3: "seal_plaintext test_rng_fill (ecdh_build_init_message kp) r = (outgoing (core c2), r')"
    and s2: "fs_cs_cipher s2 = None" "fs_phase s2 \<noteq> AwaitingIdent" "fs_incoming s2 = []"
      "signs_ok E (fs_host_key s2)"
    by (auto simp: exchanging_def)
  obtain kps blob sg h ciphers w4 w5 q5 q6 q7 where blob: "pubkey_to_bytes E (privkey_public E (fs_host_key s2)) = Inr blob"
    and ag: "agreed E kp kps [fs_peer_ident_line s2, fs_own_ident_line s2, fs_peer_kexinit_payload s2,
      fs_own_kexinit_payload s2] blob sg h ciphers"
    and w4: "seal_plaintext test_rng_fill (ecdh_reply_message blob (kp_public_bytes kps) sg) q5 = (w4, q6)"
    and w5: "seal_plaintext test_rng_fill [MSG_NEWKEYS] q6 = (w5, q7)"
    and feed2: "fs_feed E (outgoing (core c2)) s2 = (Ok (w4 @ w5), s2\<lparr>fs_rng := q7, fs_session_id := h,
      fs_cs_cipher_pending := Some (dc_cs ciphers), fs_phase := AwaitingNewKeys,
      fs_sc_cipher := Some (dc_sc ciphers)\<rparr>)"
    using server_exchange [OF E s2 kp(2) w3] by blast
  let ?s = "s2\<lparr>fs_rng := q7, fs_session_id := h, fs_cs_cipher_pending := Some (dc_cs ciphers),
      fs_phase := AwaitingNewKeys, fs_sc_cipher := Some (dc_sc ciphers)\<rparr>"
  let ?c2 = "c2\<lparr>core := (core c2)\<lparr>outgoing := []\<rparr>\<rparr>"
  obtain k K where k: "hk_blob k = blob" "hostkey_parse E blob = Ok k" and recv: "feed_incoming E (w4 @ w5) ?c2 =
    (Ok (), ?c2\<lparr>core := (core ?c2)\<lparr>active_kex := None, pending_ciphers := Some ciphers,
       session_id := Some h, pending_host_key := Some (k, h, K), phase := AwaitingHostKeyDecision,
       events := events (core ?c2) @ [HostKeyVerify (algorithm_name E k) (fingerprint_sha256 E k) blob]\<rparr>,
     incoming := w5\<rparr>)"
    using client_reply [OF E, of ?c2 kp kps blob sg h ciphers q5 w4 q6 w5] x kp ag w4
    by (auto simp: exchanging_def fresh_def)
  let ?c = "?c2\<lparr>core := (core ?c2)\<lparr>active_kex := None, pending_ciphers := Some ciphers,
       session_id := Some h, pending_host_key := Some (k, h, K), phase := AwaitingHostKeyDecision,
       events := events (core ?c2) @ [HostKeyVerify (algorithm_name E k) (fingerprint_sha256 E k) blob]\<rparr>,
     incoming := w5\<rparr>"
  have "pump E (Suc (Suc n)) (c2, s2) = pump E (Suc n) (?c, ?s)"
    using plaintext_not_empty [OF w3] plaintext_not_empty [OF w4] recv
    by (intro pump_round [OF refl _ feed2]) simp_all
  also have "\<dots> = Some (?c, ?s)" by (rule pump_settled) simp
  finally have pumped: "pump E (Suc (Suc n)) (c2, s2) = Some (?c, ?s)" .
  show thesis
    using x k blob w5 s2
    by (intro that [OF pumped, of k]) (auto simp: asks_def exchanging_def fresh_def same_account_def)
qed

lemma handshake:
  assumes E: "bench_ok E" and s: "new_bench s" and key: "signs_ok E (fs_host_key s)"
  obtains c1 s1 c' s' k where "bootstrap E (session_new seed, s) = Some (c1, s1)"
    and "pump E (Suc (Suc (Suc n))) (c1, s1) = Some (c', s')" and "asks c' s'"
    and "same_account s (s'\<lparr>fs_session_id := fs_session_id s\<rparr>)"
    and "pubkey_to_bytes E (privkey_public E (fs_host_key s)) = Inr (hk_blob k)"
    and "hostkey_parse E (hk_blob k) = Ok k"
    and "events (core c') = [HostKeyVerify (algorithm_name E k) (fingerprint_sha256 E k) (hk_blob k)]"
proof -
  obtain c1 s1 where 1: "bootstrap E (session_new seed, s) = Some (c1, s1)" "greeted E c1 s1"
    "same_account s s1" "fs_host_key s1 = fs_host_key s"
    using bootstrapped [OF E s key] .
  obtain c2 s2 where 2: "pump E (Suc (Suc (Suc n))) (c1, s1) = pump E (Suc (Suc n)) (c2, s2)"
    "exchanging E c2 s2" "same_account s1 s2" "fs_host_key s2 = fs_host_key s1"
    using kexinit_round [OF E 1(2)] .
  obtain c3 s3 k where 3: "pump E (Suc (Suc n)) (c2, s2) = Some (c3, s3)" "asks c3 s3"
    "same_account s2 (s3\<lparr>fs_session_id := fs_session_id s2\<rparr>)"
    "pubkey_to_bytes E (privkey_public E (fs_host_key s2)) = Inr (hk_blob k)" "hostkey_parse E (hk_blob k) = Ok k"
    "events (core c3) = [HostKeyVerify (algorithm_name E k) (fingerprint_sha256 E k) (hk_blob k)]"
    using exchange_round [OF E 2(2)] .
  show thesis
    by (rule that [OF 1(1), of c3 s3 k]) (use 1 2 3 in \<open>simp_all add: same_account_def\<close>)
qed

section \<open>After the host has accepted the key\<close>

lemma accept_round:
  assumes E: "bench_ok E" and a: "asks c s"
  obtains c1 c' s' where "provide_host_key_decision E True c = (Ok (), c1)"
    and "pump E (Suc (Suc n)) (c1, s) = Some (c', s')" and "linked c' s'" and "outgoing (core c') = []"
    and "phase (core c') = UserAuth" and "channels (core c') = table_new" and "same_account s s'"
    and "events (core c') = events (core c) @ [ReadyForAuth]"
proof -
  from a obtain ciphers r r' where p: "phase (core c) = AwaitingHostKeyDecision"
      "pending_ciphers (core c) = Some ciphers" "sc_cipher (core c) = None" "outgoing (core c) = []"
    and s: "fs_cs_cipher s = None" "fs_incoming s = []" "fs_phase s = AwaitingNewKeys"
      "fs_cs_cipher_pending s = Some (dc_cs ciphers)" "fs_sc_cipher s = Some (dc_sc ciphers)"
    and nk: "seal_plaintext test_rng_fill [MSG_NEWKEYS] r = (incoming c, r')"
    by (auto simp: asks_def)
  obtain nk wire b r1 r2 r3 where w: "seal_plaintext test_rng_fill [MSG_NEWKEYS] r1 = (nk, r2)"
    "cipher_seal E (build_service_request SERVICE_USERAUTH) (dc_cs ciphers, r2) = (Ok wire, (b, r3))"
    and accept: "provide_host_key_decision E True c = (Ok (), c\<lparr>core := (core c)\<lparr>pending_host_key := None,
      rng := r3, outgoing := nk @ wire, pending_ciphers := None, cs_cipher := Some b,
      pending_sc_cipher := None, sc_cipher := Some (dc_sc ciphers), phase := ServiceRequest\<rparr>,
      incoming := []\<rparr>)"
    using client_accepts [OF E p refl nk] by blast
  let ?c1 = "c\<lparr>core := (core c)\<lparr>pending_host_key := None,
      rng := r3, outgoing := nk @ wire, pending_ciphers := None, cs_cipher := Some b,
      pending_sc_cipher := None, sc_cipher := Some (dc_sc ciphers), phase := ServiceRequest\<rparr>,
      incoming := []\<rparr>"
  let ?m = "MSG_SERVICE_ACCEPT # write_string SERVICE_USERAUTH"
  obtain reply b' q where reply: "cipher_seal E ?m (dc_sc ciphers, fs_rng s) = (Ok reply, (b', q))" "reply \<noteq> []"
    and feed: "fs_feed E (nk @ wire) s = (Ok reply, s\<lparr>fs_cs_cipher := Some b, fs_cs_cipher_pending := None,
      fs_phase := AwaitingUserAuth, fs_sc_cipher := Some b', fs_rng := q\<rparr>)"
    using server_serves [OF E s w] by blast
  let ?s = "s\<lparr>fs_cs_cipher := Some b, fs_cs_cipher_pending := None,
      fs_phase := AwaitingUserAuth, fs_sc_cipher := Some b', fs_rng := q\<rparr>"
  let ?c2 = "?c1\<lparr>core := (core ?c1)\<lparr>outgoing := []\<rparr>\<rparr>"
  let ?d = "(core ?c2)\<lparr>sc_cipher := Some b', phase := UserAuth, events := events (core c) @ [ReadyForAuth]\<rparr>"
  have "parse_service_accept ?m = Ok SERVICE_USERAUTH"
    using parse_service_accept_round_trip [of SERVICE_USERAUTH "[]"]
    by (simp add: fits_u32_def SERVICE_USERAUTH_def utf8_valid_lit_ascii)
  then have "dispatch E MSG_SERVICE_ACCEPT ?m ((core ?c2)\<lparr>sc_cipher := Some b'\<rparr>) = (Ok (), ?d)"
    by (simp add: dispatch_def msg_codes handle_service_accept_def push_event_def set_phase_def)
  moreover have "payload_fits ?m" by (rule small_fits) (simp add: SERVICE_USERAUTH_def)
  ultimately have "feed_incoming E reply ?c2 = (Ok (), ?c2\<lparr>core := ?d\<rparr>)"
    by (intro client_hears_one [OF E _ _ reply(1) refl]) (simp_all add: paused_def)
  then have "pump E (Suc (Suc n)) (?c1, s) = pump E (Suc n) (?c2\<lparr>core := ?d\<rparr>, ?s)"
    using feed reply(2) plaintext_not_empty [OF w(1)] by (intro pump_round [where out = "nk @ wire"]) simp_all
  also have "\<dots> = Some (?c2\<lparr>core := ?d\<rparr>, ?s)" by (rule pump_settled) simp
  finally have pumped: "pump E (Suc (Suc n)) (?c1, s) = Some (?c2\<lparr>core := ?d\<rparr>, ?s)" .
  show thesis
    using a by (intro that [OF accept pumped]) (simp_all add: linked_def asks_def same_account_def)
qed

section \<open>The whole session\<close>

definition logs_in :: "u64 crates \<Rightarrow> (u64 engine, unit) op \<Rightarrow> bool \<Rightarrow> fake_server \<Rightarrow> bool" where
  "logs_in E login ok s0 \<longleftrightarrow>
     (\<forall>c s. linked c s \<longrightarrow> outgoing (core c) = [] \<longrightarrow> phase (core c) = UserAuth \<longrightarrow>
        same_account s0 (s\<lparr>fs_session_id := fs_session_id s0\<rparr>) \<longrightarrow>
        (\<exists>c1 c' s'. login (core c) = (Ok (), c1) \<and> pump E 1000 (c\<lparr>core := c1\<rparr>, s) = Some (c', s') \<and>
           (if ok then logged_in c c' s s' else refused c c' s s')))"

lemma password_logs_in:
  assumes "bench_ok E" "length user \<le> 1000" "length password \<le> 1000" "utf8_valid user" "utf8_valid password"
  shows "logs_in E (authenticate_password E user password)
    (user = fs_username s0 \<and> password = fs_password s0) s0"
  unfolding logs_in_def thousand(1)
proof (intro allI impI)
  fix c s
  assume "linked c s" "outgoing (core c) = []" "phase (core c) = UserAuth"
    and same: "same_account s0 (s\<lparr>fs_session_id := fs_session_id s0\<rparr>)"
  from same have "fs_username s0 = fs_username s" "fs_password s0 = fs_password s"
    by (simp_all add: same_account_def)
  then show "\<exists>c1 c' s'. authenticate_password E user password (core c) = (Ok (), c1) \<and>
      pump E (Suc (Suc (Suc (Suc 996)))) (c\<lparr>core := c1\<rparr>, s) = Some (c', s') \<and>
      (if user = fs_username s0 \<and> password = fs_password s0 then logged_in c c' s s' else refused c c' s s')"
    by (simp only: password_login [OF assms(1) \<open>linked c s\<close> \<open>outgoing (core c) = []\<close>
        \<open>phase (core c) = UserAuth\<close> assms(2-5)])
qed

lemma key_logs_in:
  assumes "bench_ok E" "length user \<le> 1000" "utf8_valid user" "login_key E key"
  shows "logs_in E (authenticate_publickey E user key) (user = fs_username s0) s0"
  unfolding logs_in_def thousand(1)
proof (intro allI impI)
  fix c s
  assume "linked c s" "outgoing (core c) = []" "phase (core c) = UserAuth"
    and same: "same_account s0 (s\<lparr>fs_session_id := fs_session_id s0\<rparr>)"
  from same have "fs_username s0 = fs_username s" by (simp add: same_account_def)
  then show "\<exists>c1 c' s'. authenticate_publickey E user key (core c) = (Ok (), c1) \<and>
      pump E (Suc (Suc (Suc (Suc 996)))) (c\<lparr>core := c1\<rparr>, s) = Some (c', s') \<and>
      (if user = fs_username s0 then logged_in c c' s s' else refused c c' s s')"
    by (simp only: key_login [OF assms(1) \<open>linked c s\<close> \<open>outgoing (core c) = []\<close>
        \<open>phase (core c) = UserAuth\<close> assms(2-4)])
qed

definition clear :: "u64 session \<Rightarrow> u64 session" where
  "clear c = c\<lparr>core := (core c)\<lparr>events := []\<rparr>\<rparr>"

lemma poll_one: "events (core c) = e # es \<Longrightarrow> poll_event c = (Some e, c\<lparr>core := (core c)\<lparr>events := es\<rparr>\<rparr>)"
  by (simp add: poll_event_def)

lemma loop_accepts:
  assumes "events (core c) = [HostKeyVerify al fp blob]"
    and "provide_host_key_decision E True (clear c) = (Ok (), d)" and "pump E 1000 (d, s) = Some st"
  shows "host_loop E login command (Suc k) seen (c, s) =
    host_loop E login command k (seen @ [HostKeyVerify al fp blob]) st"
  using assms by (simp add: host_loop.simps(2) poll_one on_client_def Let_def clear_def)

lemma loop_logs_in:
  assumes "events (core c) = [ReadyForAuth]" and "login (core (clear c)) = (Ok (), d)"
    and "pump E 1000 ((clear c)\<lparr>core := d\<rparr>, s) = Some st"
  shows "host_loop E login command (Suc k) seen (c, s) = host_loop E login command k (seen @ [ReadyForAuth]) st"
  using assms by (simp add: host_loop.simps(2) poll_one on_client_def on_core_def Let_def clear_def)

text \<open>
  What a host that accepts the key and logs in goes through, whatever loop it runs: the question, the
  request to log in, the verdict.
\<close>

lemma login_run:
  assumes E: "bench_ok E" and s: "new_bench s" and key: "signs_ok E (fs_host_key s)"
    and m: "logs_in E login ok s"
  obtains c1 s1 c2 s2 k d3 c3 s3 d4 c4 s4 where "bootstrap E (session_new seed, s) = Some (c1, s1)"
    and "pump E 1000 (c1, s1) = Some (c2, s2)"
    and "pubkey_to_bytes E (privkey_public E (fs_host_key s)) = Inr (hk_blob k)"
    and "hostkey_parse E (hk_blob k) = Ok k"
    and "events (core c2) = [HostKeyVerify (algorithm_name E k) (fingerprint_sha256 E k) (hk_blob k)]"
    and "provide_host_key_decision E True (clear c2) = (Ok (), d3)" and "pump E 1000 (d3, s2) = Some (c3, s3)"
    and "events (core c3) = [ReadyForAuth]"
    and "login (core (clear c3)) = (Ok (), d4)" and "pump E 1000 ((clear c3)\<lparr>core := d4\<rparr>, s3) = Some (c4, s4)"
    and "linked c4 s4" and "outgoing (core c4) = []" and "channels (core c4) = table_new"
    and "same_account s (s4\<lparr>fs_session_id := fs_session_id s\<rparr>)"
    and "phase (core c4) = (if ok then Connected else UserAuth)"
    and "events (core c4) = [if ok then AuthSuccess else AuthFailure [lit ''password'', lit ''publickey'']]"
proof -
  obtain c1 s1 c2 s2 k where hs: "bootstrap E (session_new seed, s) = Some (c1, s1)"
      "pump E 1000 (c1, s1) = Some (c2, s2)" and a: "asks c2 s2"
      and same2: "same_account s (s2\<lparr>fs_session_id := fs_session_id s\<rparr>)"
    and k: "pubkey_to_bytes E (privkey_public E (fs_host_key s)) = Inr (hk_blob k)"
      "hostkey_parse E (hk_blob k) = Ok k"
      "events (core c2) = [HostKeyVerify (algorithm_name E k) (fingerprint_sha256 E k) (hk_blob k)]"
    unfolding thousand(1) by (rule handshake [OF E s key, of seed "Suc 996"])
  have "asks (clear c2) s2" using a by (simp add: asks_def clear_def)
  then obtain d3 c3 s3 where a3: "provide_host_key_decision E True (clear c2) = (Ok (), d3)"
    "pump E 1000 (d3, s2) = Some (c3, s3)" "events (core c3) = [ReadyForAuth]"
    and l3: "linked c3 s3" "outgoing (core c3) = []" "phase (core c3) = UserAuth"
      "channels (core c3) = table_new" "same_account s2 s3"
    unfolding thousand(1) by (rule accept_round [OF E, of "clear c2" s2 "Suc (Suc 996)"]) (simp add: clear_def)
  have "linked (clear c3) s3" "outgoing (core (clear c3)) = []" "phase (core (clear c3)) = UserAuth"
    using l3 by (simp_all add: linked_def clear_def)
  moreover have same3: "same_account s (s3\<lparr>fs_session_id := fs_session_id s\<rparr>)"
    using same2 l3(5) by (simp add: same_account_def)
  ultimately obtain d4 c4 s4 where a4: "login (core (clear c3)) = (Ok (), d4)"
      "pump E 1000 ((clear c3)\<lparr>core := d4\<rparr>, s3) = Some (c4, s4)"
    and v: "if ok then logged_in (clear c3) c4 s3 s4 else refused (clear c3) c4 s3 s4"
    using m unfolding logs_in_def by blast
  show thesis
    by (rule that [OF hs k a3 a4])
      (use v l3(4) same3 in \<open>simp_all add: logged_in_def refused_def keeps_channels_def same_account_def
        clear_def split: if_splits\<close>)
qed

lemma loop_runs:
  assumes E: "bench_ok E" and l: "linked c s" "outgoing (core c) = []" "phase (core c) = Connected"
    and t: "channels (core c) = table_new" and e: "events (core c) = [AuthSuccess]"
    and len: "length command \<le> 100000" "utf8_valid command" "length (fs_default_exec_output s) \<le> 100000"
  obtains c' s' where "host_loop E login command (Suc (Suc (Suc (Suc (Suc (Suc k)))))) seen (c, s) =
      Some (seen @ [AuthSuccess, ChannelOpened 0, ChannelData 0 Stdout (fs_default_exec_output s),
        ChannelExitStatus 0 (Some 0) None, ChannelEof 0, ChannelClosed 0], c', s')"
    and "linked c' s'" "phase (core c') = Connected" "fs_last_exec_command s' = Some command"
    and "ct_channels (channels (core c')) 0 = None"
proof -
  have "linked (clear c) s" "outgoing (core (clear c)) = []" "phase (core (clear c)) = Connected"
    "ct_next_id (channels (core (clear c))) = 0"
    using l t by (simp_all add: linked_def clear_def table_new_def)
  from run_command [OF E this len, of "Suc 996"]
  obtain c1 c' s' where r: "open_exec E command (core (clear c)) = (Ok 0, c1)"
    "pump E 1000 ((clear c)\<lparr>core := c1\<rparr>, s) = Some (c', s')" "linked c' s'"
    "phase (core c') = Connected" "fs_last_exec_command s' = Some command"
    "ct_channels (channels (core c')) 0 = None"
    "events (core c') = [ChannelOpened 0, ChannelData 0 Stdout (fs_default_exec_output s),
        ChannelExitStatus 0 (Some 0) None, ChannelEof 0, ChannelClosed 0]"
    unfolding thousand(1) by (auto simp: clear_def)
  have "linked (c'\<lparr>core := (core c')\<lparr>events := es\<rparr>\<rparr>) s'" for es using r(3) by (simp add: linked_def)
  with r e show thesis
    by (intro that [of "clear c'" s'])
      (simp_all add: host_loop.simps(2) poll_one on_client_def on_core_def Let_def clear_def and_then_def)
qed

lemma loop_refused:
  "events (core c) = [AuthFailure ms] \<Longrightarrow> host_loop E login command (Suc k) seen (c, s) =
     Some (seen @ [AuthFailure ms], clear c, s)"
  by (simp add: host_loop.simps(2) poll_one Let_def clear_def)

lemma session_outcome:
  assumes E: "bench_ok E" and s: "new_bench s" and key: "signs_ok E (fs_host_key s)"
    and m: "logs_in E login ok s"
    and len: "length command \<le> 100000" "utf8_valid command" "length (fs_default_exec_output s) \<le> 100000"
  obtains k c' s' where "pubkey_to_bytes E (privkey_public E (fs_host_key s)) = Inr (hk_blob k)"
    and "hostkey_parse E (hk_blob k) = Ok k"
    and "run_session E login command (session_new seed, s) =
      Some ([HostKeyVerify (algorithm_name E k) (fingerprint_sha256 E k) (hk_blob k), ReadyForAuth] @
        (if ok then [AuthSuccess, ChannelOpened 0, ChannelData 0 Stdout (fs_default_exec_output s),
           ChannelExitStatus 0 (Some 0) None, ChannelEof 0, ChannelClosed 0]
         else [AuthFailure [lit ''password'', lit ''publickey'']]), c', s')"
    and "linked c' s'" and "phase (core c') = (if ok then Connected else UserAuth)"
    and "fs_last_exec_command s' = (if ok then Some command else fs_last_exec_command s)"
proof -
  obtain c1 s1 c2 s2 k d3 c3 s3 d4 c4 s4 where hs: "bootstrap E (session_new seed, s) = Some (c1, s1)"
      "pump E 1000 (c1, s1) = Some (c2, s2)"
    and k: "pubkey_to_bytes E (privkey_public E (fs_host_key s)) = Inr (hk_blob k)" "hostkey_parse E (hk_blob k) = Ok k"
    and e: "events (core c2) = [HostKeyVerify (algorithm_name E k) (fingerprint_sha256 E k) (hk_blob k)]"
      "provide_host_key_decision E True (clear c2) = (Ok (), d3)" "pump E 1000 (d3, s2) = Some (c3, s3)"
      "events (core c3) = [ReadyForAuth]" "login (core (clear c3)) = (Ok (), d4)"
      "pump E 1000 ((clear c3)\<lparr>core := d4\<rparr>, s3) = Some (c4, s4)"
    and c4: "linked c4 s4" "outgoing (core c4) = []" "channels (core c4) = table_new"
      "same_account s (s4\<lparr>fs_session_id := fs_session_id s\<rparr>)" "phase (core c4) = (if ok then Connected else UserAuth)"
      "events (core c4) = [if ok then AuthSuccess else AuthFailure [lit ''password'', lit ''publickey'']]"
    by (rule login_run [OF E s key m, of seed])
  let ?ev = "HostKeyVerify (algorithm_name E k) (fingerprint_sha256 E k) (hk_blob k)"
  have n: "(1000 :: nat) = Suc (Suc (Suc (Suc (Suc (Suc (Suc (Suc 992)))))))" by simp
  have run: "run_session E login command (session_new seed, s) =
      host_loop E login command (Suc (Suc (Suc (Suc (Suc (Suc 992)))))) [?ev, ReadyForAuth] (c4, s4)"
  proof -
    have "run_session E login command (session_new seed, s) = host_loop E login command 1000 [] (c2, s2)"
      by (simp add: run_session_def hs)
    then show ?thesis
      unfolding n loop_accepts [OF e(1-3)] loop_logs_in [where login = login, OF e(4-6)] by simp
  qed
  show thesis
  proof (cases ok)
    case True
    with c4 have "phase (core c4) = Connected" "events (core c4) = [AuthSuccess]"
      and "fs_default_exec_output s4 = fs_default_exec_output s" by (simp_all add: same_account_def)
    then show thesis
      using loop_runs [OF E c4(1,2) _ c4(3) _ len(1,2), of login 992 "[?ev, ReadyForAuth]"] len(3)
        that [OF k] True unfolding run by (simp split: if_splits) blast
  next
    case False
    with c4(6) have f: "events (core c4) = [AuthFailure [lit ''password'', lit ''publickey'']]" by simp
    have "linked (clear c4) s4" using c4(1) by (simp add: linked_def clear_def)
    with c4 False loop_refused [OF f, of E login command "Suc (Suc (Suc (Suc (Suc 992))))" "[?ev, ReadyForAuth]" s4]
    show thesis
      unfolding run [symmetric]
      by (intro that [OF k, of "clear c4" s4]) (simp_all add: clear_def same_account_def)
  qed
qed

section \<open>A bench that runs\<close>

text \<open>
  The crates of Sample_Crates over \<open>TestRng\<close>, with a key agreement that commutes on every input
  and short signatures; one of the keys, with the primes 3 and 5, is an RSA key.
\<close>

definition pad32 :: "bytes \<Rightarrow> bytes" where
  "pad32 k = take 32 (k @ replicate 32 0)"

definition bench_crates :: "u64 crates" where
  "bench_crates = test_kit ((toy_over (\<lambda>n s. (\<lambda>i. 0, s)) (\<lambda>s. (replicate 32 (ucast s), s + 1)) (\<lambda>b s. (2, s)))
     \<lparr>x25519_public := pad32, x25519_dh := (\<lambda>a p. map2 (XOR) (pad32 a) (pad32 p)),
      x25519_contributory := (\<lambda>k. True), verify_sig := (\<lambda>pk m s. s = pk @ [word_of_nat (length m)]),
      privkey_try_sign := (\<lambda>k m. Some (k @ [word_of_nat (length m)])),
      privkey_algorithm := (\<lambda>k. if k = [3, 3] then Rsa else Ed25519),
      privkey_rsa := (\<lambda>k. if k = [3, 3] then Some ([15], [3], [3], [3], [5]) else None),
      rsa_from_components := (\<lambda>n e d primes. if n = prod_list primes then Some [3, 3] else None),
      rsa_sign_sha512 := (\<lambda>k m. Some (k @ [word_of_nat (length m)]))\<rparr>)"

lemma pad32_simps [simp]: "length (pad32 k) = 32" "pad32 (pad32 k) = pad32 k"
  by (simp_all add: pad32_def)

lemma bench_crates_ok: "bench_ok bench_crates"
proof -
  have "test_kit (test_kit E) = test_kit E" for E by (simp add: test_kit_def)
  then have t: "test_kit bench_crates = bench_crates" by (simp only: bench_crates_def)
  have c: "ciphers_ok bench_crates"
    using toy_over_ciphers_ok
    by (simp add: bench_crates_def test_kit_def ciphers_ok_def stream_cipher_ok_def aead_ok_def)
  have e: "encoding_ok bench_crates"
    using toy_over_encoding_ok
    by (simp add: bench_crates_def test_kit_def encoding_ok_def)
  have comm: "map2 (XOR) a b = map2 (XOR) b a" for a b :: bytes
    by (rule nth_equalityI) (simp_all add: xor.commute min.commute)
  show ?thesis
    unfolding bench_ok_def using t c e comm
    by (simp add: bench_crates_def test_kit_def write_bool_def)
qed

lemma bench_signs: "length k \<le> 500 \<Longrightarrow> signs_ok bench_crates k"
  by (simp add: signs_ok_def bench_crates_def test_kit_def sig_valid_def)

lemma bench_rsa_key: "privkey_algorithm bench_crates [3, 3] = Rsa" "rsa_signs_ok bench_crates [3, 3]"
proof -
  show "privkey_algorithm bench_crates [3, 3] = Rsa" by (simp add: bench_crates_def test_kit_def)
  have "rsa_private bench_crates [3, 3] [3, 3]"
    by (simp add: rsa_private_def bench_crates_def test_kit_def be_val_def)
  then show "rsa_signs_ok bench_crates [3, 3]"
    by (auto simp: rsa_signs_ok_def bench_crates_def test_kit_def sig_valid_def intro!: exI [of _ "[3, 3]"])
qed

lemma bench_login_key:
  assumes "length k \<le> 500"
  shows "login_key bench_crates k"
proof (cases "k = [3, 3]")
  case True
  with bench_rsa_key show ?thesis by (simp add: login_key_def)
next
  case False
  then have "privkey_algorithm bench_crates k = Ed25519" "privkey_rsa bench_crates k = None"
    by (simp_all add: bench_crates_def test_kit_def)
  with bench_signs [OF assms] show ?thesis by (simp add: login_key_def)
qed

section \<open>Properties\<close>

lemma new_bench_set_up:
  "new_bench (set_exec_output printed (send_global_request_after_auth g (fake_server_new keygen seed user password)))"
  by (simp add: new_bench_def set_exec_output_def send_global_request_after_auth_def fake_server_new_def
      server_line_def)

lemma bench_simps [simp]:
  "fs_host_key (set_exec_output printed s) = fs_host_key s"
  "fs_host_key (send_global_request_after_auth g s) = fs_host_key s"
  "fs_default_exec_output (set_exec_output printed s) = printed"
  "fs_username (set_exec_output printed (send_global_request_after_auth g (fake_server_new keygen seed user password))) = user"
  "fs_password (set_exec_output printed (send_global_request_after_auth g (fake_server_new keygen seed user password))) = password"
  "fs_last_exec_command (set_exec_output printed (send_global_request_after_auth g (fake_server_new keygen seed user password))) = None"
  by (simp_all add: set_exec_output_def send_global_request_after_auth_def fake_server_new_def)

text \<open>
  C2: The end-to-end run with a password, for every seed of either side, account of the server,
  choice of the unprompted global request, and host key that the crates sign verifiably with (its
  public blob and its signatures at most 1000 bytes long); for a
  login with a user name and a password of at most 1000 bytes of UTF-8, a command of at most 100000
  bytes of UTF-8 and an output of at most 100000 bytes: the host is shown
  the key the server holds, then asked to log in; with the server's user name and password the login succeeds, and the command's
  channel reports exactly its output, exit status 0, the end and the close, and the server has
  been given that command; with any other the login is refused and nothing is run.
\<close>
theorem password_session:
  assumes E: "bench_ok E" and key: "signs_ok E (fs_host_key (fake_server_new keygen server_seed user password))"
    and account: "length login_user \<le> 1000" "length login_password \<le> 1000"
      "utf8_valid login_user" "utf8_valid login_password"
    and len: "length command \<le> 100000" "utf8_valid command" "length printed \<le> 100000"
  shows "\<exists>k c' s'. pubkey_to_bytes E (privkey_public E (fs_host_key
        (fake_server_new keygen server_seed user password))) = Inr (hk_blob k) \<and>
    hostkey_parse E (hk_blob k) = Ok k \<and>
    run_session E (authenticate_password E login_user login_password) command
      (session_new seed, set_exec_output printed (send_global_request_after_auth g
         (fake_server_new keygen server_seed user password))) =
    Some ([HostKeyVerify (algorithm_name E k) (fingerprint_sha256 E k) (hk_blob k), ReadyForAuth] @
      (if login_user = user \<and> login_password = password
       then [AuthSuccess, ChannelOpened 0, ChannelData 0 Stdout printed,
             ChannelExitStatus 0 (Some 0) None, ChannelEof 0, ChannelClosed 0]
       else [AuthFailure [lit ''password'', lit ''publickey'']]), c', s') \<and>
    fs_last_exec_command s' =
      (if login_user = user \<and> login_password = password then Some command else None)"
  by (rule session_outcome [OF E new_bench_set_up _ password_logs_in [OF E account] len(1,2),
      unfolded bench_simps, OF key len(3)])
    (intro exI conjI; assumption)

theorem password_session_witness:
  "\<exists>k c' s'. run_session bench_crates
      (authenticate_password bench_crates (lit ''alice'') (lit ''hunter2'')) (lit ''echo hello'')
      (session_new 1, set_exec_output (lit ''hello'') (send_global_request_after_auth False
         (fake_server_new (\<lambda>_. [7]) 2 (lit ''alice'') (lit ''hunter2'')))) =
    Some ([HostKeyVerify (algorithm_name bench_crates k) (fingerprint_sha256 bench_crates k) (hk_blob k),
      ReadyForAuth, AuthSuccess, ChannelOpened 0, ChannelData 0 Stdout (lit ''hello''),
      ChannelExitStatus 0 (Some 0) None, ChannelEof 0, ChannelClosed 0], c', s') \<and>
    fs_last_exec_command s' = Some (lit ''echo hello'')"
  using password_session [OF bench_crates_ok, where keygen = "\<lambda>_. [7]" and server_seed = 2
      and user = "lit ''alice''" and password = "lit ''hunter2''" and login_user = "lit ''alice''"
      and login_password = "lit ''hunter2''" and command = "lit ''echo hello''" and seed = 1
      and printed = "lit ''hello''" and g = False]
  by (simp add: bench_signs fake_server_new_def utf8_valid_lit_ascii) blast

text \<open>
  C3: The same run, within the same bounds, with an Ed25519 or RSA key that the crates sign
  verifiably with (the keys the client supports): the query, the server's PK_OK, the signed request
  over the session identifier both sides computed. The server checks the signature against what it
  rebuilds, and the login succeeds exactly when the user is the server's.
\<close>
theorem key_session:
  assumes E: "bench_ok E" and key: "signs_ok E (fs_host_key (fake_server_new keygen server_seed user password))"
    and account: "length login_user \<le> 1000" "utf8_valid login_user" "login_key E private_key"
    and len: "length command \<le> 100000" "utf8_valid command" "length printed \<le> 100000"
  shows "\<exists>k c' s'. pubkey_to_bytes E (privkey_public E (fs_host_key
        (fake_server_new keygen server_seed user password))) = Inr (hk_blob k) \<and>
    hostkey_parse E (hk_blob k) = Ok k \<and>
    run_session E (authenticate_publickey E login_user private_key) command
      (session_new seed, set_exec_output printed (send_global_request_after_auth g
         (fake_server_new keygen server_seed user password))) =
    Some ([HostKeyVerify (algorithm_name E k) (fingerprint_sha256 E k) (hk_blob k), ReadyForAuth] @
      (if login_user = user
       then [AuthSuccess, ChannelOpened 0, ChannelData 0 Stdout printed,
             ChannelExitStatus 0 (Some 0) None, ChannelEof 0, ChannelClosed 0]
       else [AuthFailure [lit ''password'', lit ''publickey'']]), c', s') \<and>
    fs_last_exec_command s' = (if login_user = user then Some command else None)"
  by (rule session_outcome [OF E new_bench_set_up _ key_logs_in [OF E account] len(1,2),
      unfolded bench_simps, OF key len(3)])
    (intro exI conjI; assumption)

theorem key_session_witness:
  "list_all (\<lambda>private_key. \<exists>k c' s'. run_session bench_crates
      (authenticate_publickey bench_crates (lit ''bob'') private_key) (lit ''whoami'')
      (session_new 3, set_exec_output (lit ''bob'') (send_global_request_after_auth True
         (fake_server_new (\<lambda>_. [7]) 4 (lit ''bob'') []))) =
    Some ([HostKeyVerify (algorithm_name bench_crates k) (fingerprint_sha256 bench_crates k) (hk_blob k),
      ReadyForAuth, AuthSuccess, ChannelOpened 0, ChannelData 0 Stdout (lit ''bob''),
      ChannelExitStatus 0 (Some 0) None, ChannelEof 0, ChannelClosed 0], c', s') \<and>
    fs_last_exec_command s' = Some (lit ''whoami'')) [[1, 2, 3], [3, 3]]"
proof -
  have "\<exists>k c' s'. run_session bench_crates
      (authenticate_publickey bench_crates (lit ''bob'') private_key) (lit ''whoami'')
      (session_new 3, set_exec_output (lit ''bob'') (send_global_request_after_auth True
         (fake_server_new (\<lambda>_. [7]) 4 (lit ''bob'') []))) =
    Some ([HostKeyVerify (algorithm_name bench_crates k) (fingerprint_sha256 bench_crates k) (hk_blob k),
      ReadyForAuth, AuthSuccess, ChannelOpened 0, ChannelData 0 Stdout (lit ''bob''),
      ChannelExitStatus 0 (Some 0) None, ChannelEof 0, ChannelClosed 0], c', s') \<and>
    fs_last_exec_command s' = Some (lit ''whoami'')" if "login_key bench_crates private_key" for private_key
    using key_session [OF bench_crates_ok _ _ _ that, where keygen = "\<lambda>_. [7]" and server_seed = 4
        and user = "lit ''bob''" and password = "[]" and login_user = "lit ''bob''"
        and command = "lit ''whoami''" and seed = 3 and printed = "lit ''bob''" and g = True]
    by (simp add: bench_signs fake_server_new_def utf8_valid_lit_ascii) blast
  note run = this [OF bench_login_key]
  show ?thesis by (simp only: list.pred_inject simp_thms, intro conjI run) simp_all
qed

lemma rejection:
  assumes a: "asks c s" and e: "events (core c) = [ev]" and "ev = HostKeyVerify al fp blob"
  shows "\<exists>c'. reject_loop E (Suc (Suc k)) [] (c, s) = Some ([ev, Unrecoverable HostKeyRejected], c', s) \<and>
    phase (core c') = Closed \<and> outgoing (core c') = [] \<and> events (core c') = []"
  using assms by (auto simp: poll_event_def on_client_def provide_host_key_decision_def fail_session_def
      fail_def asks_def)

lemma closed_feed:
  "phase (core c) = Closed \<Longrightarrow> feed_incoming E data c = (Ok (), c\<lparr>incoming := incoming c @ data\<rparr>)"
  by (simp add: feed_incoming_def drive_paused paused_def)

lemma rejection_run:
  assumes E: "bench_ok E" and s: "new_bench server" and key: "signs_ok E (fs_host_key server)"
  obtains c1 s1 c s k c' where "bootstrap E (session_new seed, server) = Some (c1, s1)"
    and "pump E 1000 (c1, s1) = Some (c, s)" and "asks c s"
    and "pubkey_to_bytes E (privkey_public E (fs_host_key server)) = Inr (hk_blob k)"
    and "hostkey_parse E (hk_blob k) = Ok k"
    and "events (core c) = [HostKeyVerify (algorithm_name E k) (fingerprint_sha256 E k) (hk_blob k)]"
    and "reject_session E garbage (session_new seed, server) =
      Some (events (core c) @ [Unrecoverable HostKeyRejected], None, c')"
    and "phase (core c') = Closed" and "outgoing (core c') = []"
proof -
  obtain c1 s1 c s k where h: "bootstrap E (session_new seed, server) = Some (c1, s1)"
    "pump E 1000 (c1, s1) = Some (c, s)" and a: "asks c s"
    and k: "pubkey_to_bytes E (privkey_public E (fs_host_key server)) = Inr (hk_blob k)"
      "hostkey_parse E (hk_blob k) = Ok k"
    and e: "events (core c) = [HostKeyVerify (algorithm_name E k) (fingerprint_sha256 E k) (hk_blob k)]"
    unfolding thousand(1) by (rule handshake [OF E s key, of seed "Suc 996"])
  obtain c' where c': "reject_loop E 1000 [] (c, s) =
      Some (events (core c) @ [Unrecoverable HostKeyRejected], c', s)"
    "phase (core c') = Closed" "outgoing (core c') = []" "events (core c') = []"
    using rejection [OF a e refl, of E "Suc (Suc 996)"] e unfolding thousand(1) by auto
  then have "reject_session E garbage (session_new seed, server) =
      Some (events (core c) @ [Unrecoverable HostKeyRejected], None, c'\<lparr>incoming := incoming c' @ garbage\<rparr>)"
    using h by (simp add: reject_session_def on_client_def closed_feed poll_event_def)
  from that [OF h a k e this] c' show thesis by simp
qed

text \<open>
  C4: The handshake reaches the host's decision on every seed: the identification lines, both
  KEXINITs and the Diffie-Hellman exchange, and then the two sides hold the same session identifier
  and the same two ciphers, one per direction, while nothing has been encrypted yet. A host that
  rejects the key is told once that the session is over; nothing more is sent, and whatever bytes
  arrive after that change nothing.
\<close>
theorem handshake_agrees:
  assumes E: "bench_ok E" and key: "signs_ok E (fs_host_key (fake_server_new keygen server_seed user password))"
  shows "\<exists>st c s ciphers k c'. bootstrap E (session_new seed, fake_server_new keygen server_seed user password) = Some st \<and>
    pump E 1000 st = Some (c, s) \<and> phase (core c) = AwaitingHostKeyDecision \<and>
    session_id (core c) = Some (fs_session_id s) \<and> pending_ciphers (core c) = Some ciphers \<and>
    fs_cs_cipher_pending s = Some (dc_cs ciphers) \<and> fs_sc_cipher s = Some (dc_sc ciphers) \<and>
    cs_cipher (core c) = None \<and> fs_cs_cipher s = None \<and>
    pubkey_to_bytes E (privkey_public E (fs_host_key (fake_server_new keygen server_seed user password))) =
      Inr (hk_blob k) \<and>
    hostkey_parse E (hk_blob k) = Ok k \<and>
    events (core c) = [HostKeyVerify (algorithm_name E k) (fingerprint_sha256 E k) (hk_blob k)] \<and>
    reject_session E garbage (session_new seed, fake_server_new keygen server_seed user password) =
      Some (events (core c) @ [Unrecoverable HostKeyRejected], None, c') \<and>
    phase (core c') = Closed \<and> outgoing (core c') = []"
proof -
  let ?server = "fake_server_new keygen server_seed user password"
  have new: "new_bench ?server" by (simp add: new_bench_def fake_server_new_def server_line_def)
  obtain c1 s1 c s k c' where h: "bootstrap E (session_new seed, ?server) = Some (c1, s1)"
    "pump E 1000 (c1, s1) = Some (c, s)" "asks c s"
    "pubkey_to_bytes E (privkey_public E (fs_host_key ?server)) = Inr (hk_blob k)" "hostkey_parse E (hk_blob k) = Ok k"
    "events (core c) = [HostKeyVerify (algorithm_name E k) (fingerprint_sha256 E k) (hk_blob k)]"
    "reject_session E garbage (session_new seed, ?server) =
      Some (events (core c) @ [Unrecoverable HostKeyRejected], None, c')"
    "phase (core c') = Closed" "outgoing (core c') = []"
    by (rule rejection_run [OF E new key])
  moreover from this(3) obtain ciphers where "pending_ciphers (core c) = Some ciphers"
    "fs_cs_cipher_pending s = Some (dc_cs ciphers)" "fs_sc_cipher s = Some (dc_sc ciphers)"
    by (auto simp: asks_def)
  ultimately show ?thesis unfolding asks_def by blast
qed

theorem handshake_agrees_witness:
  "\<exists>st c s. bootstrap bench_crates (session_new 1, fake_server_new (\<lambda>_. [7]) 2 [] []) = Some st \<and>
    pump bench_crates 1000 st = Some (c, s) \<and> session_id (core c) = Some (fs_session_id s)"
  using handshake_agrees [OF bench_crates_ok, where keygen = "\<lambda>_. [7]" and server_seed = 2
      and user = "[]" and password = "[]" and seed = 1 and garbage = "[0]"]
  by (auto simp: bench_signs fake_server_new_def)

text \<open>
  The test server only serves the first channel of a session. It addresses what it sends to its
  own channel number, 0, and not to the number the client chose: a command on a later channel is
  confirmed and run, but its output arrives for a channel the client does not know, which ends the
  session with an error.
\<close>
theorem bench_serves_one_channel:
  assumes E: "bench_ok E" and l: "linked c s" and c: "outgoing (core c) = []" "phase (core c) = Connected"
    and cid: "ct_next_id (channels (core c)) = cid" "cid \<noteq> 0"
    and none: "ct_channels (channels (core c)) 0 = None" "channel_setup (core c) 0 = None"
    and len: "length command \<le> 100000" "utf8_valid command" "length (fs_default_exec_output s) \<le> 100000"
  shows "\<exists>c1 c' s'. open_exec E command (core c) = (Ok cid, c1) \<and>
    pump E 1000 (c\<lparr>core := c1\<rparr>, s) = Some (c', s') \<and> phase (core c') = Closed \<and>
    fs_last_exec_command s' = Some command \<and>
    events (core c') = events (core c) @ [ChannelOpened cid, Unrecoverable (unknown_channel 0)]"
  unfolding thousand(1) by (rule second_command [OF assms])

definition sample_cipher :: packet_cipher where
  "sample_cipher = \<lparr>pc_alg = ChaCha20Poly1305OpenSsh, pc_keys = KeysChaCha [] [], pc_seq = 3\<rparr>"

definition second_client :: "u64 session" where
  "second_client = (session_new 0)\<lparr>core := (engine_new 0)\<lparr>phase := Connected, outgoing := [],
     cs_cipher := Some sample_cipher, sc_cipher := Some sample_cipher, session_id := Some [],
     channels := table_new\<lparr>ct_next_id := 1\<rparr>\<rparr>\<rparr>"

definition second_server :: fake_server where
  "second_server = (fake_server_new (\<lambda>_. []) 0 [] [])\<lparr>fs_phase := ServerConnected,
     fs_cs_cipher := Some sample_cipher, fs_sc_cipher := Some sample_cipher\<rparr>"

theorem bench_serves_one_channel_witness:
  "\<exists>c1 c' s'. open_exec bench_crates (lit ''ls'') (core second_client) = (Ok 1, c1) \<and>
    pump bench_crates 1000 (second_client\<lparr>core := c1\<rparr>, second_server) = Some (c', s') \<and>
    phase (core c') = Closed"
proof -
  have "linked second_client second_server"
    by (simp add: linked_def second_client_def second_server_def fake_server_new_def session_new_def)
  from bench_serves_one_channel [OF bench_crates_ok this, of 1 "lit ''ls''"]
  show ?thesis
    by (auto simp: second_client_def second_server_def fake_server_new_def engine_new_def table_new_def
        utf8_valid_lit_ascii)
qed

section \<open>The server behind a socket\<close>

text \<open>
  C11: However TCP cuts the bytes of a client into reads, the process writes its identification line
  and then exactly what the in-process server of the tests answers to all of them at once, provided
  none of the packets fails to open.
\<close>

theorem reads_do_not_matter:
  assumes "server = fake_server_new keygen 42 user pw"
    and "fs_clean E (fs_push (concat chunks) server)" and "[] \<notin> set chunks"
    and "fs_feed E (concat chunks) server = (Ok out, server')"
  shows "sshd_connection E keygen user pw (True, reads_of chunks) =
    Ok (initial_outgoing server @ out)"
proof (cases chunks)
  case Nil
  have "fs_step E server = (Ok None, server)"
    by (simp add: assms(1) fake_server_new_def fs_step_def fs_step_ident_def)
  with Nil assms show ?thesis
    by (simp add: sshd_connection_def Let_def reads_of_def fs_feed_push fs_waits)
next
  case (Cons d ds)
  have "fold (fs_stream E) chunks (Some ([], server)) = Some (out, server')"
    using Cons server_stream.feed_concat [of chunks E "Some ([], server)"] assms(2,4) by simp
  from serve_reads [OF this assms(3)] show ?thesis
    by (auto simp: sshd_connection_def Let_def assms(1) [symmetric])
qed

text \<open>An identification line and a plaintext packet, cut in the middle of both.\<close>

definition sample_reads :: "bytes list" where
  "sample_reads = [[83, 83, 72, 45], [50, 13, 10, 0, 0], [0, 12, 10, 82, 0, 0, 0], [0, 0, 0, 0, 0, 0, 0]]"

abbreviation sample_server :: fake_server where
  "sample_server \<equiv> fake_server_new (\<lambda>_. [7]) 42 [98] [104]"

lemma sample_reads_answered:
  "\<exists>t. fs_feed bench_crates (concat sample_reads) sample_server = (Ok [], t)"
  "fs_clean bench_crates (fs_push (concat sample_reads) sample_server)"
proof -
  let ?t = "sample_server\<lparr>fs_incoming := drop 7 (concat sample_reads),
    fs_peer_ident_line := [83, 83, 72, 45, 50], fs_phase := AwaitingKexInit\<rparr>"
  let ?u = "?t\<lparr>fs_incoming := []\<rparr>"
  have one: "fs_step bench_crates (fs_push (concat sample_reads) sample_server) = (Ok (Some []), ?t)"
    by (simp add: sample_reads_def fake_server_new_def fs_push_def fs_step_def fs_step_ident_def Let_def
        starts_with_def line_of_def lit_def)
  have two: "fs_step bench_crates ?t = (Ok (Some []), ?u)"
    by (simp add: sample_reads_def fake_server_new_def fs_step_def fs_step_packet_def Let_def
        peek_plaintext_length_def be_to_u32_def be_val_def open_plaintext_def strip_padding_def
        MAX_PACKET_LENGTH_def fs_open_def fs_handle_def fs_dispatch_def and_then_def msg_codes
        MSG_KEX_ECDH_INIT_def MSG_SERVICE_REQUEST_def MSG_USERAUTH_REQUEST_def MSG_CHANNEL_OPEN_def
        MSG_REQUEST_FAILURE_def)
  have stop: "fs_step bench_crates ?u = (Ok None, ?u)"
    by (simp add: fs_step_def fs_step_packet_def)
  show "\<exists>t. fs_feed bench_crates (concat sample_reads) sample_server = (Ok [], t)"
    using fs_waits(1) [OF stop] by (simp add: fs_feed_push fs_loop_turn [OF one] fs_loop_turn [OF two])
  show "fs_clean bench_crates (fs_push (concat sample_reads) sample_server)"
    using fs_waits(2) [OF stop]
    by (simp add: fs_clean_turn [OF one] fs_clean_turn [OF two])
qed

theorem reads_do_not_matter_witness:
  "sshd_connection bench_crates (\<lambda>_. [7]) [98] [104] (True, reads_of sample_reads) =
    Ok (lit ''SSH-2.0-FakeTestServer_1.0'' @ [13, 10])"
proof -
  obtain t where "fs_feed bench_crates (concat sample_reads) sample_server = (Ok [], t)"
    using sample_reads_answered(1) by blast
  from reads_do_not_matter [OF refl sample_reads_answered(2) _ this]
  show ?thesis by (simp add: sample_reads_def initial_outgoing_def fake_server_new_def)
qed

end
