(* ===== verification/Unit_Tests.thy ===== *)
theory Unit_Tests
  imports Wire Ident Auth Channel Connection
begin

text \<open>
  The unit tests of \<open>wire.rs\<close>, \<open>ident.rs\<close>, \<open>auth\<close> and \<open>connection\<close>, translated as the programs they
  are and run on the model: a test is a list of steps on the value it mutates, and a failed assertion
  or \<open>unwrap\<close> is a panic. That they pass is a check of the definitions against what the repository
  itself expects of the code.
\<close>

section \<open>What tests are made of\<close>

definition asserts :: "bool \<Rightarrow> ('s, unit) op" where
  "asserts b = lift_r (if b then Ok () else Panic)"

definition holds :: "('s \<Rightarrow> bool) \<Rightarrow> ('s, unit) op" where
  "holds f = and_then (look f) asserts"

text \<open>\<open>m.unwrap()\<close>, and an assertion about its value.\<close>

definition unwraps :: "('s, 'a) op \<Rightarrow> ('s, 'a) op" where
  "unwraps m s = (case m s of (r, s') \<Rightarrow> (unwrap r, s'))"

definition gives :: "('s, 'a) op \<Rightarrow> ('a \<Rightarrow> bool) \<Rightarrow> ('s, unit) op" where
  "gives m f = and_then (unwraps m) (\<lambda>x. asserts (f x))"

definition expects :: "('s, 'a) op \<Rightarrow> 'a \<Rightarrow> ('s, unit) op" where
  "expects m v = gives m (\<lambda>x. x = v)"

definition skips :: "('s, 'a) op \<Rightarrow> ('s, unit) op" where
  "skips m = gives m (\<lambda>_. True)"

definition is_err :: "'a result \<Rightarrow> bool" where
  "is_err r = (case r of Err _ \<Rightarrow> True | _ \<Rightarrow> False)"

definition errs :: "('s, 'a) op \<Rightarrow> (ssh_error \<Rightarrow> bool) \<Rightarrow> ('s, unit) op" where
  "errs m f s = (case m s of (Err e, s') \<Rightarrow> (if f e then Ok () else Panic, s') | (_, s') \<Rightarrow> (Panic, s'))"

primrec steps :: "('s, unit) op list \<Rightarrow> ('s, unit) op" where
  "steps [] = ret ()"
| "steps (m # ms) = and_then m (\<lambda>_. steps ms)"

definition run_test :: "'s \<Rightarrow> ('s, unit) op list \<Rightarrow> unit result" where
  "run_test s ms = fst (steps ms s)"

definition framing :: "ssh_error \<Rightarrow> bool" where
  "framing e = (case e of Framing _ \<Rightarrow> True | _ \<Rightarrow> False)"

lemmas test_simps = run_test_def asserts_def holds_def unwraps_def gives_def expects_def skips_def
  errs_def framing_def and_then_def Let_def lit_def

lemma be_bytes_4:
  "be_bytes 4 n = [word_of_nat (n div 256 div 256 div 256), word_of_nat (n div 256 div 256),
     word_of_nat (n div 256), word_of_nat n]"
proof -
  have "(4 :: nat) = Suc (Suc (Suc (Suc 0)))" by simp
  then show ?thesis by (simp only: be_bytes.simps) simp
qed

lemmas byte_simps = read_u32_def read_string_def read_bool_def read_u8_def reader_new_def is_finished_def
  write_string_def write_u32_def write_bool_def u32_to_be_def be_to_u32_def be_val_def be_bytes_4

section \<open>wire.rs\<close>

definition round_trips_mixed_fields :: "unit result" where
  "round_trips_mixed_fields =
     run_test (reader_new (write_u32 42 @ write_string (lit ''hello'') @ write_bool True @ [0x99]))
       [expects read_u32 42, expects read_string (lit ''hello''), expects read_bool True,
        expects read_u8 0x99, holds is_finished]"

definition truncated_input_errors_instead_of_panicking :: "unit result" where
  "truncated_input_errors_instead_of_panicking =
     run_test (reader_new [0, 0, 0, 5, 104, 105]) [errs read_string (\<lambda>_. True)]"

definition oversized_length_does_not_panic_via_overflow :: "unit result" where
  "oversized_length_does_not_panic_via_overflow =
     run_test (reader_new [0xFF, 0xFF, 0xFF, 0xFF]) [errs read_string (\<lambda>_. True)]"


section \<open>ident.rs\<close>

definition openssh_line :: bytes where
  "openssh_line = lit ''SSH-2.0-OpenSSH_9.7''"

definition crlf :: bytes where
  "crlf = [13, 10]"

definition parses_ident_line_with_no_banner :: "unit result" where
  "parses_ident_line_with_no_banner = run_test ident_new
     [expects (ident_feed (openssh_line @ crlf)) (length (openssh_line @ crlf)), holds ident_done,
      holds (\<lambda>ex. server_ident ex = Some openssh_line)]"

definition skips_banner_lines_before_ident :: "unit result" where
  "skips_banner_lines_before_ident =
     (let input = lit ''Welcome to our server!'' @ crlf @ lit ''Authorized use only.'' @ crlf @ openssh_line @ crlf in
      run_test ident_new
        [expects (ident_feed input) (length input), holds (\<lambda>ex. server_ident ex = Some openssh_line)])"

definition leaves_trailing_bytes_unconsumed_for_packet_layer :: "unit result" where
  "leaves_trailing_bytes_unconsumed_for_packet_layer =
     (let trailer = [0xAA, 0xBB, 0xCC]; input = openssh_line @ crlf @ trailer in
      run_test ident_new
        [gives (ident_feed input) (\<lambda>consumed.
           consumed = length input - length trailer \<and> drop consumed input = trailer)])"

definition handles_ident_line_split_across_feeds :: "unit result" where
  "handles_ident_line_split_across_feeds = run_test ident_new
     [expects (ident_feed (lit ''SSH-2.0-Open'')) 12, holds (\<lambda>ex. \<not> ident_done ex),
      expects (ident_feed (lit ''SSH_9.7'' @ crlf)) 9, holds ident_done,
      holds (\<lambda>ex. server_ident ex = Some openssh_line)]"

definition rejects_ssh_1_only_server :: "unit result" where
  "rejects_ssh_1_only_server = run_test ident_new
     [errs (ident_feed (lit ''SSH-1.5-OldServer'' @ crlf)) framing]"

definition accepts_ssh_1_99_backcompat_marker :: "unit result" where
  "accepts_ssh_1_99_backcompat_marker = run_test ident_new
     [skips (ident_feed (lit ''SSH-1.99-OpenSSH_3.0'' @ crlf)), holds ident_done]"

definition client_ident_line_is_well_formed :: "unit result" where
  "client_ident_line_is_well_formed = run_test client_ident_line
     [holds (\<lambda>line. starts_with line (lit ''SSH-2.0-'')),
      holds (\<lambda>line. drop (length line - 2) line = crlf)]"

lemmas ident_simps = openssh_line_def crlf_def ident_new_def ident_feed_def feed_loop.simps ident_done_def
 
  validate_version_def line_of_def client_ident_line_def starts_with_def MAX_SCAN_BYTES_def
  strip_prefix_def


section \<open>auth/mod.rs, auth/password.rs, auth/publickey.rs\<close>

definition builds_and_would_be_parsed_service_flow :: "unit result" where
  "builds_and_would_be_parsed_service_flow = run_test (MSG_SERVICE_ACCEPT # write_string SERVICE_USERAUTH)
     [asserts (take 1 (build_service_request SERVICE_USERAUTH) = [MSG_SERVICE_REQUEST]),
      gives (\<lambda>accept. (parse_service_accept accept, accept)) (\<lambda>s. s = SERVICE_USERAUTH)]"

definition parses_failure_with_remaining_methods :: "unit result" where
  "parses_failure_with_remaining_methods =
     run_test (MSG_USERAUTH_FAILURE # write_string (lit ''publickey,password'') @ write_bool False)
       [gives (\<lambda>payload. (parse_userauth_failure payload, payload)) (\<lambda>failure.
          af_remaining_methods failure = [lit ''publickey'', lit ''password''] \<and>
          \<not> af_partial_success failure)]"

definition recognizes_success :: "unit result" where
  "recognizes_success = run_test ()
     [asserts (is_userauth_success [MSG_USERAUTH_SUCCESS]),
      asserts (\<not> is_userauth_success [MSG_USERAUTH_FAILURE])]"

definition password_builds_expected_wire_shape :: "unit result" where
  "password_builds_expected_wire_shape =
     run_test (reader_new (password_build_request (lit ''alice'') (lit ''hunter2'')))
       [expects read_u8 MSG_USERAUTH_REQUEST, expects read_string (lit ''alice''),
        expects read_string (lit ''ssh-connection''), expects read_string (lit ''password''),
        expects read_bool False, expects read_string (lit ''hunter2''), holds is_finished]"

definition parses_pk_ok :: "unit result" where
  "parses_pk_ok =
     run_test (MSG_USERAUTH_PK_OK # write_string (lit ''ssh-ed25519'') @ write_string (lit ''fake-blob''))
       [gives (\<lambda>payload. (parse_pk_ok payload, payload)) (\<lambda>(algo, blob).
          algo = lit ''ssh-ed25519'' \<and> blob = lit ''fake-blob'')]"

section \<open>connection/exec.rs, connection/pty.rs\<close>

definition exec_builds_expected_wire_shape :: "unit result" where
  "exec_builds_expected_wire_shape = run_test (reader_new (exec_build_request 9 (lit ''echo hello'')))
     [expects read_u8 MSG_CHANNEL_REQUEST, expects read_u32 9, expects read_string (lit ''exec''),
      expects read_bool True, expects read_string (lit ''echo hello''), holds is_finished]"

definition pty_request_has_expected_shape :: "unit result" where
  "pty_request_has_expected_shape = run_test (reader_new (build_pty_request 5 pty_default))
     [expects read_u8 MSG_CHANNEL_REQUEST, expects read_u32 5, expects read_string (lit ''pty-req''),
      expects read_bool True, expects read_string (lit ''xterm-256color''), expects read_u32 80,
      expects read_u32 24, expects read_u32 0, expects read_u32 0, expects read_string [],
      holds is_finished]"

definition shell_request_has_no_type_specific_data :: "unit result" where
  "shell_request_has_no_type_specific_data = run_test (reader_new (build_shell_request 5))
     [skips read_u8, skips read_u32, expects read_string (lit ''shell''), expects read_bool True,
      holds is_finished]"

definition window_change_never_wants_a_reply :: "unit result" where
  "window_change_never_wants_a_reply = run_test (reader_new (build_window_change_request 5 100 40 0 0))
     [skips read_u8, skips read_u32, expects read_string (lit ''window-change''), expects read_bool False]"

section \<open>connection/channel.rs\<close>

definition data_messages_respect_remote_window_and_max_packet :: "unit result" where
  "data_messages_respect_remote_window_and_max_packet = run_test (channel_new 0 Shell)
     [update (on_open_confirmation 7 10 4),
      gives (build_data_messages (lit ''0123456789ABCDEF'')) (\<lambda>(consumed, messages).
        consumed = 10 \<and> length messages = 3),
      holds (\<lambda>ch. remote_window ch = 0),
      gives (build_data_messages (lit ''XYZ'')) (\<lambda>(consumed, messages). consumed = 0 \<and> messages = []),
      update (on_window_adjust 100),
      gives (build_data_messages (lit ''XYZ'')) (\<lambda>(consumed, _). consumed = 3)]"

definition window_adjust_only_emitted_past_threshold :: "unit result" where
  "window_adjust_only_emitted_past_threshold = run_test (channel_new 0 Shell)
     [update (on_open_confirmation 7 INITIAL_WINDOW_SIZE MAX_PACKET_SIZE),
      gives (on_data_consumed 100) (\<lambda>m. m = None),
      gives (on_data_consumed WINDOW_ADJUST_THRESHOLD) (\<lambda>m. m \<noteq> None)]"

definition open_message_has_expected_shape :: "unit result" where
  "open_message_has_expected_shape = run_test (reader_new (build_open_message (channel_new 3 Exec)))
     [expects read_u8 MSG_CHANNEL_OPEN, expects read_string (lit ''session''), expects read_u32 3,
      expects read_u32 INITIAL_WINDOW_SIZE, expects read_u32 MAX_PACKET_SIZE]"

section \<open>connection/mod.rs\<close>

definition opens :: "channel_kind \<Rightarrow> (u32 \<Rightarrow> (channel_table, unit) op list) \<Rightarrow> (channel_table, unit) op" where
  "opens k f = and_then (\<lambda>t. case table_open k t of ((cid, _), t') \<Rightarrow> (Ok cid, t')) (\<lambda>cid. steps (f cid))"

definition confirm :: "u32 \<Rightarrow> u32 \<Rightarrow> (channel_table, unit) op" where
  "confirm lid rid = skips (table_handle MSG_CHANNEL_OPEN_CONFIRMATION
     (MSG_CHANNEL_OPEN_CONFIRMATION # write_u32 lid @ write_u32 rid @ write_u32 INITIAL_WINDOW_SIZE @
      write_u32 MAX_PACKET_SIZE))"

definition open_then_confirm_transitions_to_open :: "unit result" where
  "open_then_confirm_transitions_to_open = run_test table_new
     [opens Exec (\<lambda>cid.
        [holds (\<lambda>t. map_option lifecycle (table_get t cid) = Some OpenRequested),
         confirm cid 42,
         holds (\<lambda>t. map_option lifecycle (table_get t cid) = Some Open \<and>
           map_option remote_id (table_get t cid) = Some (Some 42))])]"

definition open_failure_removes_the_channel_and_emits_event :: "unit result" where
  "open_failure_removes_the_channel_and_emits_event = run_test table_new
     [opens Exec (\<lambda>cid.
        [gives (table_handle MSG_CHANNEL_OPEN_FAILURE (MSG_CHANNEL_OPEN_FAILURE # write_u32 cid @ write_u32 2 @
             write_string (lit ''administratively prohibited'') @ write_string []))
           (\<lambda>(events, _). case events of ChannelOpenFailed eid code _ # _ \<Rightarrow> eid = cid \<and> code = 2 | _ \<Rightarrow> False),
         holds (\<lambda>t. table_get t cid = None)])]"

definition data_message_emits_event_and_may_trigger_window_adjust :: "unit result" where
  "data_message_emits_event_and_may_trigger_window_adjust = run_test table_new
     [opens Shell (\<lambda>cid.
        [confirm cid 1,
         gives (table_handle MSG_CHANNEL_DATA (MSG_CHANNEL_DATA # write_u32 cid @ write_string (lit ''hello'')))
           (\<lambda>(events, outgoing). (case events of
                ChannelData eid stream data # _ \<Rightarrow> eid = cid \<and> stream = Stdout \<and> data = lit ''hello''
              | _ \<Rightarrow> False) \<and> outgoing = [])])]"

definition extended_data_is_reported_as_stderr :: "unit result" where
  "extended_data_is_reported_as_stderr = run_test table_new
     [opens Exec (\<lambda>cid.
        [confirm cid 1,
         gives (table_handle MSG_CHANNEL_EXTENDED_DATA (MSG_CHANNEL_EXTENDED_DATA # write_u32 cid @
             write_u32 SSH_EXTENDED_DATA_STDERR @ write_string (lit ''oh no'')))
           (\<lambda>(events, _). case events of
                ChannelData _ stream data # _ \<Rightarrow> stream = Stderr \<and> data = lit ''oh no'' | _ \<Rightarrow> False)])]"

definition exit_status_request_is_translated_to_event :: "unit result" where
  "exit_status_request_is_translated_to_event = run_test table_new
     [opens Exec (\<lambda>cid.
        [confirm cid 1,
         gives (table_handle MSG_CHANNEL_REQUEST (MSG_CHANNEL_REQUEST # write_u32 cid @
             write_string (lit ''exit-status'') @ write_bool False @ write_u32 0))
           (\<lambda>(events, _). case events of
                ChannelExitStatus _ code signal # _ \<Rightarrow> code = Some 0 \<and> signal = None | _ \<Rightarrow> False)])]"

definition unknown_channel_id_is_an_error_not_a_panic :: "unit result" where
  "unknown_channel_id_is_an_error_not_a_panic = run_test table_new
     [errs (table_handle MSG_CHANNEL_EOF (MSG_CHANNEL_EOF # write_u32 999)) (\<lambda>_. True)]"

definition close_message_removes_channel :: "unit result" where
  "close_message_removes_channel = run_test table_new
     [opens Shell (\<lambda>cid.
        [confirm cid 1,
         gives (table_handle MSG_CHANNEL_CLOSE (MSG_CHANNEL_CLOSE # write_u32 cid))
           (\<lambda>(events, _). case events of ChannelClosed eid # _ \<Rightarrow> eid = cid | _ \<Rightarrow> False),
         holds (\<lambda>t. table_get t cid = None)])]"

section \<open>They pass\<close>

lemmas auth_simps = MSG_SERVICE_REQUEST_def MSG_SERVICE_ACCEPT_def MSG_USERAUTH_REQUEST_def
  MSG_USERAUTH_FAILURE_def MSG_USERAUTH_SUCCESS_def MSG_USERAUTH_PK_OK_def SERVICE_USERAUTH_def
  SERVICE_CONNECTION_def build_service_request_def parse_service_accept_def parse_with_def
  expect_msg_type_def read_utf8_string_def parse_userauth_failure_def is_userauth_success_def
  password_build_request_def write_request_prefix_def parse_pk_ok_def utf8_valid.simps(2)

lemmas channel_simps = MSG_CHANNEL_OPEN_def MSG_CHANNEL_OPEN_CONFIRMATION_def MSG_CHANNEL_REQUEST_def
  build_channel_request_def exec_build_request_def build_pty_request_def pty_default_def
  build_shell_request_def build_window_change_request_def channel_new_def on_open_confirmation_def
  build_data_messages_def data_loop.simps remote_id_or_panic_def on_window_adjust_def saturating_add_def
  saturating_sub_def on_data_consumed_def INITIAL_WINDOW_SIZE_def MAX_PACKET_SIZE_def
  WINDOW_ADJUST_THRESHOLD_def build_open_message_def

lemma round_trips_mixed_fields_ok: "round_trips_mixed_fields = Ok ()"
  by (simp add: round_trips_mixed_fields_def test_simps byte_simps)

lemma truncated_input_errors_instead_of_panicking_ok: "truncated_input_errors_instead_of_panicking = Ok ()"
  by (simp add: truncated_input_errors_instead_of_panicking_def test_simps byte_simps)

lemma oversized_length_does_not_panic_via_overflow_ok: "oversized_length_does_not_panic_via_overflow = Ok ()"
  by (simp add: oversized_length_does_not_panic_via_overflow_def test_simps byte_simps)

lemma parses_ident_line_with_no_banner_ok: "parses_ident_line_with_no_banner = Ok ()"
  by (simp add: parses_ident_line_with_no_banner_def test_simps ident_simps)

lemma skips_banner_lines_before_ident_ok: "skips_banner_lines_before_ident = Ok ()"
  by (simp add: skips_banner_lines_before_ident_def test_simps ident_simps)

lemma leaves_trailing_bytes_unconsumed_for_packet_layer_ok: "leaves_trailing_bytes_unconsumed_for_packet_layer = Ok ()"
  by (simp add: leaves_trailing_bytes_unconsumed_for_packet_layer_def test_simps ident_simps)

lemma handles_ident_line_split_across_feeds_ok: "handles_ident_line_split_across_feeds = Ok ()"
  by (simp add: handles_ident_line_split_across_feeds_def test_simps ident_simps)

lemma rejects_ssh_1_only_server_ok: "rejects_ssh_1_only_server = Ok ()"
  by (simp add: rejects_ssh_1_only_server_def test_simps ident_simps)

lemma accepts_ssh_1_99_backcompat_marker_ok: "accepts_ssh_1_99_backcompat_marker = Ok ()"
  by (simp add: accepts_ssh_1_99_backcompat_marker_def test_simps ident_simps)

lemma client_ident_line_is_well_formed_ok: "client_ident_line_is_well_formed = Ok ()"
  by (simp add: client_ident_line_is_well_formed_def test_simps ident_simps)

lemma builds_and_would_be_parsed_service_flow_ok: "builds_and_would_be_parsed_service_flow = Ok ()"
  by (simp add: builds_and_would_be_parsed_service_flow_def test_simps byte_simps auth_simps)

lemma parses_failure_with_remaining_methods_ok: "parses_failure_with_remaining_methods = Ok ()"
  by (simp add: parses_failure_with_remaining_methods_def test_simps byte_simps auth_simps)

lemma recognizes_success_ok: "recognizes_success = Ok ()"
  by (simp add: recognizes_success_def test_simps byte_simps auth_simps)

lemma password_builds_expected_wire_shape_ok: "password_builds_expected_wire_shape = Ok ()"
  by (simp add: password_builds_expected_wire_shape_def test_simps byte_simps auth_simps)

lemma parses_pk_ok_ok: "parses_pk_ok = Ok ()"
  by (simp add: parses_pk_ok_def test_simps byte_simps auth_simps)

lemma exec_builds_expected_wire_shape_ok: "exec_builds_expected_wire_shape = Ok ()"
  by (simp add: exec_builds_expected_wire_shape_def test_simps byte_simps channel_simps)

lemma pty_request_has_expected_shape_ok: "pty_request_has_expected_shape = Ok ()"
  by (simp add: pty_request_has_expected_shape_def test_simps byte_simps channel_simps)

lemma shell_request_has_no_type_specific_data_ok: "shell_request_has_no_type_specific_data = Ok ()"
  by (simp add: shell_request_has_no_type_specific_data_def test_simps byte_simps channel_simps)

lemma window_change_never_wants_a_reply_ok: "window_change_never_wants_a_reply = Ok ()"
  by (simp add: window_change_never_wants_a_reply_def test_simps byte_simps channel_simps)

lemma data_messages_respect_remote_window_and_max_packet_ok: "data_messages_respect_remote_window_and_max_packet = Ok ()"
  by (simp add: data_messages_respect_remote_window_and_max_packet_def test_simps byte_simps channel_simps)

lemma window_adjust_only_emitted_past_threshold_ok: "window_adjust_only_emitted_past_threshold = Ok ()"
  by (simp add: window_adjust_only_emitted_past_threshold_def test_simps byte_simps channel_simps)

lemma open_message_has_expected_shape_ok: "open_message_has_expected_shape = Ok ()"
  by (simp add: open_message_has_expected_shape_def test_simps byte_simps channel_simps)

lemmas table_simps = MSG_CHANNEL_OPEN_FAILURE_def MSG_CHANNEL_WINDOW_ADJUST_def MSG_CHANNEL_DATA_def
  MSG_CHANNEL_EXTENDED_DATA_def MSG_CHANNEL_EOF_def MSG_CHANNEL_CLOSE_def SSH_EXTENDED_DATA_STDERR_def
  table_new_def table_open_def table_get_def table_remove_def table_handle_def handle_message_def
  handle_channel_request_def channel_mut_def channel_ref_def data_reaction_def or_empty_def
  opens_def confirm_def read_utf8_string_def utf8_valid.simps(2) on_fst_def on_snd_def

lemma open_then_confirm_transitions_to_open_ok: "open_then_confirm_transitions_to_open = Ok ()"
  by (simp add: open_then_confirm_transitions_to_open_def test_simps byte_simps channel_simps table_simps)

lemma open_failure_removes_the_channel_and_emits_event_ok: "open_failure_removes_the_channel_and_emits_event = Ok ()"
  by (simp add: open_failure_removes_the_channel_and_emits_event_def test_simps byte_simps channel_simps table_simps)

lemma data_message_emits_event_and_may_trigger_window_adjust_ok: "data_message_emits_event_and_may_trigger_window_adjust = Ok ()"
  by (simp add: data_message_emits_event_and_may_trigger_window_adjust_def test_simps byte_simps channel_simps table_simps)

lemma extended_data_is_reported_as_stderr_ok: "extended_data_is_reported_as_stderr = Ok ()"
  by (simp add: extended_data_is_reported_as_stderr_def test_simps byte_simps channel_simps table_simps)

lemma exit_status_request_is_translated_to_event_ok: "exit_status_request_is_translated_to_event = Ok ()"
  by (simp add: exit_status_request_is_translated_to_event_def test_simps byte_simps channel_simps table_simps)

lemma unknown_channel_id_is_an_error_not_a_panic_ok: "unknown_channel_id_is_an_error_not_a_panic = Ok ()"
  by (simp add: unknown_channel_id_is_an_error_not_a_panic_def test_simps byte_simps channel_simps table_simps)

lemma close_message_removes_channel_ok: "close_message_removes_channel = Ok ()"
  by (simp add: close_message_removes_channel_def test_simps byte_simps channel_simps table_simps)

end
