(* ===== verification/Transport_Tests.thy ===== *)
theory Transport_Tests
  imports Unit_Tests Packet Kexinit Kdf Kex_Curve Kex_Dh
begin

text \<open>
  The unit tests of \<open>rng.rs\<close> and \<open>transport\<close>, translated as in Unit_Tests. Where a test runs the
  crates it is a function of them, and the lemma says that it passes over every instance that behaves
  as documented, not only for the keys and seeds the test fixes. The tests whose outcome is decided
  by a crate alone (known vectors) are not here.
\<close>

unbundle bit_operations_syntax

section \<open>The generators of the tests\<close>

text \<open>\<open>FixedRng(b)\<close> fills with one byte; \<open>CountingRng(b)\<close> counts.\<close>

definition fixed_fill :: "nat \<Rightarrow> byte \<Rightarrow> bytes \<times> byte" where
  "fixed_fill n b = (replicate n b, b)"

primrec counting_fill :: "nat \<Rightarrow> byte \<Rightarrow> bytes \<times> byte" where
  "counting_fill 0 b = ([], b)"
| "counting_fill (Suc n) b = (case counting_fill n (b + 1) of (bs, b') \<Rightarrow> (b # bs, b'))"

definition fixed_rng :: "byte crates \<Rightarrow> byte crates" where
  "fixed_rng E = E\<lparr>rng_fill := \<lambda>n b. (\<lambda>_. b, b)\<rparr>"

lemma fill_buf_fixed [simp]: "fill_buf (fixed_rng E) = fixed_fill"
  by (intro ext) (simp add: fill_buf_def fixed_rng_def fixed_fill_def map_replicate_const)

lemma fixed_ciphers_ok [simp]: "ciphers_ok (fixed_rng E) = ciphers_ok E"
proof -
  have "chacha_xor (fixed_rng E) = chacha_xor E" "chachapoly_seal (fixed_rng E) = chachapoly_seal E"
    "chachapoly_open (fixed_rng E) = chachapoly_open E" "aesgcm_seal (fixed_rng E) = aesgcm_seal E"
    "aesgcm_open (fixed_rng E) = aesgcm_open E"
    by (simp_all add: fixed_rng_def)
  then show ?thesis by (simp only: ciphers_ok_def stream_cipher_ok_def)
qed

interpretation fixed: secure_random fixed_fill
  by unfold_locales (simp add: fixed_fill_def)

definition rng_core_10_adapter_fills_bytes :: "unit result" where
  "rng_core_10_adapter_fills_bytes = run_test 10
     [expects (\<lambda>b. case try_fill_bytes counting_fill 3 b of (buf, b') \<Rightarrow> (Ok buf, b')) [10, 11, 12]]"

lemma rng_core_10_adapter_fills_bytes_ok: "rng_core_10_adapter_fills_bytes = Ok ()"
  by (simp add: rng_core_10_adapter_fills_bytes_def test_simps try_fill_bytes_def numeral_3_eq_3)

section \<open>packet.rs\<close>

text \<open>The two ends of one direction and the generator of the sender.\<close>

type_synonym ends = "packet_cipher \<times> packet_cipher \<times> byte"

definition sends :: "byte crates \<Rightarrow> bytes \<Rightarrow> (ends, bytes) op" where
  "sends E payload = (\<lambda>(s, r, g). case cipher_seal (fixed_rng E) payload (s, g) of
     (w, (s', g')) \<Rightarrow> (w, (s', r, g')))"

definition receives :: "byte crates \<Rightarrow> bytes \<Rightarrow> (ends, bytes) op" where
  "receives E wire = (\<lambda>(s, r, g). case cipher_open (fixed_rng E) wire r of (p, r') \<Rightarrow> (p, (s, r', g)))"

text \<open>The body of the loops of the round trip tests. \<open>wire[0..4]\<close> panics on a shorter packet.\<close>

definition round_trip :: "byte crates \<Rightarrow> bytes \<Rightarrow> (ends, unit) op" where
  "round_trip E payload =
     and_then (unwraps (sends E payload)) (\<lambda>wire. steps
       [asserts (4 \<le> length wire),
        expects (\<lambda>(s, r, g). (peek_total_length (fixed_rng E) r (take 4 wire), (s, r, g))) (length wire),
        expects (receives E wire) payload])"

definition new_ends :: "cipher_algorithm \<Rightarrow> bytes \<Rightarrow> bytes \<Rightarrow> byte \<Rightarrow> (ends, unit) op list \<Rightarrow> unit result" where
  "new_ends alg key iv g ms =
     try_r (unwrap (cipher_new alg key iv)) (\<lambda>s. try_r (unwrap (cipher_new alg key iv)) (\<lambda>r.
       run_test (s, r, g) ms))"

definition chacha20poly1305_round_trip :: "byte crates \<Rightarrow> unit result" where
  "chacha20poly1305_round_trip E =
     new_ends ChaCha20Poly1305OpenSsh (replicate 64 0x11) [] 0x42
       (map (\<lambda>i. round_trip E (replicate (10 + i) (of_nat i))) [0..<3] @
        [and_then (unwraps (sends E (lit ''wrong keys should fail''))) (\<lambda>wire.
           case cipher_new ChaCha20Poly1305OpenSsh (replicate 64 0x22) [] of
             Ok wrong_keys \<Rightarrow> asserts (is_err (fst (cipher_open (fixed_rng E) wire wrong_keys)))
           | _ \<Rightarrow> asserts False)])"

definition aes256gcm_round_trip :: "byte crates \<Rightarrow> unit result" where
  "aes256gcm_round_trip E =
     new_ends Aes256GcmOpenSsh (replicate 32 0x33) (replicate 12 0x01) 0x99
       (map (\<lambda>i. round_trip E (replicate (5 + i * 3) (of_nat i))) [0..<5])"

definition aes256gcm_tampered_ciphertext_is_rejected :: "byte crates \<Rightarrow> unit result" where
  "aes256gcm_tampered_ciphertext_is_rejected E =
     new_ends Aes256GcmOpenSsh (replicate 32 0x44) (replicate 12 0x02) 0x01
       [and_then (unwraps (sends E (lit ''hello''))) (\<lambda>wire.
          errs (receives E (butlast wire @ [last wire XOR 0xFF])) (\<lambda>e. e = Mac))]"

definition pad_payload_meets_min_padding_and_block_alignment :: "unit result" where
  "pad_payload_meets_min_padding_and_block_alignment = run_test 0
     (concat (map (\<lambda>block. map (\<lambda>payload_len.
        and_then (\<lambda>g. case pad_payload fixed_fill (replicate payload_len 0) block g of (body, g') \<Rightarrow> (Ok body, g'))
          (\<lambda>body. steps
            [asserts (length body mod block = 0),
             asserts (body \<noteq> []),
             asserts (MIN_PADDING \<le> unat (hd body)),
             asserts (length body = 1 + payload_len + unat (hd body))])) [0..<40]) [8, 16]))"

definition plaintext_round_trip :: "unit result" where
  "plaintext_round_trip =
     (let payload = lit ''SSH_MSG_KEXINIT-shaped payload'' in
      run_test 0x55
        [and_then (\<lambda>g. case seal_plaintext fixed_fill payload g of (wire, g') \<Rightarrow> (Ok wire, g')) (\<lambda>wire. steps
           [asserts (4 \<le> length wire),
            expects (lift_r (peek_plaintext_length (take 4 wire))) (length wire),
            expects (lift_r (open_plaintext wire)) payload])])"

definition with_initial_seq_continues_the_sequence :: "byte crates \<Rightarrow> unit result" where
  "with_initial_seq_continues_the_sequence E =
     (let key = replicate 64 0x11; payload = lit ''SSH_MSG_NEWKEYS-adjacent payload'' in
      try_r (unwrap (cipher_new ChaCha20Poly1305OpenSsh key [])) (\<lambda>advanced.
      try_r (unwrap (with_initial_seq ChaCha20Poly1305OpenSsh key [] 3)) (\<lambda>seeded.
        run_test (advanced, seeded, 0x9)
          (map (\<lambda>i. skips (sends E (replicate 4 (of_nat i)))) [0..<3] @
           [and_then (unwraps (\<lambda>(a, s, g). case sends E payload (a, s, 0x9) of (w, (a', s', _)) \<Rightarrow> (w, (a', s', g))))
              (\<lambda>expected. expects (\<lambda>(a, s, g). case cipher_seal (fixed_rng E) payload (s, 0x9) of
                 (w, (s', _)) \<Rightarrow> (w, (a, s', g))) expected)]))))"

definition plaintext_wire_packet_is_block_aligned_including_length_field :: "unit result" where
  "plaintext_wire_packet_is_block_aligned_including_length_field = run_test 0x7
     (map (\<lambda>payload_len.
        and_then (\<lambda>g. case seal_plaintext fixed_fill (replicate payload_len 0) g of (wire, g') \<Rightarrow> (Ok wire, g'))
          (\<lambda>wire. asserts (length wire mod 8 = 0))) [0..<40])"

section \<open>Loops of steps that keep going\<close>

lemma steps_append: "steps (xs @ ys) s = and_then (steps xs) (\<lambda>_. steps ys) s"
  by (induction xs arbitrary: s) (auto simp: and_then_def split: prod.splits result.splits)

lemma steps_all_ok:
  "(\<And>m s. m \<in> set ms \<Longrightarrow> I s \<Longrightarrow> \<exists>s'. m s = (Ok (), s') \<and> I s') \<Longrightarrow> I s \<Longrightarrow>
     \<exists>s'. steps ms s = (Ok (), s') \<and> I s'"
proof (induction ms arbitrary: s)
  case (Cons m ms)
  obtain s1 where "m s = (Ok (), s1)" "I s1" using Cons.prems(1) [of m s] Cons.prems(2) by auto
  with Cons.IH [of s1] Cons.prems(1) show ?case by (auto simp: and_then_def)
qed simp

lemma run_all_ok:
  "(\<And>m s. m \<in> set ms \<Longrightarrow> I s \<Longrightarrow> \<exists>s'. m s = (Ok (), s') \<and> I s') \<Longrightarrow> I s \<Longrightarrow> run_test s ms = Ok ()"
  using steps_all_ok [of ms I s] by (auto simp: run_test_def)

section \<open>They pass\<close>

lemma pad_payload_meets_min_padding_and_block_alignment_ok:
  "pad_payload_meets_min_padding_and_block_alignment = Ok ()"
  unfolding pad_payload_meets_min_padding_and_block_alignment_def
proof (rule run_all_ok [where I = "\<lambda>_. True"], goal_cases)
  case (1 m s)
  then obtain block n where b: "block = 8 \<or> block = 16" and m: "m =
      and_then (\<lambda>g. case pad_payload fixed_fill (replicate n 0) block g of (body, g') \<Rightarrow> (Ok body, g'))
          (\<lambda>body. steps
            [asserts (length body mod block = 0), asserts (body \<noteq> []),
             asserts (MIN_PADDING \<le> unat (hd body)),
             asserts (length body = 1 + n + unat (hd body))])" by auto
  let ?p = "padding_len n block 0"
  have p: "(1 + n + ?p) mod block = 0" "4 \<le> ?p" "?p \<le> 19"
    using b padding_len_bounds [where block = block and n = n and prefix = 0] by (auto simp: MIN_PADDING_def)
  have "unat (word_of_nat ?p :: byte) = ?p" using p by (simp add: unat_word_of_nat_byte)
  then show ?case
    using p by (simp add: m pad_payload_def pad_payload_with_prefix_def fixed_fill_def Let_def and_then_def
        asserts_def MIN_PADDING_def add.assoc)
qed simp

lemma plaintext_wire_packet_is_block_aligned_including_length_field_ok:
  "plaintext_wire_packet_is_block_aligned_including_length_field = Ok ()"
  unfolding plaintext_wire_packet_is_block_aligned_including_length_field_def
proof (rule run_all_ok [where I = "\<lambda>_. True"], goal_cases)
  case (1 m s)
  then obtain n where m: "m = and_then (\<lambda>g. case seal_plaintext fixed_fill (replicate n 0) g of
      (wire, g') \<Rightarrow> (Ok wire, g')) (\<lambda>wire. asserts (length wire mod 8 = 0))" by auto
  have "(4 + (1 + n) + padding_len n 8 4) mod 8 = 0" by (rule padding_len_bounds) simp
  then show ?case
    by (simp add: m seal_plaintext_def pad_payload_with_prefix_def fixed_fill_def Let_def and_then_def
        asserts_def add.assoc)
qed simp

lemma plaintext_round_trip_ok: "plaintext_round_trip = Ok ()"
proof -
  let ?p = "lit ''SSH_MSG_KEXINIT-shaped payload''"
  obtain w g where w: "seal_plaintext fixed_fill ?p 0x55 = (w, g)" by fastforce
  have "payload_fits ?p" by (simp add: payload_fits_def MAX_PACKET_LENGTH_def)
  note l = plaintext_link [OF this, where E = "fixed_rng E" for E, simplified, OF w]
  show ?thesis
    using w l by (simp add: plaintext_round_trip_def Let_def run_test_def and_then_def expects_def
        gives_def unwraps_def asserts_def)
qed

lemma fixed_seals:
  assumes "ciphers_ok E" and "payload_fits p"
  shows "\<exists>w c' g'. cipher_seal (fixed_rng E) p (c, g) = (Ok w, (c', g')) \<and> 4 \<le> length w"
proof -
  have "ciphers_ok (fixed_rng E)" using assms(1) by simp
  then show ?thesis
    by (rule cipher_link [where p = p and c = c and rng = g]) (use assms(2) in blast)+
qed

lemma round_trip_ok:
  assumes "ciphers_ok E" and "payload_fits p"
  shows "\<exists>c' g'. round_trip E p (c, c, g) = (Ok (), (c', c', g')) \<and>
    c' = c\<lparr>pc_keys := advance_keys 1 (pc_keys c), pc_seq := pc_seq c + 1\<rparr>"
proof -
  obtain w c' g' where s: "cipher_seal (fixed_rng E) p (c, g) = (Ok w, (c', g'))" "4 \<le> length w"
    "peek_total_length (fixed_rng E) c (take 4 w) = Ok (length w)"
    "cipher_open (fixed_rng E) w c = (Ok p, c')"
    using cipher_link [of "fixed_rng E" p c g] assms by auto
  then show ?thesis
    using cipher_seal_state [OF s(1)]
    by (simp add: round_trip_def sends_def receives_def and_then_def unwraps_def asserts_def expects_def
        gives_def)
qed

text \<open>Any number of round trips leaves both ends with the same state.\<close>

lemma round_trips_ok:
  assumes E: "ciphers_ok E" and "list_all payload_fits ps" and "K c"
    and K: "\<And>c. K c \<Longrightarrow> K (c\<lparr>pc_keys := advance_keys 1 (pc_keys c), pc_seq := pc_seq c + 1\<rparr>)"
  shows "\<exists>c' g'. steps (map (round_trip E) ps) (c, c, g) = (Ok (), (c', c', g')) \<and> K c'"
proof -
  have "\<exists>s'. steps (map (round_trip E) ps) (c, c, g) = (Ok (), s') \<and> (case s' of (a, b, _) \<Rightarrow> a = b \<and> K a)"
  proof (rule steps_all_ok, goal_cases)
    case (1 m s)
    with assms(2) obtain p where "m = round_trip E p" "payload_fits p" by (auto simp: list_all_iff)
    with 1(2) round_trip_ok [OF E] K show ?case by (cases s) fastforce
  qed (use assms(3) in simp)
  then show ?thesis by auto
qed

lemma aes256gcm_round_trip_ok: "ciphers_ok E \<Longrightarrow> aes256gcm_round_trip E = Ok ()"
proof -
  assume E: "ciphers_ok E"
  have m: "map (\<lambda>i. round_trip E (replicate (5 + i * 3) (of_nat i))) [0..<5] =
      map (round_trip E) (map (\<lambda>i. replicate (5 + i * 3) (of_nat i)) [0..<5])" by simp
  have "list_all payload_fits (map (\<lambda>i. replicate (5 + i * 3) (of_nat i)) [0..<5])"
    by (auto simp: list_all_iff payload_fits_def MAX_PACKET_LENGTH_def)
  from round_trips_ok [OF E this, where K = "\<lambda>_. True"] show ?thesis
    unfolding aes256gcm_round_trip_def m new_ends_def run_test_def
    by (auto simp: cipher_new_def with_initial_seq_def) (metis fst_conv)
qed

text \<open>
  What the rejections rest on: a tag other than the one computed does not authenticate; and a packet
  sealed under the key of the sender does not authenticate under the other key the test makes up.
\<close>

definition tag_checked ::
    "(bytes \<Rightarrow> bytes \<Rightarrow> bytes \<Rightarrow> bytes \<Rightarrow> (bytes \<times> bytes) option) \<Rightarrow>
     (bytes \<Rightarrow> bytes \<Rightarrow> bytes \<Rightarrow> bytes \<Rightarrow> bytes \<Rightarrow> bytes option) \<Rightarrow> bool" where
  "tag_checked sl op \<longleftrightarrow>
     (\<forall>k n a m c t t'. sl k n a m = Some (c, t) \<longrightarrow> t' \<noteq> t \<longrightarrow> op k n a c t' = None)"

definition other_key_rejected :: "byte crates \<Rightarrow> bool" where
  "other_key_rejected E \<longleftrightarrow>
     (\<forall>seq g a c t. length a = 4 \<longrightarrow>
        chachapoly_seal E (replicate 32 0x11) (chacha_nonce_for_seq seq) a
          (fst (pad_payload fixed_fill (lit ''wrong keys should fail'') 8 g)) = Some (c, t) \<longrightarrow>
        chachapoly_open E (replicate 32 0x22) (chacha_nonce_for_seq 0) a c t = None)"

lemma flipped_byte: "(b :: byte) XOR 0xFF \<noteq> b"
proof
  assume "b XOR 0xFF = b"
  then have "(b XOR 0xFF) XOR b = 0" by simp
  then show False by (simp add: xor.commute xor.left_commute)
qed

lemma flipped_tag:
  fixes w :: bytes
  assumes "w = xs @ tag" and "tag \<noteq> []"
  shows "butlast w @ [last w XOR 0xFF] = xs @ (butlast tag @ [last tag XOR 0xFF])"
    and "butlast tag @ [last tag XOR 0xFF] \<noteq> tag"
proof -
  show "butlast w @ [last w XOR 0xFF] = xs @ (butlast tag @ [last tag XOR 0xFF])"
    using assms by (simp add: butlast_append)
  have "last tag XOR 0xFF \<noteq> last tag" by (rule flipped_byte)
  then show "butlast tag @ [last tag XOR 0xFF] \<noteq> tag"
    using assms(2) by (metis append_butlast_last_id last_snoc)
qed

lemma aes256gcm_tampered_ciphertext_is_rejected_ok:
  assumes E: "ciphers_ok E" and t: "tag_checked (aesgcm_seal E) (aesgcm_open E)"
  shows "aes256gcm_tampered_ciphertext_is_rejected E = Ok ()"
proof -
  let ?E = "fixed_rng E" and ?c = "\<lparr>pc_alg = Aes256GcmOpenSsh,
    pc_keys = KeysGcm (replicate 32 0x44) (replicate 12 0x02), pc_seq = 0\<rparr>"
  obtain body g where pad: "pad_payload fixed_fill (lit ''hello'') 16 1 = (body, g)" by fastforce
  have fits: "payload_fits (lit ''hello'')" by (simp add: payload_fits_def MAX_PACKET_LENGTH_def)
  have "length body < 4294967296"
    using pad by (auto simp: pad_payload_def pad_payload_with_prefix_def fixed_fill_def Let_def padding_len_def)
  then obtain c tag where s: "aesgcm_seal E (replicate 32 0x44) (replicate 12 0x02)
      (u32_to_be (word_of_nat (length body))) body = Some (c, tag)"
    and len: "length c = length body" "length tag = 16" "length body < 4294967296"
    using aead_okE [of "aesgcm_seal E" "aesgcm_open E" body] E unfolding ciphers_ok_def by metis
  let ?l = "u32_to_be (word_of_nat (length body)) :: bytes" and ?tag = "butlast tag @ [last tag XOR 0xFF]"
  have "tag \<noteq> []" using len by auto
  note f = flipped_tag [of "?l @ c @ tag" "?l @ c" tag, simplified, OF \<open>tag \<noteq> []\<close>]
  have "aesgcm_open E (replicate 32 0x44) (replicate 12 0x02) ?l c ?tag = None"
    using t s f(2) unfolding tag_checked_def by blast
  then have "cipher_open ?E (butlast (?l @ c @ tag) @ [last (?l @ c @ tag) XOR 0xFF]) ?c = (Err Mac, ?c)"
    using len f(1) \<open>tag \<noteq> []\<close>
    by (simp add: cipher_open_def open_aes256gcm_def Let_def unat_of_nat TAG_LEN_def fixed_rng_def)
  moreover have "cipher_seal ?E (lit ''hello'') (?c, 1) = (Ok (?l @ c @ tag),
      (?c\<lparr>pc_seq := 1, pc_keys := KeysGcm (replicate 32 0x44) (increment_gcm_nonce (replicate 12 0x02))\<rparr>, g))"
    using pad s by (simp add: cipher_seal_def seal_aes256gcm_def Let_def) (simp add: fixed_rng_def)
  ultimately show ?thesis
    by (simp add: aes256gcm_tampered_ciphertext_is_rejected_def new_ends_def cipher_new_def
        with_initial_seq_def run_test_def sends_def receives_def and_then_def unwraps_def errs_def)
qed

lemma wrong_keys_rejected:
  assumes o: "\<And>a c t. length a = 4 \<Longrightarrow> chachapoly_seal E key2 (chacha_nonce_for_seq seq) a body = Some (c, t) \<Longrightarrow>
      chachapoly_open E other2 (chacha_nonce_for_seq seq') a c t = None"
    and s: "seal_chacha20poly1305 E key1 key2 seq body = Ok w" and c: "stream_cipher_ok E"
    and len: "\<And>n a c t. chachapoly_seal E key2 n a body = Some (c, t) \<Longrightarrow> length c = length body \<and> length t = 16"
  shows "is_err (open_chacha20poly1305 E other1 other2 seq' (take 4 w) w)"
proof -
  let ?l = "chacha_xor E key1 (chacha_nonce_for_seq seq) (u32_to_be (word_of_nat (length body)))"
  obtain ct tag where e: "chachapoly_seal E key2 (chacha_nonce_for_seq seq) ?l body = Some (ct, tag)"
    and w: "w = ?l @ ct @ tag"
    using s by (cases "chachapoly_seal E key2 (chacha_nonce_for_seq seq) ?l body")
      (auto simp: seal_chacha20poly1305_def Let_def)
  have l: "length ?l = 4" using c unfolding stream_cipher_ok_def by simp
  have "chachapoly_open E other2 (chacha_nonce_for_seq seq') ?l ct tag = None"
    by (rule o [OF l e])
  then show ?thesis
    using l len [OF e] by (auto simp: w open_chacha20poly1305_def Let_def is_err_def TAG_LEN_def)
qed

lemma wrong_keys_step:
  assumes E: "ciphers_ok E" and o: "other_key_rejected E"
    and k: "pc_alg c = ChaCha20Poly1305OpenSsh" "pc_keys c = KeysChaCha (replicate 32 0x11) (replicate 32 0x11)"
  shows "\<exists>w d g2. cipher_seal (fixed_rng E) (lit ''wrong keys should fail'') (c, g) = (Ok w, (d, g2)) \<and>
    4 \<le> length w \<and> is_err (open_chacha20poly1305 (fixed_rng E) (replicate 32 0x22) (replicate 32 0x22) 0 (take 4 w) w)"
proof -
  let ?E = "fixed_rng E"
  have "payload_fits (lit ''wrong keys should fail'')" by (simp add: payload_fits_def MAX_PACKET_LENGTH_def)
  then obtain w d g2 where s: "cipher_seal ?E (lit ''wrong keys should fail'') (c, g) = (Ok w, (d, g2))"
    and "4 \<le> length w"
    using fixed_seals [OF E] by blast
  obtain body g3 where pad: "pad_payload fixed_fill (lit ''wrong keys should fail'') 8 g = (body, g3)"
    by fastforce
  with s k have seal: "seal_chacha20poly1305 ?E (replicate 32 0x11) (replicate 32 0x11) (pc_seq c) body = Ok w"
    by (simp add: cipher_seal_def Let_def)
  have "length body < 4294967296"
    using pad by (auto simp: pad_payload_def pad_payload_with_prefix_def fixed_fill_def Let_def padding_len_def)
  then have len: "length ct = length body \<and> length tag = 16"
    if "chachapoly_seal ?E (replicate 32 0x11) n a body = Some (ct, tag)" for n a ct tag
    using E that aead_okE [of "chachapoly_seal ?E" "chachapoly_open ?E" body "replicate 32 0x11" n a]
    by (auto simp: ciphers_ok_def fixed_rng_def)
  have "is_err (open_chacha20poly1305 ?E (replicate 32 0x22) (replicate 32 0x22) 0 (take 4 w) w)"
  proof (rule wrong_keys_rejected [OF _ seal _ len])
    fix a ct t
    have same: "chachapoly_seal ?E = chachapoly_seal E" "chachapoly_open ?E = chachapoly_open E"
      by (simp_all add: fixed_rng_def)
    have body: "body = fst (pad_payload fixed_fill (lit ''wrong keys should fail'') 8 g)"
      by (simp only: pad fst_conv)
    assume "length a = 4" and "chachapoly_seal ?E (replicate 32 0x11) (chacha_nonce_for_seq (pc_seq c)) a body = Some (ct, t)"
    then show "chachapoly_open ?E (replicate 32 0x22) (chacha_nonce_for_seq 0) a ct t = None"
      using o unfolding other_key_rejected_def same body by blast
  next
    have "ciphers_ok ?E" using E by simp
    then show "stream_cipher_ok ?E" unfolding ciphers_ok_def by (rule conjunct1)
  qed
  with s \<open>4 \<le> length w\<close> show ?thesis by blast
qed

lemma chacha20poly1305_round_trip_ok:
  assumes E: "ciphers_ok E" and o: "other_key_rejected E"
  shows "chacha20poly1305_round_trip E = Ok ()"
proof -
  let ?c = "\<lparr>pc_alg = ChaCha20Poly1305OpenSsh,
    pc_keys = KeysChaCha (replicate 32 0x11) (replicate 32 0x11), pc_seq = 0\<rparr>"
  let ?ps = "map (\<lambda>i. replicate (10 + i) (of_nat i)) [0..<3] :: bytes list"
  let ?bad = "and_then (unwraps (sends E (lit ''wrong keys should fail''))) (\<lambda>wire.
     case cipher_new ChaCha20Poly1305OpenSsh (replicate 64 0x22) [] of
       Ok wrong_keys \<Rightarrow> asserts (is_err (fst (cipher_open (fixed_rng E) wire wrong_keys))) | _ \<Rightarrow> asserts False)"
  have m: "map (\<lambda>i. round_trip E (replicate (10 + i) (of_nat i))) [0..<3] = map (round_trip E) ?ps" by simp
  have "list_all payload_fits ?ps" by (auto simp: list_all_iff payload_fits_def MAX_PACKET_LENGTH_def)
  from round_trips_ok [OF E this, where K = "\<lambda>c. pc_alg c = ChaCha20Poly1305OpenSsh \<and>
      pc_keys c = KeysChaCha (replicate 32 0x11) (replicate 32 0x11)" and c = ?c and g = "0x42"]
  obtain c' g' where 1: "steps (map (round_trip E) ?ps) (?c, ?c, 0x42) = (Ok (), (c', c', g'))"
    and k: "pc_alg c' = ChaCha20Poly1305OpenSsh" "pc_keys c' = KeysChaCha (replicate 32 0x11) (replicate 32 0x11)"
    by auto
  obtain w d g2 where "cipher_seal (fixed_rng E) (lit ''wrong keys should fail'') (c', g') = (Ok w, (d, g2))"
    "4 \<le> length w"
    "is_err (open_chacha20poly1305 (fixed_rng E) (replicate 32 0x22) (replicate 32 0x22) 0 (take 4 w) w)"
    using wrong_keys_step [OF E o k] by blast
  then have "?bad (c', c', g') = (Ok (), (d, c', g2))"
    by (auto simp: sends_def and_then_def unwraps_def cipher_new_def with_initial_seq_def cipher_open_def
        Let_def asserts_def is_err_def split: result.splits)
  with 1 show ?thesis
    unfolding chacha20poly1305_round_trip_def m new_ends_def run_test_def
    by (simp add: cipher_new_def with_initial_seq_def steps_append and_then_def del: upt_Suc)
qed

lemma with_initial_seq_continues_the_sequence_ok:
  assumes E: "ciphers_ok E"
  shows "with_initial_seq_continues_the_sequence E = Ok ()"
proof -
  let ?E = "fixed_rng E"
  let ?c = "\<lambda>n. \<lparr>pc_alg = ChaCha20Poly1305OpenSsh,
    pc_keys = KeysChaCha (replicate 32 0x11) (replicate 32 0x11), pc_seq = n\<rparr>"
  have send: "\<exists>w. sends E p (?c n, s, g) = (Ok w, (?c (n + 1), s, g))" if p: "payload_fits p" for p n s g
  proof -
    obtain w c' g' where w: "cipher_seal ?E p (?c n, g) = (Ok w, (c', g'))"
      using fixed_seals [OF E p] by blast
    moreover have "g' = g"
      using w by (auto simp: cipher_seal_def Let_def pad_payload_def pad_payload_with_prefix_def fixed_fill_def)
    ultimately show ?thesis using cipher_seal_state [OF w] by (simp add: sends_def)
  qed
  have skip: "skips (sends E p) (?c n, s, g) = (Ok (), (?c (n + 1), s, g))" if "payload_fits p" for p n s g
    using send [OF that, of n s g] by (auto simp: skips_def gives_def unwraps_def and_then_def asserts_def)
  have fits: "payload_fits (replicate 4 b)" "payload_fits (lit ''SSH_MSG_NEWKEYS-adjacent payload'')" for b
    by (simp_all add: payload_fits_def MAX_PACKET_LENGTH_def)
  obtain w where "sends E (lit ''SSH_MSG_NEWKEYS-adjacent payload'') (?c 3, ?c 3, 9) = (Ok w, (?c 4, ?c 3, 9))"
    using send [OF fits(2), of 3 "?c 3" 9] by auto
  moreover from this have "cipher_seal ?E (lit ''SSH_MSG_NEWKEYS-adjacent payload'') (?c 3, 9) = (Ok w, (?c 4, 9))"
    by (auto simp: sends_def split: prod.splits)
  moreover have "[0..<3] = [0, 1, 2 :: nat]" by (simp add: upt_rec)
  ultimately show ?thesis
    using skip [OF fits(1), of _ 0] skip [OF fits(1), of _ 1] skip [OF fits(1), of _ 2]
    by (simp add: with_initial_seq_continues_the_sequence_def Let_def cipher_new_def with_initial_seq_def
        run_test_def and_then_def unwraps_def expects_def gives_def asserts_def)
qed

end
