(* ===== verification/Rand_Core.thy ===== *)
theory Rand_Core
  imports Rng
begin

text \<open>
  The generators of the test kit and of the unit tests as \<open>RngCore\<close>s of \<open>rand_core\<close> 0.6, the
  trait through which \<open>PrivateKey::random\<close> draws a throwaway key, and the random source of the binding.
\<close>

text \<open>The trait \<open>RngCore\<close>: its four methods on a generator of type \<open>'r\<close>.\<close>

record 'r rng_core =
  next_u32 :: "'r \<Rightarrow> u32 \<times> 'r"
  next_u64 :: "'r \<Rightarrow> u64 \<times> 'r"
  fill_bytes :: "nat \<Rightarrow> 'r \<Rightarrow> bytes \<times> 'r"
  fill_checked :: "nat \<Rightarrow> ('r, bytes) op"

text \<open>
  What a caller relies on: a buffer is filled to its end, and the fallible method does what the
  other one does.
\<close>

locale core_generator =
  fixes R :: "'r rng_core"
  assumes fills: "length (fst (fill_bytes R n r)) = n"
    and never_fails: "fill_checked R n r = (Ok (fst (fill_bytes R n r)), snd (fill_bytes R n r))"

sublocale core_generator \<subseteq> secure_random "fill_bytes R"
  by unfold_locales (rule fills)

context core_generator begin

lemma checked_length: "fill_checked R n r = (Ok bs, r') \<Longrightarrow> length bs = n"
  by (auto simp: never_fails fills)

end

section \<open>TestRng\<close>

definition test_rng_core :: "u64 rng_core" where
  "test_rng_core =
     \<lparr>next_u32 = \<lambda>s. let (buf, s') = test_rng_fill 4 s in (word_of_nat (le_val buf), s'),
      next_u64 = \<lambda>s. let (buf, s') = test_rng_fill 8 s in (word_of_nat (le_val buf), s'),
      fill_bytes = test_rng_fill,
      fill_checked = \<lambda>n s. let (buf, s') = test_rng_fill n s in (Ok buf, s')\<rparr>"

interpretation test_core: core_generator test_rng_core
  by unfold_locales (simp_all add: test_rng_core_def length_test_rng_fill split_beta)

section \<open>The generators of the unit tests\<close>

text \<open>
  Three structs \<open>KeygenRng\<close> and one \<open>FixedRng\<close>, all without a state. The bytes of \<open>FixedRng\<close>
  count up, and wrap.
\<close>

definition keygen_rng :: "unit rng_core" where
  "keygen_rng =
     \<lparr>next_u32 = \<lambda>r. (42, r), next_u64 = \<lambda>r. (42, r),
      fill_bytes = \<lambda>n r. (replicate n 42, r), fill_checked = \<lambda>n r. (Ok (replicate n 42), r)\<rparr>"

definition dh_keygen_rng :: "unit rng_core" where
  "dh_keygen_rng =
     \<lparr>next_u32 = \<lambda>r. (7, r), next_u64 = \<lambda>r. (7, r),
      fill_bytes = \<lambda>n r. (replicate n 7, r), fill_checked = \<lambda>n r. (Ok (replicate n 7), r)\<rparr>"

definition ecdh_keygen_rng :: "unit rng_core" where
  "ecdh_keygen_rng =
     \<lparr>next_u32 = \<lambda>r. (7, r), next_u64 = \<lambda>r. (7, r),
      fill_bytes = \<lambda>n r. (replicate n 7, r), fill_checked = \<lambda>n r. (Ok (replicate n 7), r)\<rparr>"

definition hostkey_fixed_rng :: "unit rng_core" where
  "hostkey_fixed_rng =
     \<lparr>next_u32 = \<lambda>r. (0x12345678, r), next_u64 = \<lambda>r. (0x123456789abcdef0, r),
      fill_bytes = \<lambda>n r. (map word_of_nat [0..<n], r),
      fill_checked = \<lambda>n r. (Ok (map word_of_nat [0..<n]), r)\<rparr>"

interpretation keygen: core_generator keygen_rng
  by unfold_locales (simp_all add: keygen_rng_def)

interpretation dh_keygen: core_generator dh_keygen_rng
  by unfold_locales (simp_all add: dh_keygen_rng_def)

interpretation ecdh_keygen: core_generator ecdh_keygen_rng
  by unfold_locales (simp_all add: ecdh_keygen_rng_def)

interpretation hostkey_fixed: core_generator hostkey_fixed_rng
  by unfold_locales (simp_all add: hostkey_fixed_rng_def)

text \<open>
  The structs \<open>FixedRng\<close> that implement the crate's own trait: the bytes of the two key exchange
  tests count up from the seed and wrap, and a fill does not change the seed; the one of
  \<open>kexinit.rs\<close> has no seed.
\<close>

definition dh_fixed_fill :: "nat \<Rightarrow> byte \<Rightarrow> bytes \<times> byte" where
  "dh_fixed_fill n seed = (map (\<lambda>i. seed + word_of_nat i) [0..<n], seed)"

definition ecdh_fixed_fill :: "nat \<Rightarrow> byte \<Rightarrow> bytes \<times> byte" where
  "ecdh_fixed_fill n seed = (map (\<lambda>i. seed + word_of_nat i) [0..<n], seed)"

definition kexinit_fixed_fill :: "nat \<Rightarrow> unit \<Rightarrow> bytes \<times> unit" where
  "kexinit_fixed_fill n r = (replicate n 0x7A, r)"

interpretation dh_fixed: secure_random dh_fixed_fill
  by unfold_locales (simp add: dh_fixed_fill_def)

interpretation ecdh_fixed: secure_random ecdh_fixed_fill
  by unfold_locales (simp add: ecdh_fixed_fill_def)

interpretation kexinit_fixed: secure_random kexinit_fixed_fill
  by unfold_locales (simp add: kexinit_fixed_fill_def)

section \<open>Words drawn from TestRng\<close>

lemma le_val_u64: "le_val (u64_to_le w) = unat w"
proof -
  have "unat w < 256 ^ 8" using unat_u64_less [of w] by simp
  then show ?thesis by (simp add: le_val_def u64_to_le_def u64_to_be_def)
qed

lemma test_rng_fill_chunk:
  "0 < n \<Longrightarrow> n \<le> 8 \<Longrightarrow> test_rng_fill n s =
     (take n (u64_to_le (test_rng_mix (s + 0x9E3779B97F4A7C15))), s + 0x9E3779B97F4A7C15)"
  by (simp add: test_rng_fill.simps [of n s] test_rng_fill.simps [of 0] Let_def min_def)

text \<open>A \<open>u64\<close> is one output of splitmix64.\<close>

lemma test_rng_next_u64:
  "next_u64 test_rng_core s = (test_rng_mix (s + 0x9E3779B97F4A7C15), s + 0x9E3779B97F4A7C15)"
  by (simp add: test_rng_core_def test_rng_fill_chunk le_val_u64)

text \<open>A \<open>u32\<close> is its low half, and the generator moves on as far.\<close>

lemma be_val_append: "be_val (xs @ ys) = be_val xs * 256 ^ length ys + be_val ys"
  by (induction ys rule: rev_induct) (simp_all flip: append_assoc add: algebra_simps)

lemma le_val_take: "le_val (take k bs) = le_val bs mod 256 ^ k" if "k \<le> length bs"
proof -
  have "rev bs = rev (drop k bs) @ rev (take k bs)" by (simp flip: rev_append)
  then have "le_val bs = be_val (rev (drop k bs)) * 256 ^ k + le_val (take k bs)"
    using that be_val_append [of "rev (drop k bs)" "rev (take k bs)"] by (simp add: le_val_def)
  moreover have "le_val (take k bs) < 256 ^ k"
    using be_val_less [of "rev (take k bs)"] that by (simp add: le_val_def)
  ultimately show ?thesis by simp
qed

lemma test_rng_next_u32:
  "next_u32 test_rng_core s = (ucast (fst (next_u64 test_rng_core s)), snd (next_u64 test_rng_core s))"
proof -
  have "(word_of_nat (le_val (take 4 (u64_to_le w))) :: u32) = ucast w" for w
    by (rule iffD2 [OF word_unat_eq_iff])
      (simp add: le_val_take le_val_u64 unat_of_nat unsigned_ucast_eq take_bit_eq_mod)
  then show ?thesis
    by (simp add: test_rng_next_u64) (simp add: test_rng_core_def test_rng_fill_chunk)
qed

section \<open>The random source of the binding\<close>

text \<open>
  \<open>WasmRng\<close> fills a buffer from \<open>getrandom\<close> (a parameter: the bytes, or nothing when it fails)
  and panics when it fails.
\<close>

definition wasm_rng_fill :: "(nat \<Rightarrow> 'r \<Rightarrow> bytes option \<times> 'r) \<Rightarrow> nat \<Rightarrow> ('r, bytes) op" where
  "wasm_rng_fill getrandom n r = (case getrandom n r of (bs, r') \<Rightarrow> (expect bs, r'))"

lemma wasm_rng_fill_total:
  assumes "\<And>n r. \<exists>bs r'. getrandom n r = (Some bs, r') \<and> length bs = n"
  shows "secure_random (\<lambda>n r. case wasm_rng_fill getrandom n r of (Ok bs, r') \<Rightarrow> (bs, r') | (_, r') \<Rightarrow> ([], r'))"
proof
  fix n :: nat and r :: 'a
  obtain bs r' where "getrandom n r = (Some bs, r')" "length bs = n" using assms by blast
  then show "length (fst (case wasm_rng_fill getrandom n r of
      (Ok bs, r') \<Rightarrow> (bs, r') | (_, r') \<Rightarrow> ([], r'))) = n"
    by (simp add: wasm_rng_fill_def)
qed

end
