(* ===== verification/Crypto_Tests.thy ===== *)
theory Crypto_Tests
  imports Transport_Tests Auth Rand_Core
begin

text \<open>
  The unit tests of \<open>kexinit.rs\<close>, \<open>kdf.rs\<close>, \<open>hostkey.rs\<close>, the two key exchanges and
  \<open>publickey.rs\<close>, translated as in Unit_Tests. A key a test draws or reads from a file is an
  argument; the lemma assumes of it what ssh-key documents of any key.
\<close>

unbundle bit_operations_syntax

section \<open>kexinit.rs\<close>

definition round_trips_through_wire_format :: "'r crates \<Rightarrow> unit result" where
  "round_trips_through_wire_format E =
     (let kex = fst (kexinit_ours fixed_fill 0x7A) in
      run_test ()
        [and_then (lift_r (kexinit_to_payload E kex)) (\<lambda>payload.
         and_then (unwraps (lift_r (kexinit_parse E payload))) (\<lambda>parsed. steps
           [asserts (cookie parsed = cookie kex),
            asserts (kex_algorithms parsed = kex_algorithms kex),
            asserts (server_host_key_algorithms parsed = server_host_key_algorithms kex),
            asserts (encryption_client_to_server parsed = encryption_client_to_server kex),
            asserts (languages_client_to_server parsed = []),
            asserts (\<not> first_kex_packet_follows parsed)]))])"

definition negotiate_picks_clients_first_preference_present_on_server :: "unit result" where
  "negotiate_picks_clients_first_preference_present_on_server =
     (let client = [lit ''a'', lit ''b'', lit ''c'']; server = [lit ''c'', lit ''b''] in
      run_test () [expects (lift_r (negotiate client server (lit ''test''))) (lit ''b'')])"

definition negotiate_fails_with_no_overlap :: "unit result" where
  "negotiate_fails_with_no_overlap =
     (let client = [lit ''a'']; server = [lit ''b''] in
      run_test () [errs (lift_r (negotiate client server (lit ''test''))) (\<lambda>_. True)])"

definition negotiate_all_picks_our_preferred_algorithms_when_server_supports_everything :: "unit result" where
  "negotiate_all_picks_our_preferred_algorithms_when_server_supports_everything =
     (case kexinit_ours fixed_fill 0x7A of (ours, rng) \<Rightarrow>
      case kexinit_ours fixed_fill rng of (theirs, _) \<Rightarrow>
      run_test ()
        [and_then (unwraps (lift_r (negotiate_all ours theirs))) (\<lambda>picked. steps
           [asserts (neg_kex picked = lit ''curve25519-sha256''),
            asserts (neg_server_host_key picked = lit ''ssh-ed25519''),
            asserts (neg_encryption_client_to_server picked = lit ''chacha20-poly1305@openssh.com'')])])"

definition negotiate_all_falls_back_when_server_only_supports_secondary_choices :: "unit result" where
  "negotiate_all_falls_back_when_server_only_supports_secondary_choices =
     (case kexinit_ours fixed_fill 0x7A of (ours, rng) \<Rightarrow>
      case kexinit_ours fixed_fill rng of (theirs0, _) \<Rightarrow>
      let theirs = theirs0\<lparr>kex_algorithms := [lit ''diffie-hellman-group14-sha256''],
            encryption_client_to_server := [lit ''aes256-gcm@openssh.com''],
            encryption_server_to_client := [lit ''aes256-gcm@openssh.com'']\<rparr> in
      run_test ()
        [and_then (unwraps (lift_r (negotiate_all ours theirs))) (\<lambda>picked. steps
           [asserts (neg_kex picked = lit ''diffie-hellman-group14-sha256''),
            asserts (neg_encryption_client_to_server picked = lit ''aes256-gcm@openssh.com'')])])"

definition empty_name_list_round_trips :: "'r crates \<Rightarrow> unit result" where
  "empty_name_list_round_trips E =
     try_r (write_name_list E []) (\<lambda>out.
       run_test out [gives (read_name_list E) (\<lambda>parsed. parsed = [])])"

lemmas negotiation_simps = kexinit_ours_def KEX_ALGORITHMS_def SERVER_HOST_KEY_ALGORITHMS_def
  ENCRYPTION_ALGORITHMS_def negotiate_all_def negotiate_def test_simps

lemma kexinit_fixed_ok: "kexinit_ok (fst (kexinit_ours fixed_fill b))"
  using kexinit_ours_ok [of "fixed_rng E" b for E] by simp

lemma round_trips_through_wire_format_ok:
  "encoding_ok E \<Longrightarrow> round_trips_through_wire_format E = Ok ()"
proof -
  assume "encoding_ok E"
  let ?kex = "fst (kexinit_ours fixed_fill 0x7A)"
  obtain p where "kexinit_to_payload E ?kex = Ok p" "kexinit_parse E p = Ok ?kex"
    using kexinit_round_trip [OF \<open>encoding_ok E\<close> kexinit_fixed_ok] by blast
  moreover have "languages_client_to_server ?kex = []" "\<not> first_kex_packet_follows ?kex"
    by (simp_all add: kexinit_ours_def fixed_fill_def)
  ultimately show ?thesis
    by (simp add: round_trips_through_wire_format_def Let_def run_test_def and_then_def unwraps_def
        asserts_def)
qed

lemma negotiate_picks_clients_first_preference_present_on_server_ok:
  "negotiate_picks_clients_first_preference_present_on_server = Ok ()"
  by (simp add: negotiate_picks_clients_first_preference_present_on_server_def negotiation_simps)

lemma negotiate_fails_with_no_overlap_ok: "negotiate_fails_with_no_overlap = Ok ()"
  by (simp add: negotiate_fails_with_no_overlap_def negotiation_simps)

lemma negotiate_all_picks_our_preferred_algorithms_when_server_supports_everything_ok:
  "negotiate_all_picks_our_preferred_algorithms_when_server_supports_everything = Ok ()"
  by (simp add: negotiate_all_picks_our_preferred_algorithms_when_server_supports_everything_def
      negotiation_simps fixed_fill_def)

lemma negotiate_all_falls_back_when_server_only_supports_secondary_choices_ok:
  "negotiate_all_falls_back_when_server_only_supports_secondary_choices = Ok ()"
  by (simp add: negotiate_all_falls_back_when_server_only_supports_secondary_choices_def
      negotiation_simps fixed_fill_def)

lemma empty_name_list_round_trips_ok: "encoding_ok E \<Longrightarrow> empty_name_list_round_trips E = Ok ()"
proof -
  assume E: "encoding_ok E"
  have "names_ok []" by (simp add: names_ok_def)
  then obtain e where "write_name_list E [] = Ok e" and "\<And>rest. yields (read_name_list E) (e @ rest) [] rest"
    using name_list_round_trip [OF E] by blast
  from this(1) this(2) [of "[]"] show ?thesis
    by (simp add: empty_name_list_round_trips_def yields_def run_test_def gives_def unwraps_def
        and_then_def asserts_def)
qed

section \<open>kdf.rs\<close>

definition first_block_matches_single_hash :: "'r crates \<Rightarrow> unit result" where
  "first_block_matches_single_hash E =
     try_r (encode_mpint E [1, 2, 3]) (\<lambda>k.
     let h = lit ''exchange-hash-fixture''; session_id = lit ''session-id-fixture'';
         derived = derive E k h session_id TAG_ENC_KEY_CLIENT_TO_SERVER 32;
         expected = sha256_digest E (k @ h @ [TAG_ENC_KEY_CLIENT_TO_SERVER] @ session_id) in
     run_test () [asserts (derived = expected)])"

definition extension_blocks_use_cumulative_concatenation :: "'r crates \<Rightarrow> unit result" where
  "extension_blocks_use_cumulative_concatenation E =
     try_r (encode_mpint E (replicate 4 0xAA)) (\<lambda>k.
     let h = lit ''h''; session_id = lit ''sid'';
         derived = derive E k h session_id TAG_ENC_KEY_CLIENT_TO_SERVER 64;
         k1 = sha256_digest E (k @ h @ [TAG_ENC_KEY_CLIENT_TO_SERVER] @ session_id);
         k2 = sha256_digest E (k @ h @ k1) in
     run_test ()
       [asserts (length derived = 64),
        asserts (take 32 derived = k1),
        asserts (take 32 (drop 32 derived) = k2)])"

definition truncates_to_requested_length :: "'r crates \<Rightarrow> unit result" where
  "truncates_to_requested_length E =
     try_r (encode_mpint E [1]) (\<lambda>k.
     let derived = derive E k (lit ''h'') (lit ''sid'') TAG_IV_CLIENT_TO_SERVER 12 in
     run_test () [asserts (length derived = 12)])"

lemma first_block_matches_single_hash_ok:
  "mpint_encode E [1, 2, 3] \<noteq> None \<Longrightarrow> first_block_matches_single_hash E = Ok ()"
  using derive_spec [of 32 0 E]
  by (auto simp: first_block_matches_single_hash_def encode_mpint_def run_test_def asserts_def
      and_then_def Let_def)

lemma extension_blocks_use_cumulative_concatenation_ok:
  "mpint_encode E (replicate 4 0xAA) \<noteq> None \<Longrightarrow> extension_blocks_use_cumulative_concatenation E = Ok ()"
  using derive_spec [of 64 1 E]
  by (auto simp: extension_blocks_use_cumulative_concatenation_def encode_mpint_def run_test_def
      asserts_def and_then_def Let_def)

lemma truncates_to_requested_length_ok:
  "mpint_encode E [1] \<noteq> None \<Longrightarrow> truncates_to_requested_length E = Ok ()"
  by (auto simp: truncates_to_requested_length_def encode_mpint_def run_test_def asserts_def
      and_then_def Let_def)

definition mpint_encoding_adds_leading_zero_for_high_bit :: "'r crates \<Rightarrow> unit result" where
  "mpint_encoding_adds_leading_zero_for_high_bit E =
     try_r (encode_mpint E [0x80, 0x01]) (\<lambda>encoded.
       run_test ()
         [asserts (length encoded = 7), asserts (take 4 encoded = [0, 0, 0, 3]),
          asserts (drop 4 encoded = [0x00, 0x80, 0x01])])"

text \<open>What ssh-encoding documents of a positive integer without leading zeros.\<close>

definition mpint_ok :: "'r crates \<Rightarrow> bool" where
  "mpint_ok E \<longleftrightarrow>
     (\<forall>b. mpint_encode E b \<noteq> None) \<and>
     (\<forall>b. b \<noteq> [] \<and> 0 < hd b \<and> length b < 1000 \<longrightarrow>
        mpint_encode E b = Some (write_string (if hd b < 128 then b else 0 # b)))"

lemma mpint_encoding_adds_leading_zero_for_high_bit_ok:
  assumes "mpint_ok E"
  shows "mpint_encoding_adds_leading_zero_for_high_bit E = Ok ()"
proof -
  have "mpint_encode E [0x80, 0x01] = Some (write_string [0, 0x80, 0x01])"
    using assms by (simp add: mpint_ok_def)
  moreover have "write_u32 3 = [0, 0, 0, 3]" by (simp add: byte_simps)
  ultimately show ?thesis
    by (simp add: mpint_encoding_adds_leading_zero_for_high_bit_def encode_mpint_def write_string_def
        run_test_def asserts_def and_then_def)
qed

section \<open>Keys and signatures of the tests\<close>

text \<open>\<open>private.public_key().to_bytes().unwrap()\<close>, and a signature made by the key itself, encoded.\<close>

definition public_blob :: "'r crates \<Rightarrow> bytes \<Rightarrow> bytes result" where
  "public_blob E private = unwrap (key_result (pubkey_to_bytes E (privkey_public E private)))"

definition hand_signature :: "'r crates \<Rightarrow> bytes \<Rightarrow> bytes \<Rightarrow> bytes result" where
  "hand_signature E private m =
     try_r (expect (privkey_try_sign E private m)) (\<lambda>s. unwrap (key_result (signature_to_bytes E s)))"

text \<open>
  What ssh-key documents of a key pair: its public key survives encoding and reports its algorithm.
  Of a signature: it survives encoding and verifies for the message that was signed. That it does not
  verify for another message is assumed of the pairs of messages the tests try.
\<close>

definition key_encodes :: "'r crates \<Rightarrow> bytes \<Rightarrow> str \<Rightarrow> bool" where
  "key_encodes E private name \<longleftrightarrow>
     (\<exists>blob. pubkey_to_bytes E (privkey_public E private) = Inr blob \<and> fits_u32 blob \<and>
        pubkey_from_bytes E blob = Inr (privkey_public E private)) \<and>
     pubkey_algorithm E (privkey_public E private) = name"

definition signature_good :: "'r crates \<Rightarrow> bytes \<Rightarrow> bytes \<Rightarrow> bytes \<Rightarrow> bool" where
  "signature_good E private m s \<longleftrightarrow>
     (\<exists>w. signature_to_bytes E s = Inr w \<and> fits_u32 w \<and> signature_from_bytes E w = Inr s) \<and>
     verify_sig E (privkey_public E private) m s"

definition key_signs :: "'r crates \<Rightarrow> bytes \<Rightarrow> bool" where
  "key_signs E private \<longleftrightarrow> (\<forall>m. \<exists>s. privkey_try_sign E private m = Some s \<and> signature_good E private m s)"

definition message_rejected :: "'r crates \<Rightarrow> bytes \<Rightarrow> bytes \<Rightarrow> bytes \<Rightarrow> bool" where
  "message_rejected E private m m' \<longleftrightarrow>
     (\<forall>s. privkey_try_sign E private m = Some s \<longrightarrow> \<not> verify_sig E (privkey_public E private) m' s)"

text \<open>What a reader gives, one field after the other.\<close>

lemma steps_reads:
  assumes "remaining r = xs" and "rpos r \<le> length (rbuf r)" and "reads p xs v ys" and "f v"
    and "\<And>r'. rpos r' \<le> length (rbuf r') \<Longrightarrow> remaining r' = ys \<Longrightarrow> fst (steps ms r') = Ok ()"
  shows "fst (steps (gives p f # ms) r) = Ok ()"
proof -
  from assms(1-3) obtain r' where "p r = (Ok v, r')" "rpos r' \<le> length (rbuf r')" "remaining r' = ys"
    unfolding reads_def by blast
  with assms(4,5) show ?thesis by (simp add: gives_def unwraps_def and_then_def asserts_def)
qed

lemma run_reads:
  "(\<And>r. rpos r \<le> length (rbuf r) \<Longrightarrow> remaining r = b \<Longrightarrow> fst (steps ms r) = Ok ()) \<Longrightarrow>
     run_test (reader_new b) ms = Ok ()"
  by (simp add: run_test_def reader_new_def remaining_def)

lemma finished_end: "rpos r \<le> length (rbuf r) \<Longrightarrow> remaining r = [] \<Longrightarrow> is_finished r"
  by (simp add: remaining_def is_finished_def)

section \<open>hostkey.rs\<close>

definition parses_blob_and_reports_algorithm :: "'r crates \<Rightarrow> bytes \<Rightarrow> unit result" where
  "parses_blob_and_reports_algorithm E private =
     try_r (public_blob E private) (\<lambda>blob.
     try_r (unwrap (hostkey_parse E blob)) (\<lambda>host_key. run_test ()
       [asserts (algorithm_name E host_key = lit ''ssh-ed25519''),
        asserts (hk_blob host_key = blob)]))"

definition fingerprint_has_expected_shape :: "'r crates \<Rightarrow> bytes \<Rightarrow> unit result" where
  "fingerprint_has_expected_shape E private =
     try_r (public_blob E private) (\<lambda>blob.
     try_r (unwrap (hostkey_parse E blob)) (\<lambda>host_key.
     let fp = fingerprint_sha256 E host_key in run_test ()
       [asserts (starts_with fp (lit ''SHA256:'')),
        asserts (61 \<notin> set fp),
        asserts (length fp = length (lit ''SHA256:'') + 43)]))"

definition verifies_genuine_signature_and_rejects_tampered_message :: "'r crates \<Rightarrow> bytes \<Rightarrow> unit result" where
  "verifies_genuine_signature_and_rejects_tampered_message E private =
     try_r (public_blob E private) (\<lambda>blob.
     try_r (unwrap (hostkey_parse E blob)) (\<lambda>host_key.
     let message = lit ''exchange-hash-fixture'' in
     try_r (hand_signature E private message) (\<lambda>sig_bytes. run_test ()
       [skips (lift_r (verify_signature E host_key message sig_bytes)),
        errs (lift_r (verify_signature E host_key (lit ''different-message'') sig_bytes))
          (\<lambda>e. e = HostKeySignatureInvalid)])))"

definition rejects_signature_from_a_different_key :: "'r crates \<Rightarrow> bytes \<Rightarrow> bytes \<Rightarrow> unit result" where
  "rejects_signature_from_a_different_key E private_a private_b =
     try_r (public_blob E private_a) (\<lambda>blob_a.
     try_r (unwrap (hostkey_parse E blob_a)) (\<lambda>host_key_a.
     let message = lit ''exchange-hash-fixture'' in
     try_r (hand_signature E private_b message) (\<lambda>sig_bytes. run_test ()
       [asserts (is_err (verify_signature E host_key_a message sig_bytes))])))"

lemma public_blobE:
  assumes "key_encodes E private name"
  obtains blob k where "public_blob E private = Ok blob" and "fits_u32 blob"
    and "hostkey_parse E blob = Ok k" and "hk_blob k = blob" and "hk_public k = privkey_public E private"
    and "algorithm_name E k = name"
  using assms by (auto simp: key_encodes_def public_blob_def hostkey_parse_def algorithm_name_def
      key_result_def)

lemma hand_signatureE:
  assumes "key_signs E private"
  obtains sig s where "hand_signature E private m = Ok sig" and "signature_from_bytes E sig = Inr s"
    and "signature_good E private m s" and "privkey_try_sign E private m = Some s"
proof -
  obtain s where "privkey_try_sign E private m = Some s" and s: "signature_good E private m s"
    using assms unfolding key_signs_def by blast
  moreover obtain w where "signature_to_bytes E s = Inr w" and "signature_from_bytes E w = Inr s"
    using s unfolding signature_good_def by blast
  ultimately show ?thesis
    using that [of w s] by (simp add: hand_signature_def expect_def key_result_def)
qed

lemma verify_signature_good:
  assumes "signature_from_bytes E sig = Inr s" and "signature_good E private m s"
    and "hk_public k = privkey_public E private"
  shows "verify_signature E k m sig = Ok ()"
  using assms by (simp add: verify_signature_def signature_good_def key_result_def)

lemma verify_signature_bad:
  assumes "signature_from_bytes E sig = Inr s" and "privkey_try_sign E private m = Some s"
    and "message_rejected E private m m'" and "hk_public k = privkey_public E private"
  shows "verify_signature E k m' sig = Err HostKeySignatureInvalid"
  using assms by (simp add: verify_signature_def message_rejected_def key_result_def)

lemma parses_blob_and_reports_algorithm_ok:
  assumes "key_encodes E private (lit ''ssh-ed25519'')"
  shows "parses_blob_and_reports_algorithm E private = Ok ()"
  by (rule public_blobE [OF assms])
    (simp add: parses_blob_and_reports_algorithm_def run_test_def asserts_def and_then_def)

lemma fingerprint_has_expected_shape_ok:
  assumes "key_encodes E private name"
    and "\<And>d. length d = 32 \<Longrightarrow> length (base64_unpadded E d) = 43 \<and> 61 \<notin> set (base64_unpadded E d)"
  shows "fingerprint_has_expected_shape E private = Ok ()"
proof (rule public_blobE [OF assms(1)])
  fix blob k
  assume k: "public_blob E private = Ok blob" "hostkey_parse E blob = Ok k"
  have "starts_with (fingerprint_sha256 E k) (lit ''SHA256:'')"
    by (simp add: fingerprint_sha256_def starts_with_def lit_def)
  moreover have "61 \<notin> set (fingerprint_sha256 E k)" "length (fingerprint_sha256 E k) = 7 + 43"
    using assms(2) [of "sha256_digest E (hk_blob k)"] by (simp_all add: fingerprint_sha256_def lit_def)
  moreover have "length (lit ''SHA256:'') = 7" by (simp add: lit_def)
  ultimately show ?thesis
    using k by (simp add: fingerprint_has_expected_shape_def Let_def run_test_def asserts_def and_then_def)
qed

lemma verifies_genuine_signature_and_rejects_tampered_message_ok:
  assumes "key_encodes E private name" and "key_signs E private"
    and "message_rejected E private (lit ''exchange-hash-fixture'') (lit ''different-message'')"
  shows "verifies_genuine_signature_and_rejects_tampered_message E private = Ok ()"
proof (rule public_blobE [OF assms(1)])
  fix blob k
  let ?m = "lit ''exchange-hash-fixture''"
  assume k: "public_blob E private = Ok blob" "hostkey_parse E blob = Ok k" "hk_public k = privkey_public E private"
  obtain sig s where "hand_signature E private ?m = Ok sig"
    and s: "signature_from_bytes E sig = Inr s" "signature_good E private ?m s"
      "privkey_try_sign E private ?m = Some s"
    by (rule hand_signatureE [OF assms(2)])
  with k verify_signature_good [OF s(1,2) k(3)] verify_signature_bad [OF s(1,3) assms(3) k(3)]
  show ?thesis
    by (simp add: verifies_genuine_signature_and_rejects_tampered_message_def Let_def run_test_def
        asserts_def and_then_def skips_def gives_def unwraps_def errs_def)
qed

lemma rejects_signature_from_a_different_key_ok:
  assumes "key_encodes E a name" and "key_signs E b"
    and other: "\<And>s. privkey_try_sign E b (lit ''exchange-hash-fixture'') = Some s \<Longrightarrow>
      \<not> verify_sig E (privkey_public E a) (lit ''exchange-hash-fixture'') s"
  shows "rejects_signature_from_a_different_key E a b = Ok ()"
proof (rule public_blobE [OF assms(1)])
  fix blob k
  let ?m = "lit ''exchange-hash-fixture''"
  assume k: "public_blob E a = Ok blob" "hostkey_parse E blob = Ok k" "hk_public k = privkey_public E a"
  obtain s where s: "privkey_try_sign E b ?m = Some s" "signature_good E b ?m s"
    using assms(2) unfolding key_signs_def by blast
  then obtain w where w: "signature_to_bytes E s = Inr w" "signature_from_bytes E w = Inr s"
    unfolding signature_good_def by blast
  have "is_err (verify_signature E k ?m w)"
    using w k other [OF s(1)] by (simp add: verify_signature_def key_result_def is_err_def)
  then show ?thesis
    using k s w by (simp add: rejects_signature_from_a_different_key_def hand_signature_def expect_def
        key_result_def run_test_def asserts_def and_then_def)
qed

section \<open>kex_curve25519.rs\<close>

definition ecdh_both_sides_derive_the_same_shared_secret :: "byte crates \<Rightarrow> unit result" where
  "ecdh_both_sides_derive_the_same_shared_secret E =
     (case (fst (keypair_generate E 1), fst (keypair_generate E 200)) of (client, server) \<Rightarrow>
      try_r (unwrap (ecdh_diffie_hellman E client (kp_public_bytes server))) (\<lambda>client_shared.
      try_r (unwrap (ecdh_diffie_hellman E server (kp_public_bytes client))) (\<lambda>server_shared.
        run_test () [asserts (client_shared = server_shared)])))"

definition init_message_has_expected_wire_shape :: "byte crates \<Rightarrow> unit result" where
  "init_message_has_expected_wire_shape E =
     (let client = fst (keypair_generate E 5); msg = ecdh_build_init_message client in
      run_test ()
        [asserts (37 \<le> length msg),
         asserts (hd msg = MSG_KEX_ECDH_INIT),
         asserts (take 4 (drop 1 msg) = u32_to_be 32),
         asserts (take 32 (drop 5 msg) = kp_public_bytes client)])"

definition ecdh_parses_reply_message :: "unit result" where
  "ecdh_parses_reply_message =
     (let payload = MSG_KEX_ECDH_REPLY # write_string (lit ''fake-host-key-blob'') @
        write_string (replicate 32 0x42) @ write_string (lit ''fake-signature-blob'') in
      try_r (unwrap (ecdh_parse_reply payload)) (\<lambda>reply. run_test ()
        [asserts (er_host_key_blob reply = lit ''fake-host-key-blob''),
         asserts (er_server_public reply = replicate 32 0x42),
         asserts (er_signature_blob reply = lit ''fake-signature-blob'')]))"

text \<open>\<open>bad_h[0] ^= 0xFF\<close> on the 32 bytes of a hash.\<close>

definition tampered :: "bytes \<Rightarrow> bytes" where
  "tampered h = h[0 := hd h XOR 0xFF]"

definition ecdh_end_to_end_matches_a_hand_signed_reply :: "byte crates \<Rightarrow> bytes \<Rightarrow> unit result" where
  "ecdh_end_to_end_matches_a_hand_signed_reply E host_private =
     try_r (public_blob E host_private) (\<lambda>host_key_blob.
     let client = fst (keypair_generate E 11); server = fst (keypair_generate E 222);
         q_c = kp_public_bytes client; q_s = kp_public_bytes server in
     try_r (unwrap (ecdh_diffie_hellman E client q_s)) (\<lambda>shared.
     try_r (ecdh_exchange_hash E (lit ''SSH-2.0-wasmssh_test'') (lit ''SSH-2.0-OpenSSH_test'')
              (lit ''fake-client-kexinit-payload'') (lit ''fake-server-kexinit-payload'')
              host_key_blob q_c q_s shared) (\<lambda>h.
     try_r (hand_signature E host_private h) (\<lambda>signature_blob.
     let reply = \<lparr>er_host_key_blob = host_key_blob, er_server_public = q_s,
                  er_signature_blob = signature_blob\<rparr> in
     try_r (unwrap (ecdh_verify_reply_signature E reply h)) (\<lambda>host_key. run_test ()
       [asserts (algorithm_name E host_key = lit ''ssh-ed25519''),
        asserts (is_err (ecdh_verify_reply_signature E reply (tampered h)))])))))"

text \<open>x25519-dalek: public keys have 32 bytes, and the two sides of an exchange agree on a good secret.\<close>

definition x25519_agrees :: "byte crates \<Rightarrow> byte \<Rightarrow> byte \<Rightarrow> bool" where
  "x25519_agrees E r q \<longleftrightarrow>
     (let a = fst (keypair_generate E r); b = fst (keypair_generate E q);
          k = x25519_dh E (kp_secret a) (kp_public_bytes b) in
      k = x25519_dh E (kp_secret b) (kp_public_bytes a) \<and> x25519_contributory E k)"

lemma verify_reply_good:
  assumes "hostkey_parse E blob = Ok k" and "hk_public k = privkey_public E private"
    and "signature_from_bytes E sig = Inr s" and "signature_good E private h s"
    and "privkey_try_sign E private h = Some s" and "message_rejected E private h (tampered h)"
  shows "verify_reply E blob sig h = Ok k" and "is_err (verify_reply E blob sig (tampered h))"
  using assms verify_signature_good [OF assms(3,4,2)] verify_signature_bad [OF assms(3,5,6,2)]
  by (simp_all add: verify_reply_def is_err_def)

lemma x25519_agreesE:
  assumes "x25519_agrees E r q"
  obtains K where
    "ecdh_diffie_hellman E (fst (keypair_generate E r)) (kp_public_bytes (fst (keypair_generate E q))) = Ok K"
    and "ecdh_diffie_hellman E (fst (keypair_generate E q)) (kp_public_bytes (fst (keypair_generate E r))) = Ok K"
  using assms unfolding x25519_agrees_def ecdh_diffie_hellman_def Let_def by metis

lemma ecdh_both_sides_derive_the_same_shared_secret_ok:
  assumes "x25519_agrees E 1 200"
  shows "ecdh_both_sides_derive_the_same_shared_secret E = Ok ()"
  by (rule x25519_agreesE [OF assms])
    (simp add: ecdh_both_sides_derive_the_same_shared_secret_def run_test_def asserts_def and_then_def)

lemma init_message_has_expected_wire_shape_ok:
  "(\<And>s. length (x25519_public E s) = 32) \<Longrightarrow> init_message_has_expected_wire_shape E = Ok ()"
  by (simp add: init_message_has_expected_wire_shape_def keypair_generate_def Let_def split_beta
      ecdh_build_init_message_def write_string_def write_u32_def run_test_def asserts_def and_then_def)

lemma ecdh_parses_reply_message_ok: "ecdh_parses_reply_message = Ok ()"
proof -
  have "fits_u32 (lit ''fake-host-key-blob'')" "fits_u32 (lit ''fake-signature-blob'')"
    by (simp_all add: fits_u32_def)
  then show ?thesis
    using ecdh_parse_reply_round_trip [where q = "replicate 32 0x42" and trailing = "[]"]
    by (simp add: ecdh_parses_reply_message_def run_test_def asserts_def and_then_def)
qed

lemma ecdh_end_to_end_matches_a_hand_signed_reply_ok:
  assumes key: "key_encodes E private (lit ''ssh-ed25519'')" "key_signs E private"
    and dh: "x25519_agrees E 11 222" and mpint: "\<And>b. mpint_encode E b \<noteq> None"
    and tamper: "\<And>h. length h = 32 \<Longrightarrow> message_rejected E private h (tampered h)"
  shows "ecdh_end_to_end_matches_a_hand_signed_reply E private = Ok ()"
proof (rule public_blobE [OF key(1)])
  fix blob k
  let ?c = "fst (keypair_generate E 11)" and ?s = "fst (keypair_generate E 222)"
  assume k: "public_blob E private = Ok blob" "hostkey_parse E blob = Ok k"
    "hk_public k = privkey_public E private" "algorithm_name E k = lit ''ssh-ed25519''"
  obtain K where K: "ecdh_diffie_hellman E ?c (kp_public_bytes ?s) = Ok K"
    by (rule x25519_agreesE [OF dh])
  let ?h = "ecdh_exchange_hash E (lit ''SSH-2.0-wasmssh_test'') (lit ''SSH-2.0-OpenSSH_test'')
    (lit ''fake-client-kexinit-payload'') (lit ''fake-server-kexinit-payload'')
    blob (kp_public_bytes ?c) (kp_public_bytes ?s) K"
  obtain h where h: "?h = Ok h" "length h = 32"
    using mpint [of K] by (auto simp: ecdh_exchange_hash_def ecdh_transcript_def encode_mpint_def expect_def)
  obtain sig s where sig: "hand_signature E private h = Ok sig"
    and s: "signature_from_bytes E sig = Inr s" "signature_good E private h s"
      "privkey_try_sign E private h = Some s"
    by (rule hand_signatureE [OF key(2)])
  note v = verify_reply_good [OF k(2,3) s tamper [OF h(2)]]
  show ?thesis
    using k(1,4) K h(1) sig v
    by (simp add: ecdh_end_to_end_matches_a_hand_signed_reply_def Let_def ecdh_verify_reply_signature_def
        run_test_def asserts_def and_then_def)
qed

section \<open>kex_dh_group14.rs\<close>

text \<open>The prime is a constant; its bytes are the crate's. \<open>from_be_hex\<close> gives it the precision asked for when it fits.\<close>

definition group14_prime_constant_is_exactly_2048_bits_and_odd :: "byte crates \<Rightarrow> unit result" where
  "group14_prime_constant_is_exactly_2048_bits_and_odd E =
     (let prime = GROUP14_PRIME; bytes = biguint_to_be E prime GROUP14_BITS in
      run_test ()
        [asserts (prime < 2 ^ GROUP14_BITS), asserts (length bytes = 256), asserts (bytes ! 0 = 0xFF),
         asserts (bytes ! 255 = 0xFF), asserts (odd prime)])"

definition dh_both_sides_derive_the_same_shared_secret :: "byte crates \<Rightarrow> unit result" where
  "dh_both_sides_derive_the_same_shared_secret E =
     try_r (fst (dh_generate E 3)) (\<lambda>client.
     try_r (fst (dh_generate E 151)) (\<lambda>server.
     try_r (unwrap (dh_diffie_hellman E client (dh_e_bytes server))) (\<lambda>client_shared.
     try_r (unwrap (dh_diffie_hellman E server (dh_e_bytes client))) (\<lambda>server_shared.
       run_test () [asserts (client_shared = server_shared)]))))"

definition rejects_degenerate_public_values :: "byte crates \<Rightarrow> unit result" where
  "rejects_degenerate_public_values E =
     (let rejects = (\<lambda>f. and_then (lift_r (fst (dh_generate E 9))) (\<lambda>client.
            asserts (is_err (dh_diffie_hellman E client f))));
          prime_minus_one = biguint_to_be E (GROUP14_PRIME - 1) GROUP14_BITS in
      run_test () [rejects [0], rejects [1], rejects prime_minus_one])"

definition dh_parses_reply_message :: "byte crates \<Rightarrow> unit result" where
  "dh_parses_reply_message E =
     try_r (encode_mpint E [1, 2, 3]) (\<lambda>f.
     let payload = MSG_KEXDH_REPLY # write_string (lit ''fake-host-key-blob'') @ f @
           write_string (lit ''fake-signature-blob'') in
     try_r (unwrap (dh_parse_reply payload)) (\<lambda>reply. run_test ()
        [asserts (dhr_host_key_blob reply = lit ''fake-host-key-blob''),
         asserts (dhr_signature_blob reply = lit ''fake-signature-blob'')]))"

definition dh_end_to_end_matches_a_hand_signed_reply :: "byte crates \<Rightarrow> bytes \<Rightarrow> unit result" where
  "dh_end_to_end_matches_a_hand_signed_reply E host_private =
     try_r (public_blob E host_private) (\<lambda>host_key_blob.
     try_r (fst (dh_generate E 11)) (\<lambda>client.
     try_r (fst (dh_generate E 222)) (\<lambda>server.
     let e_bytes = dh_e_bytes client; f_bytes = dh_e_bytes server in
     try_r (unwrap (dh_diffie_hellman E client f_bytes)) (\<lambda>shared.
     try_r (dh_exchange_hash E (lit ''SSH-2.0-wasmssh_test'') (lit ''SSH-2.0-OpenSSH_test'')
              (lit ''fake-client-kexinit-payload'') (lit ''fake-server-kexinit-payload'')
              host_key_blob e_bytes f_bytes shared) (\<lambda>h.
     try_r (hand_signature E host_private h) (\<lambda>signature_blob.
     let reply = \<lparr>dhr_host_key_blob = host_key_blob, dhr_f_bytes = f_bytes,
                  dhr_signature_blob = signature_blob\<rparr> in
     try_r (unwrap (dh_verify_reply_signature E reply h)) (\<lambda>host_key. run_test ()
       [asserts (algorithm_name E host_key = lit ''ssh-ed25519''),
        asserts (is_err (dh_verify_reply_signature E reply (tampered h)))])))))))"

text \<open>The two public values of a run are in range, which fails for a negligible share of the seeds.\<close>

definition in_range :: "byte crates \<Rightarrow> byte \<Rightarrow> bool" where
  "in_range E r \<longleftrightarrow>
     validate_public_value (2 ^ fst (biguint_random E GROUP14_BITS r) mod GROUP14_PRIME) = Ok ()"

lemma dh_generates:
  assumes "biguint_ok E"
  obtains kex r' where "dh_generate E r = (Ok kex, r')"
    and "dh_x kex = fst (biguint_random E GROUP14_BITS r)" and "dh_params kex = GROUP14_PRIME"
    and "dh_e_bytes kex = be_bytes 256 (2 ^ dh_x kex mod GROUP14_PRIME)"
proof -
  have g: "group_generator E = Ok 2"
    by (simp add: group_generator_def biguint_simps(1) [OF assms] be_val_def)
  then obtain kex r' where *: "dh_generate E r = (Ok kex, r')"
    and "dh_x kex = fst (biguint_random E GROUP14_BITS r)"
    by (cases "biguint_random E GROUP14_BITS r") (auto simp: dh_generate_def Let_def)
  with dh_generate_Ok [OF assms *] that show ?thesis by blast
qed

lemma dh_agree:
  assumes E: "biguint_ok E" and "in_range E r" and "in_range E q"
  obtains a b r1 q1 K where "dh_generate E r = (Ok a, r1)" and "dh_generate E q = (Ok b, q1)"
    and "dh_diffie_hellman E a (dh_e_bytes b) = Ok K" and "dh_diffie_hellman E b (dh_e_bytes a) = Ok K"
proof -
  obtain a r1 where a: "dh_generate E r = (Ok a, r1)" "dh_x a = fst (biguint_random E GROUP14_BITS r)"
    "dh_params a = GROUP14_PRIME" "dh_e_bytes a = be_bytes 256 (2 ^ dh_x a mod GROUP14_PRIME)"
    by (rule dh_generates [OF E])
  obtain b q1 where b: "dh_generate E q = (Ok b, q1)" "dh_x b = fst (biguint_random E GROUP14_BITS q)"
    "dh_params b = GROUP14_PRIME" "dh_e_bytes b = be_bytes 256 (2 ^ dh_x b mod GROUP14_PRIME)"
    by (rule dh_generates [OF E])
  have v: "validate_public_value (2 ^ dh_x a mod GROUP14_PRIME) = Ok ()"
    "validate_public_value (2 ^ dh_x b mod GROUP14_PRIME) = Ok ()"
    using assms(2,3) unfolding in_range_def a(2) b(2) by blast+
  have "dh_diffie_hellman E a (dh_e_bytes b) =
      Ok (be_bytes 256 ((2 ^ dh_x b mod GROUP14_PRIME) ^ dh_x a mod GROUP14_PRIME))"
    using dh_secret [OF E a(3), of "dh_e_bytes b"] v by (simp only: b(4) be_val_public length_be_bytes)
  moreover have "dh_diffie_hellman E b (dh_e_bytes a) =
      Ok (be_bytes 256 ((2 ^ dh_x a mod GROUP14_PRIME) ^ dh_x b mod GROUP14_PRIME))"
    using dh_secret [OF E b(3), of "dh_e_bytes a"] v by (simp only: a(4) be_val_public length_be_bytes)
  moreover have "(2 ^ x mod GROUP14_PRIME) ^ y mod GROUP14_PRIME = (2 ^ y mod GROUP14_PRIME) ^ x mod GROUP14_PRIME"
    for x y
    by (metis power_mod power_mult mult.commute)
  ultimately show ?thesis using that a(1) b(1) by metis
qed

lemma be_bytes_first: "0 < k \<Longrightarrow> be_bytes k n ! 0 = word_of_nat (n div 256 ^ (k - 1))"
proof (induction k arbitrary: n)
  case (Suc k)
  show ?case
  proof (cases "k = 0")
    case False
    then have "be_bytes (Suc k) n ! 0 = word_of_nat (n div 256 div 256 ^ (k - 1))"
      using Suc.IH [of "n div 256"] by (simp add: nth_append)
    also have "n div 256 div 256 ^ (k - 1) = n div 256 ^ k"
      using False by (cases k) (simp_all add: div_mult2_eq)
    finally show ?thesis by simp
  qed simp
qed simp

lemma be_bytes_last: "0 < k \<Longrightarrow> be_bytes k n ! (k - 1) = word_of_nat n"
  by (cases k) (simp_all add: nth_append)

lemma group14_prime_constant_is_exactly_2048_bits_and_odd_ok:
  assumes "biguint_ok E"
  shows "group14_prime_constant_is_exactly_2048_bits_and_odd E = Ok ()"
proof -
  have b: "biguint_to_be E GROUP14_PRIME GROUP14_BITS = be_bytes 256 GROUP14_PRIME"
    using assms by (simp add: biguint_ok_def GROUP14_BITS_def)
  have "256 ^ 255 * 255 \<le> GROUP14_PRIME" "GROUP14_PRIME < 256 ^ 255 * Suc 255"
    by (simp_all add: GROUP14_PRIME_def)
  then have first: "GROUP14_PRIME div 256 ^ 255 = 255" by (rule div_nat_eqI)
  have "GROUP14_PRIME = 255 + 256 * 0xFFFFFFFFFFFFFFFFC90FDAA22168C234C4C6628B80DC1CD129024E088A67CC74020BBEA63B139B22514A08798E3404DDEF9519B3CD3A431B302B0A6DF25F14374FE1356D6D51C245E485B576625E7EC6F44C42E9A637ED6B0BFF5CB6F406B7EDEE386BFB5A899FA5AE9F24117C4B1FE649286651ECE45B3DC2007CB8A163BF0598DA48361C55D39A69163FA8FD24CF5F83655D23DCA3AD961C62F356208552BB9ED529077096966D670C354E4ABC9804F1746C08CA18217C32905E462E36CE3BE39E772C180E86039B2783A2EC07A28FB5C55DF06F4C52C9DE2BCBF6955817183995497CEA956AE515D2261898FA051015728E5A8AACAA68FFFFFFFFFFFFFF"
    by (simp add: GROUP14_PRIME_def)
  then obtain q where "GROUP14_PRIME = 255 + 256 * q" by blast
  then have "GROUP14_PRIME mod 256 = 255" by presburger
  note ends = first this
  have last: "(256 :: nat) - 1 = 255" and pos: "0 < (256 :: nat)" by simp_all
  have "(word_of_nat GROUP14_PRIME :: byte) = word_of_nat (GROUP14_PRIME mod 256)"
    by (simp add: word_of_nat_eq_iff take_bit_eq_mod)
  then have "be_bytes 256 GROUP14_PRIME ! 255 = word_of_nat 255"
    using be_bytes_last [OF pos, of GROUP14_PRIME] by (simp only: last ends)
  moreover have "be_bytes 256 GROUP14_PRIME ! 0 = word_of_nat 255"
    using be_bytes_first [OF pos, of GROUP14_PRIME] by (simp only: last ends)
  ultimately show ?thesis using b group14_prime_bounds
    by (simp add: group14_prime_constant_is_exactly_2048_bits_and_odd_def run_test_def asserts_def
        and_then_def Let_def GROUP14_BITS_def)
qed

lemma dh_both_sides_derive_the_same_shared_secret_ok:
  assumes "biguint_ok E" and "in_range E 3" and "in_range E 151"
  shows "dh_both_sides_derive_the_same_shared_secret E = Ok ()"
  by (rule dh_agree [OF assms])
    (simp add: dh_both_sides_derive_the_same_shared_secret_def run_test_def asserts_def and_then_def)

lemma dh_refuses:
  assumes "biguint_ok E" and "length f \<le> 256" and "be_val f \<in> {0, 1, GROUP14_PRIME - 1}"
  shows "is_err (dh_diffie_hellman E kex f)"
  using assms(2,3)
  by (auto simp: dh_diffie_hellman_def biguint_simps [OF assms(1)] validate_public_value_def is_err_def)

lemma rejects_degenerate_public_values_ok:
  assumes E: "biguint_ok E"
  shows "rejects_degenerate_public_values E = Ok ()"
proof -
  obtain kex r' where k: "dh_generate E 9 = (Ok kex, r')" by (rule dh_generates [OF E])
  have "be_val (biguint_to_be E (GROUP14_PRIME - 1) GROUP14_BITS) = GROUP14_PRIME - 1"
    unfolding biguint_simps(3) [OF E] using group14_prime_bounds(1) by (intro be_val_to_be) linarith
  moreover have "length (biguint_to_be E (GROUP14_PRIME - 1) GROUP14_BITS) = 256"
    by (simp only: biguint_simps(3) [OF E] length_be_bytes)
  ultimately have "is_err (dh_diffie_hellman E kex (biguint_to_be E (GROUP14_PRIME - 1) GROUP14_BITS))"
    by (intro dh_refuses [OF E]) simp_all
  moreover have "is_err (dh_diffie_hellman E kex [0])" "is_err (dh_diffie_hellman E kex [1])"
    by (rule dh_refuses [OF E]; simp add: be_val_def)+
  ultimately show ?thesis
    by (simp add: rejects_degenerate_public_values_def Let_def k run_test_def asserts_def and_then_def)
qed

lemma dh_parses_reply_message_ok:
  assumes "mpint_encode E [1, 2, 3] = Some (write_string [1, 2, 3])"
  shows "dh_parses_reply_message E = Ok ()"
proof -
  let ?k = "lit ''fake-host-key-blob''" and ?s = "lit ''fake-signature-blob''"
  have fits: "fits_u32 ?k" "fits_u32 ?s" "fits_u32 [1, 2, 3]" by (simp_all add: fits_u32_def)
  have "dh_parse_reply (MSG_KEXDH_REPLY # write_string ?k @ write_string [1, 2, 3] @ write_string ?s @ []) =
      Ok \<lparr>dhr_host_key_blob = ?k, dhr_f_bytes = [1, 2, 3], dhr_signature_blob = ?s\<rparr>"
    unfolding dh_parse_reply_def
    using fits
    by (intro reads_parse_with) (rule reads_and_then reads_guard reads_u8 reads_string reads_ret | simp)+
  with assms show ?thesis
    by (simp add: dh_parses_reply_message_def encode_mpint_def expect_def Let_def run_test_def asserts_def
        and_then_def)
qed

lemma dh_end_to_end_matches_a_hand_signed_reply_ok:
  assumes key: "key_encodes E private (lit ''ssh-ed25519'')" "key_signs E private"
    and dh: "biguint_ok E" "in_range E 11" "in_range E 222" and mpint: "\<And>b. mpint_encode E b \<noteq> None"
    and tamper: "\<And>h. length h = 32 \<Longrightarrow> message_rejected E private h (tampered h)"
  shows "dh_end_to_end_matches_a_hand_signed_reply E private = Ok ()"
proof (rule public_blobE [OF key(1)], rule dh_agree [OF dh])
  fix blob k a b r1 q1 K
  assume k: "public_blob E private = Ok blob" "hostkey_parse E blob = Ok k"
    "hk_public k = privkey_public E private" "algorithm_name E k = lit ''ssh-ed25519''"
    and K: "dh_generate E 11 = (Ok a, r1)" "dh_generate E 222 = (Ok b, q1)"
    "dh_diffie_hellman E a (dh_e_bytes b) = Ok K"
  let ?h = "dh_exchange_hash E (lit ''SSH-2.0-wasmssh_test'') (lit ''SSH-2.0-OpenSSH_test'')
    (lit ''fake-client-kexinit-payload'') (lit ''fake-server-kexinit-payload'')
    blob (dh_e_bytes a) (dh_e_bytes b) K"
  obtain h where h: "?h = Ok h" "length h = 32"
    using mpint [of K] mpint [of "dh_e_bytes a"] mpint [of "dh_e_bytes b"]
    by (auto simp: dh_exchange_hash_def encode_mpint_def expect_def)
  obtain sig s where sig: "hand_signature E private h = Ok sig"
    and s: "signature_from_bytes E sig = Inr s" "signature_good E private h s"
      "privkey_try_sign E private h = Some s"
    by (rule hand_signatureE [OF key(2)])
  note v = verify_reply_good [OF k(2,3) s tamper [OF h(2)]]
  show ?thesis
    using k(1,4) K h(1) sig v
    by (simp add: dh_end_to_end_matches_a_hand_signed_reply_def Let_def dh_verify_reply_signature_def
        run_test_def asserts_def and_then_def)
qed

section \<open>publickey.rs\<close>

definition query_has_expected_wire_shape :: "'r crates \<Rightarrow> bytes \<Rightarrow> unit result" where
  "query_has_expected_wire_shape E key =
     try_r (unwrap (public_key_auth_new E (lit ''bob'') key)) (\<lambda>auth.
       run_test (reader_new (build_query auth))
         [expects read_u8 MSG_USERAUTH_REQUEST,
          expects read_string (lit ''bob''),
          expects read_string (lit ''ssh-connection''),
          expects read_string (lit ''publickey''),
          expects read_bool False,
          expects read_string (lit ''ssh-ed25519''),
          expects read_string (pka_public_key_blob auth),
          holds is_finished])"

text \<open>The part the two tests of signed requests share.\<close>

definition signed_request_verifies :: "'r crates \<Rightarrow> public_key_auth \<Rightarrow> bytes \<Rightarrow> unit result" where
  "signed_request_verifies E auth key =
     (let session_id = lit ''fixture-session-id'' in
      try_r (unwrap (build_signed_request E auth session_id key)) (\<lambda>signed.
      run_test (reader_new signed)
        [skips read_u8, skips read_string, skips read_string, skips read_string,
         gives read_bool (\<lambda>has_signature. has_signature),
         skips read_string, skips read_string,
         and_then (unwraps read_string) (\<lambda>signature_blob. steps
           [holds is_finished,
            and_then (unwraps (lift_r (hostkey_parse E (pka_public_key_blob auth)))) (\<lambda>host_key.
              skips (lift_r (verify_signature E host_key (signed_data auth session_id) signature_blob)))])]))"

definition signed_request_signature_verifies_against_public_key :: "'r crates \<Rightarrow> bytes \<Rightarrow> unit result" where
  "signed_request_signature_verifies_against_public_key E key =
     try_r (unwrap (public_key_auth_new E (lit ''bob'') key)) (\<lambda>auth.
       signed_request_verifies E auth key)"

definition rsa_signed_request_signature_verifies_against_public_key :: "'r crates \<Rightarrow> bytes \<Rightarrow> unit result" where
  "rsa_signed_request_signature_verifies_against_public_key E key =
     try_r (unwrap (public_key_auth_new E (lit ''bob'') key)) (\<lambda>auth.
     try_r (run_test () [asserts (pka_algorithm_name auth = lit ''rsa-sha2-512'')]) (\<lambda>_.
       signed_request_verifies E auth key))"

lemma auth_newE:
  assumes "key_encodes E key n" and "client_auth_algorithm_name E key = Ok name"
  obtains auth k where "public_key_auth_new E (lit ''bob'') key = Ok auth"
    and "pka_username auth = lit ''bob''" and "pka_algorithm_name auth = name"
    and "fits_u32 (pka_public_key_blob auth)"
    and "hostkey_parse E (pka_public_key_blob auth) = Ok k" and "hk_public k = privkey_public E key"
  using assms by (auto simp: key_encodes_def public_key_auth_new_def hostkey_parse_def key_result_def)

lemma request_fields: "fits_u32 (lit ''bob'')" "fits_u32 (lit ''publickey'')" "fits_u32 (lit ''ssh-connection'')"
  "fits_u32 (lit ''ssh-ed25519'')" "fits_u32 (lit ''rsa-sha2-512'')"
  by (simp_all add: fits_u32_def)

lemma reads_last: "fits_u32 d \<Longrightarrow> reads read_string (write_string d) d []"
  using reads_string [of d "[]"] by simp

lemma query_has_expected_wire_shape_ok:
  assumes "key_encodes E key n" and "privkey_algorithm E key = Ed25519"
  shows "query_has_expected_wire_shape E key = Ok ()"
proof -
  have "client_auth_algorithm_name E key = Ok (lit ''ssh-ed25519'')"
    using assms(2) by (simp add: client_auth_algorithm_name_def)
  from auth_newE [OF assms(1) this] obtain auth where a: "public_key_auth_new E (lit ''bob'') key = Ok auth"
    "pka_username auth = lit ''bob''" "pka_algorithm_name auth = lit ''ssh-ed25519''"
    "fits_u32 (pka_public_key_blob auth)" by metis
  have "run_test (reader_new (build_query auth))
     [expects read_u8 MSG_USERAUTH_REQUEST, expects read_string (lit ''bob''),
      expects read_string (lit ''ssh-connection''), expects read_string (lit ''publickey''),
      expects read_bool False, expects read_string (lit ''ssh-ed25519''),
      expects read_string (pka_public_key_blob auth), holds is_finished] = Ok ()"
    unfolding expects_def build_query_def write_request_prefix_def SERVICE_CONNECTION_def a append_Cons append_assoc
    by (rule run_reads,
        (rule steps_reads, assumption, assumption, rule reads_u8 reads_string reads_bool reads_last,
          (rule request_fields a(4))?, rule refl)+)
      (simp add: holds_def finished_end and_then_def asserts_def look_def)
  with a(1) show ?thesis by (simp add: query_has_expected_wire_shape_def)
qed

text \<open>What the two tests of signed requests need: a request that can be signed, of any algorithm.\<close>

lemma signed_request_verifies_ok:
  assumes auth: "pka_username auth = lit ''bob''" "fits_u32 (pka_algorithm_name auth)"
      "fits_u32 (pka_public_key_blob auth)" "hostkey_parse E (pka_public_key_blob auth) = Ok k"
      "hk_public k = privkey_public E key"
    and sign: "\<And>m. \<exists>s. sign_message E key m = Ok s \<and> signature_good E key m s"
  shows "signed_request_verifies E auth key = Ok ()"
proof -
  let ?id = "lit ''fixture-session-id''"
  obtain s w where s: "sign_message E key (signed_data auth ?id) = Ok s"
      "signature_good E key (signed_data auth ?id) s"
    and w: "signature_to_bytes E s = Inr w" "fits_u32 w" "signature_from_bytes E w = Inr s"
    using sign [of "signed_data auth ?id"] unfolding signature_good_def by blast
  let ?last = "\<lambda>signature_blob. steps [holds is_finished,
     and_then (unwraps (lift_r (hostkey_parse E (pka_public_key_blob auth)))) (\<lambda>host_key.
       skips (lift_r (verify_signature E host_key (signed_data auth ?id) signature_blob)))]"
  have built: "build_signed_request E auth ?id key =
      Ok (request_body_through_key_blob auth True @ write_string w)"
    using s w by (simp add: build_signed_request_def key_result_def)
  have last: "fst (steps [and_then (unwraps read_string) ?last] r) = Ok ()"
    if at: "remaining r = write_string w" "rpos r \<le> length (rbuf r)" for r
  proof -
    obtain r' where "read_string r = (Ok w, r')" "rpos r' \<le> length (rbuf r')" "remaining r' = []"
      using reads_last [OF w(2)] at unfolding reads_def by blast
    then show ?thesis
      using auth(4) verify_signature_good [OF w(3) s(2) auth(5)]
      by (simp add: and_then_def unwraps_def holds_def look_def asserts_def finished_end skips_def gives_def)
  qed
  have "run_test (reader_new (request_body_through_key_blob auth True @ write_string w))
     [skips read_u8, skips read_string, skips read_string, skips read_string,
      gives read_bool (\<lambda>has_signature. has_signature), skips read_string, skips read_string,
      and_then (unwraps read_string) ?last] = Ok ()"
    unfolding skips_def [of read_u8] skips_def [of read_string] request_body_through_key_blob_def
      write_request_prefix_def SERVICE_CONNECTION_def auth(1) append_Cons append_assoc
    by (rule run_reads,
        (rule steps_reads, assumption, assumption, rule reads_u8 reads_string reads_bool,
          (rule request_fields auth(2,3))?, rule TrueI)+)
      (rule last)
  with built show ?thesis by (simp add: signed_request_verifies_def Let_def)
qed

lemma signed_request_signature_verifies_against_public_key_ok:
  assumes "key_encodes E key n" and "privkey_algorithm E key = Ed25519" and "privkey_rsa E key = None"
    and "key_signs E key"
  shows "signed_request_signature_verifies_against_public_key E key = Ok ()"
proof -
  have "client_auth_algorithm_name E key = Ok (lit ''ssh-ed25519'')"
    using assms(2) by (simp add: client_auth_algorithm_name_def)
  from auth_newE [OF assms(1) this] obtain auth k where a: "public_key_auth_new E (lit ''bob'') key = Ok auth"
    "pka_username auth = lit ''bob''" "pka_algorithm_name auth = lit ''ssh-ed25519''"
    "fits_u32 (pka_public_key_blob auth)" "hostkey_parse E (pka_public_key_blob auth) = Ok k"
    "hk_public k = privkey_public E key" by metis
  have "\<exists>s. sign_message E key m = Ok s \<and> signature_good E key m s" for m
    using assms(3,4) unfolding key_signs_def by (auto simp: sign_message_def)
  from signed_request_verifies_ok [OF a(2) _ a(4-6) this] a request_fields show ?thesis
    by (simp add: signed_request_signature_verifies_against_public_key_def)
qed

text \<open>
  What the test with the RSA key needs: the rsa crate takes the key's components with its two primes,
  whose product is the modulus, and signs with them what verifies.
\<close>

definition rsa_key_signs :: "'r crates \<Rightarrow> bytes \<Rightarrow> bool" where
  "rsa_key_signs E key \<longleftrightarrow>
     (\<exists>rsa_private_key. rsa_private E key rsa_private_key \<and>
        (\<forall>m. \<exists>raw s. rsa_sign_sha512 E rsa_private_key m = Some raw \<and>
           signature_new_rsa512 E raw = Some s \<and> signature_good E key m s))"

lemma rsa_signed_request_signature_verifies_against_public_key_ok:
  assumes "key_encodes E key n" and "privkey_algorithm E key = Rsa" and "rsa_key_signs E key"
  shows "rsa_signed_request_signature_verifies_against_public_key E key = Ok ()"
proof -
  have "client_auth_algorithm_name E key = Ok (lit ''rsa-sha2-512'')"
    using assms(2) by (simp add: client_auth_algorithm_name_def)
  from auth_newE [OF assms(1) this] obtain auth k where a: "public_key_auth_new E (lit ''bob'') key = Ok auth"
    "pka_username auth = lit ''bob''" "pka_algorithm_name auth = lit ''rsa-sha2-512''"
    "fits_u32 (pka_public_key_blob auth)" "hostkey_parse E (pka_public_key_blob auth) = Ok k"
    "hk_public k = privkey_public E key" by metis
  have "\<exists>s. sign_message E key m = Ok s \<and> signature_good E key m s" for m
    using assms(3) unfolding rsa_key_signs_def by (fastforce simp: sign_message_rsa)
  from signed_request_verifies_ok [OF a(2) _ a(4-6) this] a request_fields show ?thesis
    by (simp add: rsa_signed_request_signature_verifies_against_public_key_def run_test_def and_then_def
        asserts_def)
qed

end
