(* ===== verification/End_To_End.thy ===== *)
theory End_To_End
  imports Interop_Properties Crypto_Tests
begin

text \<open>
  The tests of \<open>tests/end_to_end.rs\<close> as programs: their event loops with the local variables and the
  assertions in every arm. The key pairs of server and client are what \<open>PrivateKey::random\<close> draws.
\<close>

section \<open>The loops\<close>

text \<open>The local variables of the tests; each uses some of them.\<close>

record locals =
  exec_channel :: "u32 option"
  exec_output :: bytes
  exit_code :: "u32 option"
  saw_channel_opened :: bool
  saw_eof :: bool
  loc_closed :: bool
  authenticated :: bool
  saw_failure :: bool

definition locals_new :: locals where
  "locals_new = \<lparr>exec_channel = None, exec_output = [], exit_code = None, saw_channel_opened = False,
     saw_eof = False, loc_closed = False, authenticated = False, saw_failure = False\<rparr>"

text \<open>
  What an arm of the \<open>match\<close> does: assign, assign and \<open>break\<close>, panic, or call the session (the call
  may give the new locals) and \<open>pump\<close>.
\<close>

datatype arm = Goes locals | Breaks locals | Fails | Calls "(u64 session, locals) op"

text \<open>No value is a panic of the test. After an empty poll the loop ends when the channel is closed.\<close>

fun event_loop :: "u64 crates \<Rightarrow> (event \<Rightarrow> locals \<Rightarrow> arm) \<Rightarrow> nat \<Rightarrow> locals \<Rightarrow> u64 session \<times> fake_server \<Rightarrow>
     (locals \<times> u64 session \<times> fake_server) option" where
  "event_loop E arms 0 v st = Some (v, st)"
| "event_loop E arms (Suc k) v (c, s) =
     (case poll_event c of
        (None, c1) \<Rightarrow> Option.bind (pump E 1000 (c1, s)) (\<lambda>st.
          if loc_closed v then Some (v, st) else event_loop E arms k v st)
      | (Some ev, c1) \<Rightarrow>
          (case arms ev v of
             Goes v' \<Rightarrow> event_loop E arms k v' (c1, s)
           | Breaks v' \<Rightarrow> Some (v', c1, s)
           | Fails \<Rightarrow> None
           | Calls m \<Rightarrow> (case m c1 of
               (Ok v', c2) \<Rightarrow> Option.bind (pump E 1000 (c2, s)) (event_loop E arms k v')
             | _ \<Rightarrow> None)))"

declare event_loop.simps(2) [simp del]

definition session_test :: "u64 crates \<Rightarrow> (event \<Rightarrow> locals \<Rightarrow> arm) \<Rightarrow> u64 session \<times> fake_server \<Rightarrow>
     (locals \<Rightarrow> fake_server \<Rightarrow> bool list) \<Rightarrow> unit result" where
  "session_test E arms st checks =
     (case Option.bind (bootstrap E st) (\<lambda>st. Option.bind (pump E 1000 st) (event_loop E arms 1000 locals_new)) of
        Some (v, c, s) \<Rightarrow> run_test () (map asserts (checks v s))
      | None \<Rightarrow> Panic)"

definition calls :: "locals \<Rightarrow> (u64 session, unit) op \<Rightarrow> arm" where
  "calls v m = Calls (and_then m (\<lambda>_. ret v))"

text \<open>\<open>exec_channel = Some(session.open_exec(command))\<close>.\<close>

definition opens_exec :: "u64 crates \<Rightarrow> str \<Rightarrow> locals \<Rightarrow> arm" where
  "opens_exec E command v =
     Calls (and_then (on_core (open_exec E command)) (\<lambda>cid. ret (v\<lparr>exec_channel := Some cid\<rparr>)))"

text \<open>An arm behind an assertion.\<close>

definition asserting :: "bool \<Rightarrow> arm \<Rightarrow> arm" where
  "asserting b a = (if b then a else Fails)"

section \<open>The tests\<close>

definition full_handshake_arms :: "u64 crates \<Rightarrow> event \<Rightarrow> locals \<Rightarrow> arm" where
  "full_handshake_arms E ev v =
     (case ev of
        HostKeyVerify algorithm fingerprint _ \<Rightarrow>
          asserting (algorithm = lit ''ssh-ed25519'' \<and> starts_with fingerprint (lit ''SHA256:''))
            (calls v (provide_host_key_decision E True))
      | ReadyForAuth \<Rightarrow> calls v (on_core (authenticate_password E (lit ''alice'') (lit ''hunter2'')))
      | AuthFailure _ \<Rightarrow> Fails
      | AuthSuccess \<Rightarrow> opens_exec E (lit ''echo hello'') v
      | ChannelOpened cid \<Rightarrow>
          asserting (Some cid = exec_channel v) (Goes (v\<lparr>saw_channel_opened := True\<rparr>))
      | ChannelData cid stream bytes \<Rightarrow>
          asserting (Some cid = exec_channel v \<and> stream = Stdout)
            (Goes (v\<lparr>exec_output := exec_output v @ bytes\<rparr>))
      | ChannelExitStatus cid code signal \<Rightarrow>
          asserting (Some cid = exec_channel v \<and> signal = None) (Goes (v\<lparr>exit_code := code\<rparr>))
      | ChannelEof cid \<Rightarrow> asserting (Some cid = exec_channel v) (Goes (v\<lparr>saw_eof := True\<rparr>))
      | ChannelClosed cid \<Rightarrow> asserting (Some cid = exec_channel v) (Breaks (v\<lparr>loc_closed := True\<rparr>))
      | _ \<Rightarrow> Fails)"

definition full_handshake_password_auth_and_exec :: "u64 crates \<Rightarrow> (u64 \<Rightarrow> bytes) \<Rightarrow> unit result" where
  "full_handshake_password_auth_and_exec E keygen =
     session_test E (full_handshake_arms E)
       (session_new 1, set_exec_output (lit ''hello from fake server'' @ [10])
          (fake_server_new keygen 2 (lit ''alice'') (lit ''hunter2'')))
       (\<lambda>v s. [saw_channel_opened v, exec_output v = lit ''hello from fake server'' @ [10],
          exit_code v = Some 0, saw_eof v, loc_closed v, fs_last_exec_command s = Some (lit ''echo hello'')])"

definition global_request_arms :: "u64 crates \<Rightarrow> event \<Rightarrow> locals \<Rightarrow> arm" where
  "global_request_arms E ev v =
     (case ev of
        HostKeyVerify _ _ _ \<Rightarrow> calls v (provide_host_key_decision E True)
      | ReadyForAuth \<Rightarrow> calls v (on_core (authenticate_password E (lit ''alice'') (lit ''hunter2'')))
      | AuthSuccess \<Rightarrow> opens_exec E (lit ''echo hello'') v
      | ChannelOpened _ \<Rightarrow> Goes v
      | ChannelData _ _ _ \<Rightarrow> Goes v
      | ChannelEof _ \<Rightarrow> Goes v
      | ChannelExitStatus cid code _ \<Rightarrow> asserting (Some cid = exec_channel v) (Goes (v\<lparr>exit_code := code\<rparr>))
      | ChannelClosed cid \<Rightarrow> asserting (Some cid = exec_channel v) (Breaks (v\<lparr>loc_closed := True\<rparr>))
      | _ \<Rightarrow> Fails)"

definition unsolicited_global_request_after_auth_does_not_break_the_session ::
    "u64 crates \<Rightarrow> (u64 \<Rightarrow> bytes) \<Rightarrow> unit result" where
  "unsolicited_global_request_after_auth_does_not_break_the_session E keygen =
     session_test E (global_request_arms E)
       (session_new 3, send_global_request_after_auth True (set_exec_output (lit ''hello from fake server'' @ [10])
          (fake_server_new keygen 4 (lit ''alice'') (lit ''hunter2''))))
       (\<lambda>v s. [exit_code v = Some 0, loc_closed v])"

definition wrong_password_arms :: "u64 crates \<Rightarrow> event \<Rightarrow> locals \<Rightarrow> arm" where
  "wrong_password_arms E ev v =
     (case ev of
        HostKeyVerify _ _ _ \<Rightarrow> calls v (provide_host_key_decision E True)
      | ReadyForAuth \<Rightarrow> calls v (on_core (authenticate_password E (lit ''alice'') (lit ''wrong-password'')))
      | AuthFailure remaining_methods \<Rightarrow>
          asserting (lit ''password'' \<in> set remaining_methods) (Breaks (v\<lparr>saw_failure := True\<rparr>))
      | AuthSuccess \<Rightarrow> Fails
      | Unrecoverable _ \<Rightarrow> Fails
      | _ \<Rightarrow> Goes v)"

definition wrong_password_is_reported_as_auth_failure_not_a_fatal_error ::
    "u64 crates \<Rightarrow> (u64 \<Rightarrow> bytes) \<Rightarrow> unit result" where
  "wrong_password_is_reported_as_auth_failure_not_a_fatal_error E keygen =
     session_test E (wrong_password_arms E)
       (session_new 10, fake_server_new keygen 20 (lit ''alice'') (lit ''hunter2''))
       (\<lambda>v s. [saw_failure v])"

definition publickey_arms :: "u64 crates \<Rightarrow> bytes \<Rightarrow> event \<Rightarrow> locals \<Rightarrow> arm" where
  "publickey_arms E client_key ev v =
     (case ev of
        HostKeyVerify _ _ _ \<Rightarrow> calls v (provide_host_key_decision E True)
      | ReadyForAuth \<Rightarrow> calls v (on_core (authenticate_publickey E (lit ''bob'') client_key))
      | AuthFailure _ \<Rightarrow> Fails
      | AuthSuccess \<Rightarrow> opens_exec E (lit ''whoami'') (v\<lparr>authenticated := True\<rparr>)
      | ChannelExitStatus cid code _ \<Rightarrow> asserting (Some cid = exec_channel v) (Goes (v\<lparr>exit_code := code\<rparr>))
      | ChannelClosed cid \<Rightarrow> asserting (Some cid = exec_channel v) (Breaks (v\<lparr>loc_closed := True\<rparr>))
      | Unrecoverable _ \<Rightarrow> Fails
      | _ \<Rightarrow> Goes v)"

definition publickey_auth_two_phase_flow_then_exec :: "u64 crates \<Rightarrow> (u64 \<Rightarrow> bytes) \<Rightarrow> unit result" where
  "publickey_auth_two_phase_flow_then_exec E keygen =
     session_test E (publickey_arms E (keygen 999))
       (session_new 3, fake_server_new keygen 4 (lit ''bob'') (lit ''unused-for-publickey''))
       (\<lambda>v s. [authenticated v, exit_code v = Some 0, loc_closed v,
          fs_last_exec_command s = Some (lit ''whoami'')])"

text \<open>The test that rejects the key is \<open>reject_session\<close>, with its assertions.\<close>

definition rejecting_the_host_key_disconnects_cleanly :: "u64 crates \<Rightarrow> (u64 \<Rightarrow> bytes) \<Rightarrow> unit result" where
  "rejecting_the_host_key_disconnects_cleanly E keygen =
     (case reject_session E (lit ''garbage'') (session_new 100,
         fake_server_new keygen 200 (lit ''alice'') (lit ''hunter2'')) of
        Some (seen, after, c) \<Rightarrow> run_test ()
          [asserts (list_all (\<lambda>ev. case ev of Unrecoverable e \<Rightarrow> e = HostKeyRejected | _ \<Rightarrow> True) seen),
           asserts (list_ex (\<lambda>ev. case ev of Unrecoverable _ \<Rightarrow> True | _ \<Rightarrow> False) seen),
           asserts (after = None)]
      | None \<Rightarrow> Panic)"

section \<open>They pass\<close>

lemma calls_value:
  assumes "poll_event c = (Some ev, c1)" and "arms ev v = Calls m" and "m c1 = (Ok v', c2)"
    and "pump E 1000 (c2, s) = Some st"
  shows "event_loop E arms (Suc k) v (c, s) = event_loop E arms k v' st"
  using assms by (simp add: event_loop.simps(2))

lemma calls_runs:
  assumes "poll_event c = (Some ev, c1)" and "arms ev v = calls v m" and "m c1 = (Ok (), c2)"
    and "pump E 1000 (c2, s) = Some st"
  shows "event_loop E arms (Suc k) v (c, s) = event_loop E arms k v st"
  using assms by (simp add: event_loop.simps(2) calls_def and_then_def)

text \<open>Up to the verdict on the login.\<close>

lemma test_logs_in:
  assumes E: "bench_ok E" and s: "new_bench s" and key: "signs_ok E (fs_host_key s)"
    and m: "logs_in E login ok s"
    and verify: "\<And>k. pubkey_to_bytes E (privkey_public E (fs_host_key s)) = Inr (hk_blob k) \<Longrightarrow>
      hostkey_parse E (hk_blob k) = Ok k \<Longrightarrow>
      arms (HostKeyVerify (algorithm_name E k) (fingerprint_sha256 E k) (hk_blob k)) locals_new =
        calls locals_new (provide_host_key_decision E True)"
    and ready: "arms ReadyForAuth locals_new = calls locals_new (on_core login)"
  obtains c s' where "\<And>checks. session_test E arms (session_new seed, s) checks =
      (case event_loop E arms (Suc 997) locals_new (c, s') of
         Some (v, c, s) \<Rightarrow> run_test () (map asserts (checks v s)) | None \<Rightarrow> Panic)"
    and "linked c s'" and "outgoing (core c) = []" and "same_account s (s'\<lparr>fs_session_id := fs_session_id s\<rparr>)"
    and "channels (core c) = table_new"
    and "if ok then phase (core c) = Connected \<and> events (core c) = [AuthSuccess]
      else events (core c) = [AuthFailure [lit ''password'', lit ''publickey'']]"
proof -
  obtain c1 s1 c2 s2 k d3 c3 s3 d4 c4 s4 where hs: "bootstrap E (session_new seed, s) = Some (c1, s1)"
      "pump E 1000 (c1, s1) = Some (c2, s2)"
    and k: "pubkey_to_bytes E (privkey_public E (fs_host_key s)) = Inr (hk_blob k)" "hostkey_parse E (hk_blob k) = Ok k"
    and e: "events (core c2) = [HostKeyVerify (algorithm_name E k) (fingerprint_sha256 E k) (hk_blob k)]"
      "provide_host_key_decision E True (clear c2) = (Ok (), d3)" "pump E 1000 (d3, s2) = Some (c3, s3)"
      "events (core c3) = [ReadyForAuth]" "login (core (clear c3)) = (Ok (), d4)"
      "pump E 1000 ((clear c3)\<lparr>core := d4\<rparr>, s3) = Some (c4, s4)"
    and c4: "linked c4 s4" "outgoing (core c4) = []" "channels (core c4) = table_new"
      "same_account s (s4\<lparr>fs_session_id := fs_session_id s\<rparr>)" "phase (core c4) = (if ok then Connected else UserAuth)"
      "events (core c4) = [if ok then AuthSuccess else AuthFailure [lit ''password'', lit ''publickey'']]"
    by (rule login_run [OF E s key m, of seed])
  have n: "(1000 :: nat) = Suc (Suc (Suc 997))" by simp
  have "event_loop E arms (Suc (Suc (Suc 997))) locals_new (c2, s2) =
      event_loop E arms (Suc (Suc 997)) locals_new (c3, s3)"
    by (rule calls_runs [where arms = arms, OF _ verify [OF k] e(2,3)]) (simp add: poll_one [OF e(1)] clear_def)
  also have "\<dots> = event_loop E arms (Suc 997) locals_new (c4, s4)"
  proof (rule calls_runs [where arms = arms, OF _ ready _ e(6)])
    show "poll_event c3 = (Some ReadyForAuth, clear c3)" by (simp add: poll_one [OF e(4)] clear_def)
    show "on_core login (clear c3) = (Ok (), (clear c3)\<lparr>core := d4\<rparr>)"
      unfolding on_core_def e(5) by simp
  qed
  finally have "session_test E arms (session_new seed, s) checks =
      (case event_loop E arms (Suc 997) locals_new (c4, s4) of
         Some (v, c, s) \<Rightarrow> run_test () (map asserts (checks v s)) | None \<Rightarrow> Panic)" for checks
    unfolding n by (simp add: session_test_def hs)
  from that [OF this c4(1,2,4,3)] c4(5,6) show thesis by (cases ok) simp_all
qed

text \<open>Arms that only assign, on a queue of events, until one breaks.\<close>

primrec assigns :: "(event \<Rightarrow> locals \<Rightarrow> arm) \<Rightarrow> event list \<Rightarrow> locals \<Rightarrow> locals option" where
  "assigns arms [] v = None"
| "assigns arms (ev # evs) v =
     (case arms ev v of Goes v' \<Rightarrow> assigns arms evs v' | Breaks v' \<Rightarrow> Some v' | _ \<Rightarrow> None)"

lemma queue_assigned:
  "events (core c) = evs \<Longrightarrow> assigns arms evs v = Some v' \<Longrightarrow> length evs \<le> k \<Longrightarrow>
     \<exists>c'. event_loop E arms k v (c, s) = Some (v', c', s)"
proof (induction evs arbitrary: c v k)
  case (Cons ev evs)
  then obtain n where k: "k = Suc n" "length evs \<le> n" by (cases k) auto
  let ?c = "c\<lparr>core := (core c)\<lparr>events := evs\<rparr>\<rparr>"
  show ?case
    using Cons.prems Cons.IH [of ?c _ n] k
    by (auto simp: event_loop.simps(2) poll_one split: arm.splits)
qed simp

text \<open>A command from the login to the closed channel, on a channel with number 0.\<close>

lemma test_runs:
  assumes E: "bench_ok E" and l: "linked c s" "outgoing (core c) = []" "phase (core c) = Connected"
    and t: "channels (core c) = table_new" and e: "events (core c) = [AuthSuccess]"
    and len: "length command \<le> 100000" "utf8_valid command" "length (fs_default_exec_output s) \<le> 100000"
    and arms: "arms AuthSuccess v = opens_exec E command start"
      "assigns arms [ChannelOpened 0, ChannelData 0 Stdout (fs_default_exec_output s),
        ChannelExitStatus 0 (Some 0) None, ChannelEof 0, ChannelClosed 0] (start\<lparr>exec_channel := Some 0\<rparr>) = Some v'"
  obtains c' s' where "event_loop E arms (Suc 997) v (c, s) = Some (v', c', s')"
    and "fs_last_exec_command s' = Some command"
proof -
  have "linked (clear c) s" "outgoing (core (clear c)) = []" "phase (core (clear c)) = Connected"
    "ct_next_id (channels (core (clear c))) = 0"
    using l t by (simp_all add: linked_def clear_def table_new_def)
  from run_command [OF E this len, of "Suc 996"]
  obtain c1 c2 s2 where r: "open_exec E command (core (clear c)) = (Ok 0, c1)"
    "pump E 1000 ((clear c)\<lparr>core := c1\<rparr>, s) = Some (c2, s2)" "fs_last_exec_command s2 = Some command"
    "events (core c2) = [ChannelOpened 0, ChannelData 0 Stdout (fs_default_exec_output s),
        ChannelExitStatus 0 (Some 0) None, ChannelEof 0, ChannelClosed 0]"
    unfolding thousand(1) by (auto simp: clear_def)
  obtain c' where "event_loop E arms 997 (start\<lparr>exec_channel := Some 0\<rparr>) (c2, s2) = Some (v', c', s2)"
    using queue_assigned [OF r(4) arms(2), of 997 E s2] by auto
  moreover have "event_loop E arms (Suc 997) v (c, s) = event_loop E arms 997 (start\<lparr>exec_channel := Some 0\<rparr>) (c2, s2)"
  proof (rule calls_value [where arms = arms, OF _ arms(1) [unfolded opens_exec_def] _ r(2)])
    show "poll_event c = (Some AuthSuccess, clear c)" by (simp add: poll_one [OF e] clear_def)
    show "and_then (on_core (open_exec E command)) (\<lambda>cid. ret (start\<lparr>exec_channel := Some cid\<rparr>)) (clear c) =
        (Ok (start\<lparr>exec_channel := Some 0\<rparr>), (clear c)\<lparr>core := c1\<rparr>)"
      unfolding on_core_def and_then_def r(1) by simp
  qed
  ultimately show thesis using that r(3) by simp
qed

text \<open>What the tests need of the keys the two sides draw: Ed25519 keys that sign.\<close>

definition draws_keys :: "u64 crates \<Rightarrow> (u64 \<Rightarrow> bytes) \<Rightarrow> bool" where
  "draws_keys E keygen \<longleftrightarrow>
     (\<forall>r. signs_ok E (keygen r) \<and> key_encodes E (keygen r) (lit ''ssh-ed25519'')) \<and> login_key E (keygen 999)"

lemma drawn_host_key:
  assumes "draws_keys E keygen"
  shows "signs_ok E (fs_host_key (fake_server_new keygen seed user password))"
    and "pubkey_to_bytes E (privkey_public E (fs_host_key (fake_server_new keygen seed user password))) =
        Inr (hk_blob k) \<Longrightarrow> hostkey_parse E (hk_blob k) = Ok k \<Longrightarrow> algorithm_name E k = lit ''ssh-ed25519''"
  using assms
  by (auto simp: draws_keys_def fake_server_new_def key_encodes_def hostkey_parse_def algorithm_name_def)
    (metis host_key.select_convs(1) old.sum.inject(2))

lemma bench_settings [simp]:
  "new_bench (fake_server_new keygen seed user password)"
  "new_bench (set_exec_output printed s) = new_bench s"
  "new_bench (send_global_request_after_auth g s) = new_bench s"
  "fs_default_exec_output (send_global_request_after_auth g s) = fs_default_exec_output s"
  "fs_default_exec_output (fake_server_new keygen seed user password) = lit ''hello from fake server'' @ [10]"
  "fs_username (set_exec_output printed s) = fs_username s"
  "fs_username (send_global_request_after_auth g s) = fs_username s"
  "fs_username (fake_server_new keygen seed user password) = user"
  "fs_password (set_exec_output printed s) = fs_password s"
  "fs_password (send_global_request_after_auth g s) = fs_password s"
  "fs_password (fake_server_new keygen seed user password) = password"
  by (simp_all add: new_bench_def server_line_def set_exec_output_def send_global_request_after_auth_def
      fake_server_new_def)

lemma account_default: "same_account s s' \<Longrightarrow> fs_default_exec_output s' = fs_default_exec_output s"
  by (simp add: same_account_def)

lemma test_names: "utf8_valid (lit ''alice'')" "utf8_valid (lit ''hunter2'')" "utf8_valid (lit ''wrong-password'')"
  "utf8_valid (lit ''bob'')" "utf8_valid (lit ''echo hello'')" "utf8_valid (lit ''whoami'')"
  "lit ''wrong-password'' \<noteq> lit ''hunter2''"
  by (simp_all add: utf8_valid_lit_ascii)

lemma locals_new_simps [simp]: "exec_output locals_new = []"
  by (simp add: locals_new_def)

text \<open>The events of a command, in the order the client reports them.\<close>

abbreviation command_events :: "bytes \<Rightarrow> event list" where
  "command_events printed \<equiv> [ChannelOpened 0, ChannelData 0 Stdout printed,
     ChannelExitStatus 0 (Some 0) None, ChannelEof 0, ChannelClosed 0]"

lemma test_passes:
  assumes E: "bench_ok E" and s: "new_bench s" and key: "signs_ok E (fs_host_key s)"
    and m: "logs_in E login True s"
    and verify: "\<And>k. pubkey_to_bytes E (privkey_public E (fs_host_key s)) = Inr (hk_blob k) \<Longrightarrow>
      hostkey_parse E (hk_blob k) = Ok k \<Longrightarrow>
      arms (HostKeyVerify (algorithm_name E k) (fingerprint_sha256 E k) (hk_blob k)) locals_new =
        calls locals_new (provide_host_key_decision E True)"
    and ready: "arms ReadyForAuth locals_new = calls locals_new (on_core login)"
    and success: "arms AuthSuccess locals_new = opens_exec E command start"
    and command: "length command \<le> 100000" "utf8_valid command" "length (fs_default_exec_output s) \<le> 100000"
    and finish: "assigns arms (command_events (fs_default_exec_output s)) (start\<lparr>exec_channel := Some 0\<rparr>) = Some v"
    and checks: "\<And>s'. fs_last_exec_command s' = Some command \<Longrightarrow> run_test () (map asserts (checks v s')) = Ok ()"
  shows "session_test E arms (session_new seed, s) checks = Ok ()"
proof -
  obtain c s1 where t: "\<And>checks. session_test E arms (session_new seed, s) checks =
      (case event_loop E arms (Suc 997) locals_new (c, s1) of
         Some (v, c, s) \<Rightarrow> run_test () (map asserts (checks v s)) | None \<Rightarrow> Panic)"
    and l: "linked c s1" "outgoing (core c) = []" "same_account s (s1\<lparr>fs_session_id := fs_session_id s\<rparr>)"
      "channels (core c) = table_new" "phase (core c) = Connected" "events (core c) = [AuthSuccess]"
    by (rule test_logs_in [OF E s key m, where arms = arms and seed = seed]) (use verify ready in auto)
  have out: "fs_default_exec_output s1 = fs_default_exec_output s" using account_default [OF l(3)] by simp
  obtain c' s' where "event_loop E arms (Suc 997) locals_new (c, s1) = Some (v, c', s')"
    and "fs_last_exec_command s' = Some command"
    by (rule test_runs [where arms = arms, OF E l(1,2,5,4,6) command(1,2) _ success])
      (use command(3) finish in \<open>simp_all only: out\<close>)
  then show ?thesis by (simp only: t option.case prod.case checks)
qed

lemma full_handshake_password_auth_and_exec_ok:
  assumes E: "bench_ok E" and k: "draws_keys E keygen"
  shows "full_handshake_password_auth_and_exec E keygen = Ok ()"
  unfolding full_handshake_password_auth_and_exec_def
proof (rule test_passes [OF E, where start = locals_new and command = "lit ''echo hello''"
      and login = "authenticate_password E (lit ''alice'') (lit ''hunter2'')"
      and v = "locals_new\<lparr>exec_channel := Some 0, saw_channel_opened := True,
        exec_output := lit ''hello from fake server'' @ [10], exit_code := Some 0, saw_eof := True,
        loc_closed := True\<rparr>"], goal_cases)
  case 3
  then show ?case
    using password_logs_in [OF E, of "lit ''alice''" "lit ''hunter2''"
        "set_exec_output (lit ''hello from fake server'' @ [10]) (fake_server_new keygen 2 (lit ''alice'') (lit ''hunter2''))"]
      test_names by simp
next
  case (4 k')
  then show ?case
    using drawn_host_key(2) [OF k] by (simp add: full_handshake_arms_def asserting_def
        fingerprint_sha256_def starts_with_def lit_def)
qed (use drawn_host_key(1) [OF k] in \<open>simp_all add: test_names full_handshake_arms_def asserting_def
      run_test_def asserts_def and_then_def\<close>)

lemma unsolicited_global_request_after_auth_does_not_break_the_session_ok:
  assumes E: "bench_ok E" and k: "draws_keys E keygen"
  shows "unsolicited_global_request_after_auth_does_not_break_the_session E keygen = Ok ()"
  unfolding unsolicited_global_request_after_auth_does_not_break_the_session_def
proof (rule test_passes [OF E, where start = locals_new and command = "lit ''echo hello''"
      and login = "authenticate_password E (lit ''alice'') (lit ''hunter2'')"
      and v = "locals_new\<lparr>exec_channel := Some 0, exit_code := Some 0, loc_closed := True\<rparr>"], goal_cases)
  case 3
  then show ?case
    using password_logs_in [OF E, of "lit ''alice''" "lit ''hunter2''" "send_global_request_after_auth True
        (set_exec_output (lit ''hello from fake server'' @ [10]) (fake_server_new keygen 4 (lit ''alice'') (lit ''hunter2'')))"]
      test_names by simp
qed (use drawn_host_key(1) [OF k] in \<open>simp_all add: test_names global_request_arms_def asserting_def
      run_test_def asserts_def and_then_def\<close>)

lemma publickey_auth_two_phase_flow_then_exec_ok:
  assumes E: "bench_ok E" and k: "draws_keys E keygen"
  shows "publickey_auth_two_phase_flow_then_exec E keygen = Ok ()"
  unfolding publickey_auth_two_phase_flow_then_exec_def
proof (rule test_passes [OF E, where start = "locals_new\<lparr>authenticated := True\<rparr>" and command = "lit ''whoami''"
      and login = "authenticate_publickey E (lit ''bob'') (keygen 999)"
      and v = "locals_new\<lparr>exec_channel := Some 0, exit_code := Some 0, loc_closed := True, authenticated := True\<rparr>"],
      goal_cases)
  case 3
  have "login_key E (keygen 999)" using k by (simp add: draws_keys_def)
  then show ?case
    using key_logs_in [OF E, of "lit ''bob''" "keygen 999"
        "fake_server_new keygen 4 (lit ''bob'') (lit ''unused-for-publickey'')"] test_names by simp
qed (use drawn_host_key(1) [OF k] in \<open>simp_all add: test_names publickey_arms_def asserting_def
      run_test_def asserts_def and_then_def\<close>)

lemma wrong_password_is_reported_as_auth_failure_not_a_fatal_error_ok:
  assumes E: "bench_ok E" and k: "draws_keys E keygen"
  shows "wrong_password_is_reported_as_auth_failure_not_a_fatal_error E keygen = Ok ()"
proof -
  let ?s = "fake_server_new keygen 20 (lit ''alice'') (lit ''hunter2'')" and ?arms = "wrong_password_arms E"
  have m: "logs_in E (authenticate_password E (lit ''alice'') (lit ''wrong-password'')) False ?s"
    using password_logs_in [OF E, of "lit ''alice''" "lit ''wrong-password''" ?s] test_names by simp
  obtain c s where t: "\<And>checks. session_test E ?arms (session_new 10, ?s) checks =
      (case event_loop E ?arms (Suc 997) locals_new (c, s) of
         Some (v, c, s) \<Rightarrow> run_test () (map asserts (checks v s)) | None \<Rightarrow> Panic)"
    and e: "events (core c) = [AuthFailure [lit ''password'', lit ''publickey'']]"
    by (rule test_logs_in [OF E _ drawn_host_key(1) [OF k] m, where arms = ?arms and seed = 10])
      (simp_all add: wrong_password_arms_def)
  obtain c' where "event_loop E ?arms (Suc 997) locals_new (c, s) = Some (locals_new\<lparr>saw_failure := True\<rparr>, c', s)"
    using queue_assigned [OF e, of ?arms locals_new "locals_new\<lparr>saw_failure := True\<rparr>" "Suc 997" E s]
    by (auto simp: wrong_password_arms_def asserting_def)
  then show ?thesis
    unfolding wrong_password_is_reported_as_auth_failure_not_a_fatal_error_def t
    by (simp add: run_test_def asserts_def and_then_def)
qed

lemma rejecting_the_host_key_disconnects_cleanly_ok:
  assumes E: "bench_ok E" and k: "draws_keys E keygen"
  shows "rejecting_the_host_key_disconnects_cleanly E keygen = Ok ()"
proof -
  let ?s = "fake_server_new keygen 200 (lit ''alice'') (lit ''hunter2'')"
  have "new_bench ?s" by simp
  then show ?thesis
    by (rule rejection_run [OF E _ drawn_host_key(1) [OF k], where seed = 100 and garbage = "lit ''garbage''"])
      (simp add: rejecting_the_host_key_disconnects_cleanly_def run_test_def asserts_def and_then_def)
qed

end
