(* ===== verification/Binding_Tests.thy ===== *)
theory Binding_Tests
  imports Bindgen Unit_Tests
begin

text \<open>
  The unit tests of \<open>wasm-ssh-bindgen/src/lib.rs\<close>, with the two PEM files they include
  (\<open>wasm-ssh-bindgen/testdata/\<close>): an armour line, lines of base64 and a closing line.
\<close>

definition armoured :: "string \<Rightarrow> bytes list \<Rightarrow> str" where
  "armoured label ls =
     join_with 10 ([lit ''-----BEGIN '' @ lit label @ lit ''-----''] @ ls @
       [lit ''-----END '' @ lit label @ lit ''-----'', []])"

definition TEST_KEY_PKCS1 :: str where
  "TEST_KEY_PKCS1 = armoured ''RSA PRIVATE KEY''
     [lit ''MIIEpAIBAAKCAQEA9WT+s6o/N7RzzcVYqOfzXkLQ/jFAOF25oKIQZv1PuUm0RYZu'',
      lit ''lIyuVjKEfmgu1Q6Z8C8GGckeoWeG+RND5As1UzolIV4nagw6MHyqCn3vXjAiBSeG'',
      lit ''ueJDYHQ1NS5h/cpGbk8pAFMhK+omOy/obT7DNMFOSmaF9BFYF6Dg2tuvKU3swqyb'',
      lit ''FvLkW2uDhflrdRZcP+i+PGJlCvdxX9moIl+cYOGCzZvMciuTBUd9tUu4DGEx+a4y'',
      lit ''4hGOYnw3MCO0asDia/ij3C4qzESi53bM3kkmE/6cjEGYfAKi3iN67Sc4aOUMiFTz'',
      lit ''LW3aJSil/MzSoVntpdlQjwOoIMwgEBm6S3hhyQIDAQABAoIBAH1zhEKVZnwz5H/t'',
      lit ''w8WVzvUBc5Z/1zT5tUxJjdkY5wjyhRaGA0IuKXInoVR+LnL9Y/VGFPhZuS8KnhX3'',
      lit ''o12R3VEPCKxmVgABAD6JfOSgPR8JvFqmOloNMiS9Q/ZMIAx+vELodS2VUgABVEot'',
      lit ''08UFsQXnTP78Kr77nu11cX5xkLqr+3SehMRNYxnReFRj1EtoZIYm3um+9tdPU6PY'',
      lit ''eddrMKiSFwP3H8p3nJT9swI0HHean6sdiBHLp82Mc9VtfZNtV5GQapclYkl7EOvw'',
      lit ''LRUtoZF9DETTiKSOT2snnDOv3l7wMNx3q4k9+8zpWWH59XujRwQHGnBlzxeEgwVC'',
      lit ''4KEzSYECgYEA/XUuUZKFmW4SUKcVO9CblQSG2bdMxfh61SfJefcO/AofHl4gUA94'',
      lit ''tzx3LLyAJlIif4R6qgGwV3/U2AQMI60NFIn0NRx4ezYHh+H4A0QTQqCgGBpFNjCD'',
      lit ''HDVNylkw2F3BlVmXRSiUlxm0Cir5bFDaaeuEFURr1wGjryH8TeUTFjcCgYEA99sc'',
      lit ''C6KbcroWzGCCj54lz+xRt2dFS8TuOQv1i/BZnIUx5CULOlsvQmGszS7G7wpEYzF+'',
      lit ''c7tO7Nnw9Uktq6FBiPCgdUr1EExq3xA+x5r8AsEiJBhAvkpYQIkeAgj9U/MQwyC9'',
      lit ''ISzgEdC79PqCxvmCLxJ+E4BiB2xF0uc5QJoUR/8CgYEAsQqzSgOBEsVSQcgUCu4S'',
      lit ''XysETvu8wuRoWJAsKeerLd6cEghJpeLIvaWc0UDyetIQiuYtEKeRV+1Q7XsWR61P'',
      lit ''X7NlQ9wZRGdfJ0luhkl88qNkcLGY+ts0GfYZ2mgmuFv1Jq+n/IT2Ff28RwXxp/lq'',
      lit ''N2ZtorViZpMclO62YGrMxE0CgYEA8U1EVJ+Or3c0Uu1yrtfNAEyWkfPcpxOmyas2'',
      lit ''93KcC6IxHGhkMgAsVng5f9kWnApm4huBfLLS+AyGZodEC2AHKYb68LZ1N9TuBxUN'',
      lit ''yc69owDceD+UaK6AlPPpXxnZaC2wGAh7mRzTWQTauHpbb9PiRmm+jMXkqk1i/R1X'',
      lit ''w+k97YkCgYARO1HpogBxA1RIEfbVPhWAhKZW6TOgxJev8Li7u7qFHwXhmwtr/6WF'',
      lit ''KZ61Aaf2alh4McZRhvFzhj526UvWIpy4qiGGvtMpG/HUSoi0MVEWCqOW9qYAGLuh'',
      lit ''0XkMpQ75KAaclROGp9CWG9KUi55D3z5VLwXr8lynhDHTiz2EoOgavQ=='']"

definition TEST_KEY_PKCS8 :: str where
  "TEST_KEY_PKCS8 = armoured ''PRIVATE KEY''
     [lit ''MIIEvgIBADANBgkqhkiG9w0BAQEFAASCBKgwggSkAgEAAoIBAQD1ZP6zqj83tHPN'',
      lit ''xVio5/NeQtD+MUA4XbmgohBm/U+5SbRFhm6UjK5WMoR+aC7VDpnwLwYZyR6hZ4b5'',
      lit ''E0PkCzVTOiUhXidqDDowfKoKfe9eMCIFJ4a54kNgdDU1LmH9ykZuTykAUyEr6iY7'',
      lit ''L+htPsM0wU5KZoX0EVgXoODa268pTezCrJsW8uRba4OF+Wt1Flw/6L48YmUK93Ff'',
      lit ''2agiX5xg4YLNm8xyK5MFR321S7gMYTH5rjLiEY5ifDcwI7RqwOJr+KPcLirMRKLn'',
      lit ''dszeSSYT/pyMQZh8AqLeI3rtJzho5QyIVPMtbdolKKX8zNKhWe2l2VCPA6ggzCAQ'',
      lit ''GbpLeGHJAgMBAAECggEAfXOEQpVmfDPkf+3DxZXO9QFzln/XNPm1TEmN2RjnCPKF'',
      lit ''FoYDQi4pciehVH4ucv1j9UYU+Fm5LwqeFfejXZHdUQ8IrGZWAAEAPol85KA9Hwm8'',
      lit ''WqY6Wg0yJL1D9kwgDH68Quh1LZVSAAFUSi3TxQWxBedM/vwqvvue7XVxfnGQuqv7'',
      lit ''dJ6ExE1jGdF4VGPUS2hkhibe6b72109To9h512swqJIXA/cfyneclP2zAjQcd5qf'',
      lit ''qx2IEcunzYxz1W19k21XkZBqlyViSXsQ6/AtFS2hkX0MRNOIpI5PayecM6/eXvAw'',
      lit ''3HeriT37zOlZYfn1e6NHBAcacGXPF4SDBULgoTNJgQKBgQD9dS5RkoWZbhJQpxU7'',
      lit ''0JuVBIbZt0zF+HrVJ8l59w78Ch8eXiBQD3i3PHcsvIAmUiJ/hHqqAbBXf9TYBAwj'',
      lit ''rQ0UifQ1HHh7NgeH4fgDRBNCoKAYGkU2MIMcNU3KWTDYXcGVWZdFKJSXGbQKKvls'',
      lit ''UNpp64QVRGvXAaOvIfxN5RMWNwKBgQD32xwLoptyuhbMYIKPniXP7FG3Z0VLxO45'',
      lit ''C/WL8FmchTHkJQs6Wy9CYazNLsbvCkRjMX5zu07s2fD1SS2roUGI8KB1SvUQTGrf'',
      lit ''ED7HmvwCwSIkGEC+SlhAiR4CCP1T8xDDIL0hLOAR0Lv0+oLG+YIvEn4TgGIHbEXS'',
      lit ''5zlAmhRH/wKBgQCxCrNKA4ESxVJByBQK7hJfKwRO+7zC5GhYkCwp56st3pwSCEml'',
      lit ''4si9pZzRQPJ60hCK5i0Qp5FX7VDtexZHrU9fs2VD3BlEZ18nSW6GSXzyo2RwsZj6'',
      lit ''2zQZ9hnaaCa4W/Umr6f8hPYV/bxHBfGn+Wo3Zm2itWJmkxyU7rZgaszETQKBgQDx'',
      lit ''TURUn46vdzRS7XKu180ATJaR89ynE6bJqzb3cpwLojEcaGQyACxWeDl/2RacCmbi'',
      lit ''G4F8stL4DIZmh0QLYAcphvrwtnU31O4HFQ3Jzr2jANx4P5RoroCU8+lfGdloLbAY'',
      lit ''CHuZHNNZBNq4eltv0+JGab6MxeSqTWL9HVfD6T3tiQKBgBE7UemiAHEDVEgR9tU+'',
      lit ''FYCEplbpM6DEl6/wuLu7uoUfBeGbC2v/pYUpnrUBp/ZqWHgxxlGG8XOGPnbpS9Yi'',
      lit ''nLiqIYa+0ykb8dRKiLQxURYKo5b2pgAYu6HReQylDvkoBpyVE4an0JYb0pSLnkPf'',
      lit ''PlUvBevyXKeEMdOLPYSg6Bq9'']"

text \<open>\<open>expect\<close> on the key, then the two assertions.\<close>

definition key_is_plain_rsa :: "'r crates \<Rightarrow> key_crates \<Rightarrow> str + bytes \<Rightarrow> unit result" where
  "key_is_plain_rsa E K parsed =
     (case parsed of
        Inl _ \<Rightarrow> Panic
      | Inr key \<Rightarrow> run_test ()
          [asserts (\<not> is_encrypted K key),
           asserts (pubkey_algorithm E (privkey_public E key) = lit ''ssh-rsa'')])"

definition parses_legacy_pkcs1_rsa_key :: "'r crates \<Rightarrow> key_crates \<Rightarrow> unit result" where
  "parses_legacy_pkcs1_rsa_key E K = key_is_plain_rsa E K (parse_private_key K TEST_KEY_PKCS1)"

definition parses_legacy_pkcs8_rsa_key :: "'r crates \<Rightarrow> key_crates \<Rightarrow> unit result" where
  "parses_legacy_pkcs8_rsa_key E K = key_is_plain_rsa E K (parse_private_key K TEST_KEY_PKCS8)"

definition rejects_garbage_input_with_typed_error_not_panic :: "key_crates \<Rightarrow> unit result" where
  "rejects_garbage_input_with_typed_error_not_panic K =
     run_test () [asserts (\<exists>e. parse_private_key K (lit ''not a key at all'') = Inl e)]"

section \<open>Looking for a label\<close>

lemma contains_iff: "contains s p \<longleftrightarrow> (\<exists>xs ys. s = xs @ p @ ys)"
proof (induction s)
  case (Cons c s)
  have "(\<exists>xs ys. c # s = xs @ p @ ys) \<longleftrightarrow>
      (\<exists>ys. c # s = p @ ys) \<or> (\<exists>xs ys. s = xs @ p @ ys)"
    by (metis append_Cons append_Nil list.sel(3) neq_Nil_conv)
  with Cons show ?case by (simp add: starts_with_iff)
qed simp

lemma contains_middle [simp]: "contains (xs @ p @ ys) p"
  by (auto simp: contains_iff)

text \<open>A label has no line feed, so it is looked for line by line; a line of base64 has no blank.\<close>

lemma contains_line:
  assumes "10 \<notin> set p" and "p \<noteq> []"
  shows "contains (x @ 10 # y) p \<longleftrightarrow> contains x p \<or> contains y p"
proof
  assume "contains (x @ 10 # y) p"
  then obtain a b where ab: "x @ 10 # y = a @ p @ b" by (auto simp: contains_iff)
  then consider us where "x @ us = a" "10 # y = us @ p @ b" | us where "x = a @ us" "us @ 10 # y = p @ b"
    by (auto simp: append_eq_append_conv2)
  then show "contains x p \<or> contains y p"
  proof cases
    case 1
    then show ?thesis using assms by (auto simp: Cons_eq_append_conv contains_iff)
  next
    case 2
    then consider vs where "us = p @ vs" | vs where "us @ vs = p" "10 # y = vs @ b"
      by (auto simp: append_eq_append_conv2)
    then show ?thesis
    proof cases
      case 1
      with 2 show ?thesis by (auto simp: contains_iff)
    next
      case v: 2
      then have "vs = []" using assms(1) by (auto simp: Cons_eq_append_conv)
      with v 2 have "x = a @ p @ []" by simp
      then show ?thesis unfolding contains_iff by blast
    qed
  qed
next
  assume "contains x p \<or> contains y p"
  then show "contains (x @ 10 # y) p"
    unfolding contains_iff by (metis append_assoc append_Cons)
qed

lemma contains_join:
  assumes "10 \<notin> set p" and "p \<noteq> []"
  shows "contains (join_with 10 ls) p \<longleftrightarrow> (\<exists>l \<in> set ls. contains l p)"
proof (induction "10 :: byte" ls rule: join_with.induct)
  case 1
  then show ?case using assms(2) by simp
next
  case (3 x y ys)
  then show ?case by (simp add: contains_line [OF assms])
qed simp

lemma contains_set: "contains s p \<Longrightarrow> set p \<subseteq> set s"
  by (auto simp: contains_iff)

lemma armoured_contains:
  assumes "\<forall>l \<in> set ls. 32 \<notin> set l" and "10 \<notin> set p" and "p \<noteq> []" and "32 \<in> set p"
  shows "contains (armoured label ls) p \<longleftrightarrow>
    contains (lit ''-----BEGIN '' @ lit label @ lit ''-----'') p \<or>
    contains (lit ''-----END '' @ lit label @ lit ''-----'') p"
proof -
  have "\<not> contains l p" if "l \<in> set ls" for l
    using assms(1,4) that contains_set [of l p] by blast
  then show ?thesis
    using assms(3) by (auto simp: armoured_def contains_join [OF assms(2,3)])
qed

section \<open>The tests pass\<close>

text \<open>
  What they assume of the decoders: each reads its own armour (the one of ssh-key neither of the
  two), the key inside is the RSA key \<open>key\<close>, not encrypted, and ssh-key refuses the garbage.
\<close>

definition decoders_as_tested :: "'r crates \<Rightarrow> key_crates \<Rightarrow> bool" where
  "decoders_as_tested E K \<longleftrightarrow>
     (\<forall>pem \<in> {TEST_KEY_PKCS1, TEST_KEY_PKCS8, lit ''not a key at all''}.
        \<exists>e. from_openssh K pem = Inl e) \<and>
     (\<exists>r key. (from_pkcs1_pem K TEST_KEY_PKCS1 = Inr r \<and> from_pkcs8_pem K TEST_KEY_PKCS8 = Inr r) \<and>
        rsa_keypair K r = Inr key \<and> \<not> is_encrypted K key \<and>
        pubkey_algorithm E (privkey_public E key) = lit ''ssh-rsa'')"

lemma labels_found:
  "contains TEST_KEY_PKCS1 (lit ''BEGIN RSA PRIVATE KEY'')"
  "\<not> contains TEST_KEY_PKCS8 (lit ''BEGIN RSA PRIVATE KEY'')"
  "contains TEST_KEY_PKCS8 (lit ''BEGIN PRIVATE KEY'')"
proof -
  have b1: "contains (armoured ''RSA PRIVATE KEY'' ls) (lit ''BEGIN RSA PRIVATE KEY'')"
    and b8: "contains (armoured ''PRIVATE KEY'' ls) (lit ''BEGIN PRIVATE KEY'')"
    if "\<forall>l \<in> set ls. 32 \<notin> set l" for ls
    using that by (simp_all add: armoured_contains lit_def starts_with_def)
  have n8: "\<not> contains (armoured ''PRIVATE KEY'' ls) (lit ''BEGIN RSA PRIVATE KEY'')"
    if "\<forall>l \<in> set ls. 32 \<notin> set l" for ls
    using that by (simp add: armoured_contains lit_def starts_with_def)
  show "contains TEST_KEY_PKCS1 (lit ''BEGIN RSA PRIVATE KEY'')"
    unfolding TEST_KEY_PKCS1_def by (rule b1) (simp add: lit_def)
  show "\<not> contains TEST_KEY_PKCS8 (lit ''BEGIN RSA PRIVATE KEY'')"
    unfolding TEST_KEY_PKCS8_def by (rule n8) (simp add: lit_def)
  show "contains TEST_KEY_PKCS8 (lit ''BEGIN PRIVATE KEY'')"
    unfolding TEST_KEY_PKCS8_def by (rule b8) (simp add: lit_def)
qed

lemma binding_tests_ok:
  assumes "decoders_as_tested E K"
  shows "parses_legacy_pkcs1_rsa_key E K = Ok ()" "parses_legacy_pkcs8_rsa_key E K = Ok ()"
    "rejects_garbage_input_with_typed_error_not_panic K = Ok ()"
proof -
  obtain r key e1 e2 e3 where d: "from_pkcs1_pem K TEST_KEY_PKCS1 = Inr r"
    "from_pkcs8_pem K TEST_KEY_PKCS8 = Inr r" "rsa_keypair K r = Inr key" "\<not> is_encrypted K key"
    "pubkey_algorithm E (privkey_public E key) = lit ''ssh-rsa''"
    "from_openssh K TEST_KEY_PKCS1 = Inl e1" "from_openssh K TEST_KEY_PKCS8 = Inl e2"
    "from_openssh K (lit ''not a key at all'') = Inl e3"
    using assms unfolding decoders_as_tested_def by auto
  show "parses_legacy_pkcs1_rsa_key E K = Ok ()" "parses_legacy_pkcs8_rsa_key E K = Ok ()"
    using d labels_found
    by (simp_all add: parses_legacy_pkcs1_rsa_key_def parses_legacy_pkcs8_rsa_key_def
        key_is_plain_rsa_def parse_private_key_def and_convert_def run_test_def asserts_def and_then_def)
  have "\<not> contains (lit ''not a key at all'') (lit ''BEGIN RSA PRIVATE KEY'')"
    "\<not> contains (lit ''not a key at all'') (lit ''BEGIN PRIVATE KEY'')"
    by (simp_all add: lit_def starts_with_def)
  then show "rejects_garbage_input_with_typed_error_not_panic K = Ok ()"
    using d(8) by (simp add: rejects_garbage_input_with_typed_error_not_panic_def parse_private_key_def
        run_test_def asserts_def and_then_def)
qed

end
