(* ===== verification/Test_Properties.thy ===== *)
theory Test_Properties
  imports End_To_End Binding_Tests Sample_Crates
begin

text \<open>
  The repository's tests together: they pass whatever the crates compute, as long as they do what
  they document.
\<close>

unbundle bit_operations_syntax

section \<open>The tests\<close>

text \<open>Those that run none of the crates, and those that do; the keys are those the tests draw or read.\<close>

definition plain_tests :: "unit result list" where
  "plain_tests =
     [round_trips_mixed_fields, truncated_input_errors_instead_of_panicking,
      oversized_length_does_not_panic_via_overflow,
      parses_ident_line_with_no_banner, skips_banner_lines_before_ident,
      leaves_trailing_bytes_unconsumed_for_packet_layer, handles_ident_line_split_across_feeds,
      rejects_ssh_1_only_server, accepts_ssh_1_99_backcompat_marker, client_ident_line_is_well_formed,
      builds_and_would_be_parsed_service_flow, parses_failure_with_remaining_methods, recognizes_success,
      password_builds_expected_wire_shape, parses_pk_ok,
      exec_builds_expected_wire_shape, pty_request_has_expected_shape,
      shell_request_has_no_type_specific_data, window_change_never_wants_a_reply,
      data_messages_respect_remote_window_and_max_packet, window_adjust_only_emitted_past_threshold,
      open_message_has_expected_shape, open_then_confirm_transitions_to_open,
      open_failure_removes_the_channel_and_emits_event,
      data_message_emits_event_and_may_trigger_window_adjust, extended_data_is_reported_as_stderr,
      exit_status_request_is_translated_to_event, unknown_channel_id_is_an_error_not_a_panic,
      close_message_removes_channel, rng_core_10_adapter_fills_bytes,
      pad_payload_meets_min_padding_and_block_alignment, plaintext_round_trip,
      plaintext_wire_packet_is_block_aligned_including_length_field,
      negotiate_picks_clients_first_preference_present_on_server, negotiate_fails_with_no_overlap,
      negotiate_all_picks_our_preferred_algorithms_when_server_supports_everything,
      negotiate_all_falls_back_when_server_only_supports_secondary_choices, ecdh_parses_reply_message]"

definition crate_tests :: "byte crates \<Rightarrow> bytes \<Rightarrow> bytes \<Rightarrow> bytes \<Rightarrow> unit result list" where
  "crate_tests E key other_key rsa_key =
     [chacha20poly1305_round_trip E, aes256gcm_round_trip E, aes256gcm_tampered_ciphertext_is_rejected E,
      with_initial_seq_continues_the_sequence E,
      round_trips_through_wire_format E, empty_name_list_round_trips E,
      first_block_matches_single_hash E, extension_blocks_use_cumulative_concatenation E,
      truncates_to_requested_length E, mpint_encoding_adds_leading_zero_for_high_bit E,
      parses_blob_and_reports_algorithm E key, fingerprint_has_expected_shape E key,
      verifies_genuine_signature_and_rejects_tampered_message E key,
      rejects_signature_from_a_different_key E key other_key,
      ecdh_both_sides_derive_the_same_shared_secret E, init_message_has_expected_wire_shape E,
      ecdh_end_to_end_matches_a_hand_signed_reply E key,
      group14_prime_constant_is_exactly_2048_bits_and_odd E,
      dh_both_sides_derive_the_same_shared_secret E, rejects_degenerate_public_values E,
      dh_parses_reply_message E, dh_end_to_end_matches_a_hand_signed_reply E key,
      query_has_expected_wire_shape E key, signed_request_signature_verifies_against_public_key E key,
      rsa_signed_request_signature_verifies_against_public_key E rsa_key]"

definition session_tests :: "u64 crates \<Rightarrow> (u64 \<Rightarrow> bytes) \<Rightarrow> unit result list" where
  "session_tests B keygen =
     [full_handshake_password_auth_and_exec B keygen,
      unsolicited_global_request_after_auth_does_not_break_the_session B keygen,
      wrong_password_is_reported_as_auth_failure_not_a_fatal_error B keygen,
      publickey_auth_two_phase_flow_then_exec B keygen,
      rejecting_the_host_key_disconnects_cleanly B keygen]"

definition binding_tests :: "'r crates \<Rightarrow> key_crates \<Rightarrow> unit result list" where
  "binding_tests E K =
     [parses_legacy_pkcs1_rsa_key E K, parses_legacy_pkcs8_rsa_key E K,
      rejects_garbage_input_with_typed_error_not_panic K]"

section \<open>What the tests assume of the crates\<close>

definition symmetric_as_tested :: "byte crates \<Rightarrow> bool" where
  "symmetric_as_tested E \<longleftrightarrow>
     ciphers_ok E \<and> tag_checked (aesgcm_seal E) (aesgcm_open E) \<and> other_key_rejected E"

definition encodings_as_tested :: "byte crates \<Rightarrow> bool" where
  "encodings_as_tested E \<longleftrightarrow>
     encoding_ok E \<and> mpint_ok E \<and>
     (\<forall>d. length d = 32 \<longrightarrow> length (base64_unpadded E d) = 43 \<and> 61 \<notin> set (base64_unpadded E d))"

definition exchanges_as_tested :: "byte crates \<Rightarrow> bool" where
  "exchanges_as_tested E \<longleftrightarrow>
     (\<forall>s. length (x25519_public E s) = 32) \<and> x25519_agrees E 1 200 \<and> x25519_agrees E 11 222 \<and>
     biguint_ok E \<and> in_range E 3 \<and> in_range E 151 \<and> in_range E 11 \<and> in_range E 222"

definition keys_as_tested :: "byte crates \<Rightarrow> bytes \<Rightarrow> bytes \<Rightarrow> bytes \<Rightarrow> bool" where
  "keys_as_tested E key other_key rsa_key \<longleftrightarrow>
     key_encodes E key (lit ''ssh-ed25519'') \<and> privkey_algorithm E key = Ed25519 \<and>
     privkey_rsa E key = None \<and> key_signs E key \<and> key_signs E other_key \<and>
     (\<forall>s. privkey_try_sign E other_key (lit ''exchange-hash-fixture'') = Some s \<longrightarrow>
        \<not> verify_sig E (privkey_public E key) (lit ''exchange-hash-fixture'') s) \<and>
     message_rejected E key (lit ''exchange-hash-fixture'') (lit ''different-message'') \<and>
     (\<forall>h. length h = 32 \<longrightarrow> message_rejected E key h (tampered h)) \<and>
     key_encodes E rsa_key (lit ''ssh-rsa'') \<and> privkey_algorithm E rsa_key = Rsa \<and>
     rsa_key_signs E rsa_key"

section \<open>They pass\<close>

lemmas plain_tests_ok = round_trips_mixed_fields_ok truncated_input_errors_instead_of_panicking_ok
  oversized_length_does_not_panic_via_overflow_ok parses_ident_line_with_no_banner_ok
  skips_banner_lines_before_ident_ok leaves_trailing_bytes_unconsumed_for_packet_layer_ok
  handles_ident_line_split_across_feeds_ok rejects_ssh_1_only_server_ok
  accepts_ssh_1_99_backcompat_marker_ok client_ident_line_is_well_formed_ok
  builds_and_would_be_parsed_service_flow_ok parses_failure_with_remaining_methods_ok
  recognizes_success_ok password_builds_expected_wire_shape_ok parses_pk_ok_ok
  exec_builds_expected_wire_shape_ok pty_request_has_expected_shape_ok
  shell_request_has_no_type_specific_data_ok window_change_never_wants_a_reply_ok
  data_messages_respect_remote_window_and_max_packet_ok window_adjust_only_emitted_past_threshold_ok
  open_message_has_expected_shape_ok open_then_confirm_transitions_to_open_ok
  open_failure_removes_the_channel_and_emits_event_ok
  data_message_emits_event_and_may_trigger_window_adjust_ok extended_data_is_reported_as_stderr_ok
  exit_status_request_is_translated_to_event_ok unknown_channel_id_is_an_error_not_a_panic_ok
  close_message_removes_channel_ok rng_core_10_adapter_fills_bytes_ok
  pad_payload_meets_min_padding_and_block_alignment_ok plaintext_round_trip_ok
  plaintext_wire_packet_is_block_aligned_including_length_field_ok
  negotiate_picks_clients_first_preference_present_on_server_ok negotiate_fails_with_no_overlap_ok
  negotiate_all_picks_our_preferred_algorithms_when_server_supports_everything_ok
  negotiate_all_falls_back_when_server_only_supports_secondary_choices_ok ecdh_parses_reply_message_ok

lemma symmetric_tests_ok:
  assumes "symmetric_as_tested E"
  shows "chacha20poly1305_round_trip E = Ok ()" "aes256gcm_round_trip E = Ok ()"
    "aes256gcm_tampered_ciphertext_is_rejected E = Ok ()" "with_initial_seq_continues_the_sequence E = Ok ()"
  using assms chacha20poly1305_round_trip_ok aes256gcm_round_trip_ok
    aes256gcm_tampered_ciphertext_is_rejected_ok with_initial_seq_continues_the_sequence_ok
  unfolding symmetric_as_tested_def by blast+

lemma encoding_tests_ok:
  assumes "encodings_as_tested E"
  shows "round_trips_through_wire_format E = Ok ()" "empty_name_list_round_trips E = Ok ()"
    "first_block_matches_single_hash E = Ok ()" "extension_blocks_use_cumulative_concatenation E = Ok ()"
    "truncates_to_requested_length E = Ok ()" "mpint_encoding_adds_leading_zero_for_high_bit E = Ok ()"
    "dh_parses_reply_message E = Ok ()"
proof -
  have e: "encoding_ok E" "mpint_ok E" and m: "\<And>b. mpint_encode E b \<noteq> None"
    using assms by (simp_all add: encodings_as_tested_def mpint_ok_def)
  show "round_trips_through_wire_format E = Ok ()" "empty_name_list_round_trips E = Ok ()"
    using e(1) by (rule round_trips_through_wire_format_ok, rule empty_name_list_round_trips_ok)
  show "first_block_matches_single_hash E = Ok ()" "extension_blocks_use_cumulative_concatenation E = Ok ()"
    "truncates_to_requested_length E = Ok ()"
    by (rule first_block_matches_single_hash_ok extension_blocks_use_cumulative_concatenation_ok
        truncates_to_requested_length_ok, rule m)+
  show "mpint_encoding_adds_leading_zero_for_high_bit E = Ok ()"
    by (rule mpint_encoding_adds_leading_zero_for_high_bit_ok [OF e(2)])
  have "\<not> (128 :: byte) \<le> 1" by (simp add: word_le_nat_alt)
  then have "mpint_encode E [1, 2, 3] = Some (write_string [1, 2, 3])"
    using e(2) by (simp add: mpint_ok_def)
  then show "dh_parses_reply_message E = Ok ()" by (rule dh_parses_reply_message_ok)
qed

lemma exchange_tests_ok:
  assumes "exchanges_as_tested E"
  shows "ecdh_both_sides_derive_the_same_shared_secret E = Ok ()"
    "init_message_has_expected_wire_shape E = Ok ()"
    "group14_prime_constant_is_exactly_2048_bits_and_odd E = Ok ()" "dh_both_sides_derive_the_same_shared_secret E = Ok ()"
    "rejects_degenerate_public_values E = Ok ()"
  using assms ecdh_both_sides_derive_the_same_shared_secret_ok init_message_has_expected_wire_shape_ok
    group14_prime_constant_is_exactly_2048_bits_and_odd_ok
    dh_both_sides_derive_the_same_shared_secret_ok rejects_degenerate_public_values_ok
  unfolding exchanges_as_tested_def by blast+

lemma key_tests_ok:
  assumes "keys_as_tested E key other_key rsa_key"
  shows "parses_blob_and_reports_algorithm E key = Ok ()"
    "verifies_genuine_signature_and_rejects_tampered_message E key = Ok ()"
    "rejects_signature_from_a_different_key E key other_key = Ok ()"
    "query_has_expected_wire_shape E key = Ok ()"
    "signed_request_signature_verifies_against_public_key E key = Ok ()"
    "rsa_signed_request_signature_verifies_against_public_key E rsa_key = Ok ()"
proof -
  have k: "key_encodes E key (lit ''ssh-ed25519'')" "privkey_algorithm E key = Ed25519"
      "privkey_rsa E key = None" "key_signs E key" "key_signs E other_key"
    and other: "\<And>s. privkey_try_sign E other_key (lit ''exchange-hash-fixture'') = Some s \<Longrightarrow>
      \<not> verify_sig E (privkey_public E key) (lit ''exchange-hash-fixture'') s"
    and rej: "message_rejected E key (lit ''exchange-hash-fixture'') (lit ''different-message'')"
    and rsa: "key_encodes E rsa_key (lit ''ssh-rsa'')" "privkey_algorithm E rsa_key = Rsa"
      "rsa_key_signs E rsa_key"
    using assms unfolding keys_as_tested_def by blast+
  show "parses_blob_and_reports_algorithm E key = Ok ()"
    by (rule parses_blob_and_reports_algorithm_ok [OF k(1)])
  show "verifies_genuine_signature_and_rejects_tampered_message E key = Ok ()"
    by (rule verifies_genuine_signature_and_rejects_tampered_message_ok [OF k(1,4) rej])
  show "rejects_signature_from_a_different_key E key other_key = Ok ()"
    by (rule rejects_signature_from_a_different_key_ok [OF k(1,5) other])
  show "query_has_expected_wire_shape E key = Ok ()"
    by (rule query_has_expected_wire_shape_ok [OF k(1,2)])
  show "signed_request_signature_verifies_against_public_key E key = Ok ()"
    by (rule signed_request_signature_verifies_against_public_key_ok [OF k(1-4)])
  show "rsa_signed_request_signature_verifies_against_public_key E rsa_key = Ok ()"
    by (rule rsa_signed_request_signature_verifies_against_public_key_ok [OF rsa])
qed

lemma mixed_tests_ok:
  assumes k: "keys_as_tested E key other_key rsa_key" and e: "encodings_as_tested E"
    and x: "exchanges_as_tested E"
  shows "fingerprint_has_expected_shape E key = Ok ()"
    "ecdh_end_to_end_matches_a_hand_signed_reply E key = Ok ()"
    "dh_end_to_end_matches_a_hand_signed_reply E key = Ok ()"
proof -
  have key: "key_encodes E key (lit ''ssh-ed25519'')" "key_signs E key"
    using k unfolding keys_as_tested_def by blast+
  have tamper: "message_rejected E key h (tampered h)" if "length h = 32" for h
    using k that unfolding keys_as_tested_def by blast
  have b64: "length (base64_unpadded E d) = 43 \<and> 61 \<notin> set (base64_unpadded E d)" if "length d = 32" for d
    using e that unfolding encodings_as_tested_def by blast
  have mp: "mpint_encode E b \<noteq> None" for b
    using e by (simp add: encodings_as_tested_def mpint_ok_def)
  have ex: "x25519_agrees E 11 222" "biguint_ok E" "in_range E 11" "in_range E 222"
    using x unfolding exchanges_as_tested_def by blast+
  show "fingerprint_has_expected_shape E key = Ok ()"
    by (rule fingerprint_has_expected_shape_ok [OF key(1) b64])
  show "ecdh_end_to_end_matches_a_hand_signed_reply E key = Ok ()"
    by (rule ecdh_end_to_end_matches_a_hand_signed_reply_ok [OF key ex(1) mp tamper])
  show "dh_end_to_end_matches_a_hand_signed_reply E key = Ok ()"
    by (rule dh_end_to_end_matches_a_hand_signed_reply_ok [OF key ex(2-4) mp tamper])
qed

lemmas session_tests_ok = full_handshake_password_auth_and_exec_ok
  unsolicited_global_request_after_auth_does_not_break_the_session_ok
  wrong_password_is_reported_as_auth_failure_not_a_fatal_error_ok
  publickey_auth_two_phase_flow_then_exec_ok rejecting_the_host_key_disconnects_cleanly_ok

section \<open>A concrete instance\<close>

text \<open>
  The sample crates over the generators of the tests, with a tag that depends on the key, a digest
  text of the length base64 has, and an RSA key of the primes 3 and 5.
\<close>

definition keyed_tag :: "bytes \<Rightarrow> bytes" where
  "keyed_tag k = take 16 (k @ replicate 16 0)"

definition test_toy :: "byte crates" where
  "test_toy = (toy_over (\<lambda>n r. (\<lambda>i. r, r)) (\<lambda>r. (replicate 32 r, r)) (\<lambda>bits r. (unat r, r)))
     \<lparr>base64_unpadded := \<lambda>_. replicate 43 65,
      chachapoly_seal := \<lambda>k n a m. Some (toy_xor k m, keyed_tag k),
      chachapoly_open := \<lambda>k n a c t. if t = keyed_tag k then Some (toy_xor k c) else None,
      x25519_public := \<lambda>s. take 32 (s @ replicate 32 0),
      pubkey_algorithm := \<lambda>k. if k = [3] then lit ''ssh-rsa'' else lit ''ssh-ed25519'',
      verify_sig := \<lambda>pk m s. s = pk @ take 100 m,
      privkey_try_sign := \<lambda>k m. Some (k @ take 100 m),
      privkey_algorithm := \<lambda>k. if k = [3] then Rsa else Ed25519,
      privkey_rsa := \<lambda>k. if k = [3] then Some ([15], [3], [3], [3], [5]) else None,
      rsa_from_components := \<lambda>n e d primes. if n = prod_list primes then Some [3] else None,
      rsa_sign_sha512 := \<lambda>k m. Some (k @ take 100 m)\<rparr>"

lemma min_pad [simp]: "min a n + (n - a) = (n :: nat)"
  by (simp add: min_def)

lemmas test_toy_simps = test_toy_def toy_over_def crates.simps

lemma test_toy_symmetric: "symmetric_as_tested test_toy"
  unfolding symmetric_as_tested_def
proof (intro conjI)
  show "ciphers_ok test_toy"
    by (simp add: ciphers_ok_def stream_cipher_ok_def aead_ok_def test_toy_simps toy_seal_def toy_open_def
        keyed_tag_def)
  show "tag_checked (aesgcm_seal test_toy) (aesgcm_open test_toy)"
    by (simp add: tag_checked_def test_toy_simps toy_seal_def toy_open_def)
  show "other_key_rejected test_toy"
    by (simp add: other_key_rejected_def test_toy_simps keyed_tag_def)
qed

lemma test_toy_encodings: "encodings_as_tested test_toy"
proof -
  have "encoding_ok test_toy"
    using toy_over_encoding_ok [of "\<lambda>n r. (\<lambda>i. r, r)" "\<lambda>r. (replicate 32 r, r)" "\<lambda>bits r. (unat r, r)"]
    by (simp add: encoding_ok_def test_toy_simps)
  moreover have mp: "mpint_encode test_toy b = Some (toy_mpint b)"
    and b64: "base64_unpadded test_toy d = replicate 43 65" for b d
    by (simp_all add: test_toy_simps)
  moreover have "toy_mpint b = write_string (if hd b < 128 then b else 0 # b)"
    if "b \<noteq> []" "0 < hd b" for b :: bytes
    using that by (cases b) (auto simp: toy_mpint_def Let_def)
  ultimately show ?thesis
    by (simp add: encodings_as_tested_def mpint_ok_def mp b64)
qed

lemma test_toy_exchanges: "exchanges_as_tested test_toy"
  unfolding exchanges_as_tested_def
proof (intro conjI)
  show "\<forall>s. length (x25519_public test_toy s) = 32" by (simp add: test_toy_simps)
  show "x25519_agrees test_toy 1 200" "x25519_agrees test_toy 11 222"
    by (simp_all add: x25519_agrees_def keypair_generate_def test_toy_simps Let_def)
  show "biguint_ok test_toy" by (simp add: biguint_ok_def test_toy_simps)
  show "in_range test_toy 3" "in_range test_toy 151" "in_range test_toy 11" "in_range test_toy 222"
    by (simp_all add: in_range_def test_toy_simps validate_public_value_def GROUP14_PRIME_def)
qed

lemma test_toy_keys: "keys_as_tested test_toy [1] [2] [3]"
proof -
  have fits: "fits_u32 (b # take 100 m)" for b m by (simp add: fits_u32_def)
  have t: "take 100 h \<noteq> take 100 (tampered h)" if "length h = 32" for h
  proof -
    have "hd h XOR 0xFF \<noteq> hd h" by (rule flipped_byte)
    then show ?thesis using that by (cases h) (auto simp: tampered_def)
  qed
  have d: "take 100 (lit ''exchange-hash-fixture'') \<noteq> take 100 (lit ''different-message'')"
    by (simp add: lit_def)
  have one: "fits_u32 [b]" for b by (simp add: fits_u32_def)
  have "rsa_private test_toy [3] [3]"
    by (simp add: rsa_private_def test_toy_simps be_val_def)
  then have "rsa_key_signs test_toy [3]"
    unfolding rsa_key_signs_def signature_good_def by (auto simp: test_toy_simps fits)
  then show ?thesis
    unfolding keys_as_tested_def key_encodes_def key_signs_def signature_good_def message_rejected_def
    using t d by (simp add: test_toy_simps one fits)
qed

lemma bench_draws_keys: "draws_keys bench_crates (\<lambda>_. [7])"
  by (simp add: draws_keys_def bench_signs bench_login_key key_encodes_def)
    (simp add: bench_crates_def test_kit_def fits_u32_def)

text \<open>Decoders that read any armoured key as the RSA key of the sample crates.\<close>

definition test_decoders :: key_crates where
  "test_decoders =
     \<lparr>from_openssh = \<lambda>_. Inl [], from_pkcs1_pem = \<lambda>_. Inr [3], from_pkcs8_pem = \<lambda>_. Inr [3],
      rsa_keypair = Inr, is_encrypted = \<lambda>_. False, decrypt_key = \<lambda>k p. Inr k\<rparr>"

lemma test_toy_decoders: "decoders_as_tested test_toy test_decoders"
  by (simp add: decoders_as_tested_def test_decoders_def test_toy_simps)

section \<open>The property\<close>

text \<open>
  C30: The repository's Rust tests, the unit tests of the modules and those from end to end, pass on
  the model, over every instance of the crates that behaves as documented: no assertion fails and
  nothing panics. One of the 72 is not among them: \<open>chacha20poly1305_body_aead_matches_known_vector\<close>
  runs a crate and no code of the repository. Neither are the TypeScript tests.
\<close>

theorem repository_tests_pass:
  assumes "symmetric_as_tested E" and "encodings_as_tested E" and "exchanges_as_tested E"
    and "keys_as_tested E key other_key rsa_key" and "bench_ok B" and "draws_keys B keygen"
    and "decoders_as_tested E K"
  shows "list_all (\<lambda>outcome. outcome = Ok ())
    (plain_tests @ crate_tests E key other_key rsa_key @ session_tests B keygen @ binding_tests E K)"
  unfolding plain_tests_def crate_tests_def session_tests_def binding_tests_def list_all_append list.pred_inject
  by (intro conjI plain_tests_ok list.pred_inject(1) symmetric_tests_ok [OF assms(1)]
      encoding_tests_ok [OF assms(2)] exchange_tests_ok [OF assms(3)] key_tests_ok [OF assms(4)]
      mixed_tests_ok [OF assms(4,2,3)] session_tests_ok [OF assms(5,6)]
      binding_tests_ok [OF assms(7)])

theorem repository_tests_pass_witness:
  "list_all (\<lambda>outcome. outcome = Ok ())
    (plain_tests @ crate_tests test_toy [1] [2] [3] @ session_tests bench_crates (\<lambda>_. [7]) @
     binding_tests test_toy test_decoders)"
  by (rule repository_tests_pass [OF test_toy_symmetric test_toy_encodings test_toy_exchanges test_toy_keys
        bench_crates_ok bench_draws_keys test_toy_decoders])

end
