(* ===== verification/Spec2Isabelle.thy ===== *)
theory Spec2Isabelle
  imports Session_Properties Connection_Properties Flow_Control Transport_Properties Binding_Properties
    Interop_Properties Test_Properties
begin

text \<open>
  A model of \<open>ssh-core\<close>, the sans-I/O SSH 2 client of this repository, of its WebAssembly binding
  and of the test server it is run against, and their correctness.

  The program. A host (the WebAssembly binding) owns a \<open>Session\<close>: it feeds the bytes that
  arrive from the server, drains the bytes to send, polls events, and calls operations (accept a
  host key, authenticate, open a channel, send data). The session never blocks and never does I/O.
  Inside, bytes go through the identification exchange (\<open>ident.rs\<close>), then through the binary
  packet protocol (\<open>transport/packet.rs\<close>, in plaintext until NEWKEYS, then under one of two AEAD
  ciphers), to a dispatcher over message numbers (\<open>session.rs\<close>), which runs the key exchange
  (\<open>transport/kexinit.rs\<close>, \<open>kex_curve25519.rs\<close>, \<open>kex_dh_group14.rs\<close>, \<open>hostkey.rs\<close>, \<open>kdf.rs\<close>), the
  authentication (\<open>auth/\<close>) and the channels (\<open>connection/\<close>).

  How the code is translated. A struct is a record, an enum a datatype, \<open>u8\<close>, \<open>u32\<close> and \<open>u64\<close> are
  words of that width, \<open>usize\<close> is a natural number, a \<open>HashMap\<close> is a map, a \<open>Vec\<close> or a string is
  a list of bytes. A fallible operation on a state of type \<open>'s\<close> is of type \<open>('s, 'a) op\<close>: it
  returns a \<open>result\<close>, which is \<open>Ok\<close>, \<open>Err\<close> with the error of \<open>error.rs\<close>, or \<open>Panic\<close>
  (an \<open>expect\<close>, an \<open>assert\<close>, a slice out of range), and the state, also where it fails: what was
  changed before an early return stays changed. Sequencing is \<open>and_then\<close>, which stops at the first
  result that is not \<open>Ok\<close>. The foreign crates (SHA-256, X25519, big integers, the ciphers,
  \<open>ssh-key\<close>, \<open>ssh-encoding\<close>, the host's random source) are the fields of one record \<open>'r crates\<close>,
  an argument \<open>E\<close> of every definition that calls them; what the code relies on is a named
  predicate on \<open>E\<close> (\<open>ciphers_ok\<close>: opening inverts sealing and a tag has 16 bytes; \<open>encoding_ok\<close>;
  \<open>biguint_ok\<close>; \<open>crates_total\<close>), and Sample_Crates gives an instance that satisfies each.

  The theories, in the order they build on each other.
  Prelude (bytes and big-endian words), Rust_Str (UTF-8 validity, split, decimal) and Errors
  (results, the state-passing operations, and \<open>triple\<close>, the Hoare triples all invariants are proved
  with: partial ones for what holds of every call that returns, total ones that exclude panics).
  Wire: \<open>wire.rs\<close>, with the locale \<open>codec\<close> (what a writer writes, its reader reads) interpreted
  for every field type. Rng: the trait \<open>SecureRandom\<close> as a locale. Rand_Core: the generators of the
  test kit and of the tests as \<open>RngCore\<close>s, a locale that gives the one of Rng. Crates: the parameters.
  Framed_Link: the locale of a link that carries packets one at a time, interpreted in Packet for
  the plaintext framing and for the sealed one. Chunked: the locale of a consumer of a byte stream
  to which cutting does not matter, interpreted in Session_Feed for the whole session.
  Ident, Kexinit, Kdf, Host_Key, Kex_Dh, Kex_Curve, Auth, Event, Channel, Connection: the modules
  of the same names. Ident also has the exchange as one scan of the whole stream (\<open>ident_scan\<close>), which
  the byte-by-byte loop is shown to equal.
  Simulation: labelled runs, and the locale \<open>simulation\<close> between a system and its specification.
  Flow_Control: two channel tables that run the code on the two ends of one channel, and its first
  interpretation: the two ends are two byte queues. Binding_Properties has the second: the calls of
  JavaScript, with their arguments and replies (\<open>wasm_step\<close>), are the calls of a session they stand for,
  with the replies that session determines (\<open>host_does\<close>).
  Engine: the fields of \<open>Session\<close> (all but the input buffer) and every message handler, up to
  \<open>dispatch\<close>. Session: the buffer, the loop \<open>drive\<close> and every public operation. Channel_Setup: what
  a confirmed channel sends.
  Bindgen: \<open>wasm-ssh-bindgen\<close>, the session with its stash of bulk bytes, every exported call, the JSON
  reports with their escaping, and a JSON string reader to state what they mean.
  Fake_Server: the server of \<open>ssh-core-testkit/src/lib.rs\<close>, every handler, with its loop \<open>fs_loop\<close>;
  its \<open>unwrap\<close>s and \<open>assert\<close>s are panics, and its random source is \<open>TestRng\<close> (\<open>test_kit\<close>).
  Fake_Sshd: the process \<open>fake_sshd.rs\<close> around it (arguments, the accept loop, one connection), and
  the second interpretation of Chunked: the server does not see how its input is cut either.
  Interop: client and server wired to each other by \<open>pump\<close>, as \<open>tests/end_to_end.rs\<close> does, up to
  the exchange hash; Interop_Login: the reply, the switch to the ciphers, the invariant \<open>linked\<close>
  (each direction has one cipher state, held by both ends, and nothing is in flight) and the login
  with a password; Interop_Session: the login with a key (Ed25519 or RSA, \<open>login_key\<close>) and the command.
  Unit_Tests, Transport_Tests, Crypto_Tests, Binding_Tests: the repository's unit tests as programs over the
  model, with the key files they include. A test is a list of steps on the value it mutates; a failed assertion or \<open>unwrap\<close> is \<open>Panic\<close>.
  End_To_End: the tests of \<open>tests/end_to_end.rs\<close>, with their event loops and local variables.

  The lemmas. Engine_Inv: the invariant \<open>engine_ok\<close> of the key state, kept by every handler.
  Engine_Frame: the locale \<open>handler_property\<close> of what every handler keeps, interpreted for the
  receive keys and for the history of events. Engine_Panic: what excludes a panic. Session_Inv: the
  calls of the host as a step relation, \<open>runs\<close> and \<open>reachable\<close>, and the locale \<open>engine_property\<close>
  that lifts a property of the handlers to every call. Session_Safety: its interpretations.
  Session_Feed: the loop. Sample_Crates and Sample_Run: a complete handshake, evaluated, up to the
  accepted host key; the witnesses use it.
  Session_Properties, Connection_Properties, Transport_Properties, Binding_Properties,
  Interop_Properties and Test_Properties: the properties. Interop_Properties has a host like
  those of the end-to-end tests, for any login and command (\<open>host_loop\<close>, \<open>run_session\<close>; it collects
  the events where the tests assert what they are), and \<open>reject_session\<close> for the host that rejects the
  key, and shows what they see for every seed, account, key, command and output within the bounds
  stated there (1000 bytes for a name, password, key or signature, 100000 for a command or output),
  and that the reads of a TCP stream do not matter. Test_Properties shows that the repository's Rust tests pass over
  every instance of the crates that behaves as the tests need.

  Bounds and termination. \<open>drive\<close> recurses while a turn consumes input, so its measure is the length
  of the buffer, and so does the loop of the server. The only fuel is the tests' own: \<open>pump\<close> and
  \<open>host_loop\<close> stop after 1000 rounds as the source does, and the theorems show that four rounds and
  nine events are enough. The runs of Flow_Control have no bound: they are shown to end with all the
  data reported by the length of the data and the cost of what is on the way. Payloads are assumed to fit a packet where a round trip is
  stated (\<open>payload_fits\<close>: \<open>MAX_PACKET_LENGTH\<close> less the largest padding), lengths to fit their
  32-bit field (\<open>fits_u32\<close>).

  Not modelled. The cryptography itself (parameters, with \<open>bench_ok\<close> and \<open>signs_ok\<close> for what the
  two sides of the interop theorems rely on; \<open>bench_crates\<close> satisfies them); the PEM and key decoders
  of the binding (parameters) and the glue \<open>wasm-bindgen\<close> generates; the sockets and the standard
  output of \<open>fake_sshd.rs\<close> (what a socket returns is an input); the one unit test that runs a crate
  alone (the known vector of ChaCha20-Poly1305);
  the TypeScript client, another language.
\<close>

end
